(* ===== verification/Prelude.thy ===== *)
theory Prelude
  imports Main
begin

text \<open>
  Shared vocabulary of the development: the types the server's Go code and its SQL tables
  have in common, the generic lemmas on lists that the table operations need, and the
  collections of rules that the component proofs extend.

  A timestamp is a number of nanoseconds (Go's \<open>time.Time\<close> as an instant); PostgreSQL keeps
  microseconds, which \<open>micros\<close> models. A UUID is the number its sixteen bytes encode, and the
  all-zero \<open>uuid.Nil\<close> is 0. A byte string or Go string is a HOL \<open>string\<close>, whose characters
  are bytes.
\<close>

section \<open>Types\<close>

type_synonym time = int
type_synonym duration = int
type_synonym uuid = nat
type_synonym bytes = string

definition nil_uuid :: uuid where
  "nil_uuid = 0"

section \<open>Collections of rules\<close>

named_theorems inv_intros \<open>structural rules for invariants of transactions\<close>
named_theorems tx_simps \<open>symbolic execution of transactions\<close>

section \<open>Durations\<close>

abbreviation second :: duration where "second \<equiv> 1000000000"
abbreviation millisecond :: duration where "millisecond \<equiv> 1000000"
abbreviation minute :: duration where "minute \<equiv> 60 * second"
abbreviation hour :: duration where "hour \<equiv> 60 * minute"

text \<open>The driver sends a Go time to PostgreSQL as whole microseconds, rounding down.\<close>

definition micros :: "time \<Rightarrow> time" where
  "micros t = (t div 1000) * 1000"

lemma micros_add: "micros (t + 1000 * k) = micros t + 1000 * k"
  by (simp add: micros_def)

lemma micros_le: "micros t \<le> t"
  by (simp add: micros_def minus_mod_eq_div_mult [symmetric])

lemma micros_mono: "s \<le> t \<Longrightarrow> micros s \<le> micros t"
  by (simp add: micros_def zdiv_mono1)

lemma micros_idem [simp]: "micros (micros t) = micros t"
  by (simp add: micros_def)

text \<open>Go's \<open>Time.Sub\<close> saturates at the range of a 64-bit duration.\<close>

definition max_duration :: duration where "max_duration = 2 ^ 63 - 1"
definition min_duration :: duration where "min_duration = - (2 ^ 63)"

definition time_sub :: "time \<Rightarrow> time \<Rightarrow> duration" where
  "time_sub t u = max min_duration (min max_duration (t - u))"

lemma time_sub_le_iff:
  "min_duration \<le> k \<Longrightarrow> k < max_duration \<Longrightarrow> time_sub t u \<le> k \<longleftrightarrow> t - u \<le> k"
  by (auto simp: time_sub_def)

lemma time_sub_ge_iff:
  "min_duration < k \<Longrightarrow> k \<le> max_duration \<Longrightarrow> k \<le> time_sub t u \<longleftrightarrow> k \<le> t - u"
  by (auto simp: time_sub_def)

section \<open>Tables as lists of rows\<close>

text \<open>An SQL \<open>UPDATE ... WHERE\<close> on a table, and the number of rows it affects.\<close>

definition update_where :: "('r \<Rightarrow> bool) \<Rightarrow> ('r \<Rightarrow> 'r) \<Rightarrow> 'r list \<Rightarrow> 'r list" where
  "update_where P f rows = map (\<lambda>r. if P r then f r else r) rows"

definition count_where :: "('r \<Rightarrow> bool) \<Rightarrow> 'r list \<Rightarrow> nat" where
  "count_where P rows = length (filter P rows)"

lemma update_where_Nil [simp]: "update_where P f [] = []"
  by (simp add: update_where_def)

lemma update_where_Cons [simp]:
  "update_where P f (r # rs) = (if P r then f r else r) # update_where P f rs"
  by (simp add: update_where_def)

lemma length_update_where [simp]: "length (update_where P f rows) = length rows"
  by (simp add: update_where_def)

lemma map_update_where:
  "(\<And>r. P r \<Longrightarrow> k (f r) = k r) \<Longrightarrow> map k (update_where P f rows) = map k rows"
  by (simp add: update_where_def)

lemma set_update_where:
  "set (update_where P f rows) = f ` {r \<in> set rows. P r} \<union> {r \<in> set rows. \<not> P r}"
  by (auto simp: update_where_def)

lemma update_where_none: "(\<And>r. r \<in> set rows \<Longrightarrow> \<not> P r) \<Longrightarrow> update_where P f rows = rows"
  by (simp add: update_where_def map_idI)

lemma filter_update_where:
  "(\<And>r. P r \<Longrightarrow> Q (f r) = Q r) \<Longrightarrow>
   filter Q (update_where P f rows) = update_where P f (filter Q rows)"
  by (induction rows) auto

lemma count_where_0_iff: "count_where P rows = 0 \<longleftrightarrow> (\<forall>r \<in> set rows. \<not> P r)"
  by (simp add: count_where_def filter_empty_conv)

lemma count_where_eq_1_unique:
  assumes "distinct (map k rows)" and "r \<in> set rows" and "P r"
    and "\<And>s. s \<in> set rows \<Longrightarrow> P s \<Longrightarrow> k s = k r"
  shows "count_where P rows = 1"
  using assms
proof (induction rows)
  case Nil
  then show ?case by simp
next
  case (Cons x xs)
  show ?case
  proof (cases "P x")
    case True
    then have "k x = k r" using Cons.prems(4) by simp
    then have "\<forall>s \<in> set xs. \<not> P s" using Cons.prems(1,4)
      by (auto simp: image_iff)
    then have "filter P xs = []" by (simp add: filter_empty_conv)
    with True show ?thesis by (simp add: count_where_def)
  next
    case False
    with Cons.prems(2,3) have in_xs: "r \<in> set xs" by auto
    have dist: "distinct (map k xs)" using Cons.prems(1) by simp
    have keys: "k s = k r" if "s \<in> set xs" and "P s" for s
      by (rule Cons.prems(4)) (use that in \<open>simp_all\<close>)
    have "count_where P xs = 1"
      by (rule Cons.IH [OF dist in_xs Cons.prems(3) keys])
    with False show ?thesis by (simp add: count_where_def)
  qed
qed

subsection \<open>Lookup by key\<close>

lemma find_Some_in: "List.find P rows = Some r \<Longrightarrow> r \<in> set rows \<and> P r"
  by (auto simp: find_Some_iff)

lemma find_None_notin: "List.find P rows = None \<longleftrightarrow> (\<forall>r \<in> set rows. \<not> P r)"
  by (auto simp: find_None_iff)

lemma find_key_Some:
  "distinct (map k rows) \<Longrightarrow>
   List.find (\<lambda>r. k r = i) rows = Some r \<longleftrightarrow> r \<in> set rows \<and> k r = i"
  by (induction rows) (auto simp: image_iff)

lemma find_unique:
  assumes "r \<in> set rows" and "P r" and "\<And>s. s \<in> set rows \<Longrightarrow> P s \<Longrightarrow> s = r"
  shows "List.find P rows = Some r"
proof (cases "List.find P rows")
  case None
  with assms(1,2) show ?thesis by (auto simp: find_None_notin)
next
  case (Some s)
  then have "s = r" using assms(3) by (blast dest: find_Some_in)
  with Some show ?thesis by simp
qed

lemma find_append:
  "List.find P (xs @ ys) = (case List.find P xs of None \<Rightarrow> List.find P ys | Some r \<Rightarrow> Some r)"
  by (induction xs) auto

lemma find_update_where:
  "(\<And>r. P r \<Longrightarrow> Q (f r) = Q r) \<Longrightarrow>
   List.find Q (update_where P f rows) =
     map_option (\<lambda>r. if P r then f r else r) (List.find Q rows)"
  by (induction rows) auto

lemma find_cong_update_where:
  "(\<And>r. P r \<Longrightarrow> \<not> Q r \<and> \<not> Q (f r)) \<Longrightarrow>
   List.find Q (update_where P f rows) = List.find Q rows"
  by (induction rows) auto

lemma distinct_key_eq:
  "distinct (map k rows) \<Longrightarrow> r \<in> set rows \<Longrightarrow> s \<in> set rows \<Longrightarrow> k r = k s \<Longrightarrow> r = s"
  by (simp add: distinct_map inj_on_def)

subsection \<open>Sorting\<close>

lemma insort_key_append_greatest:
  "k y \<le> k x \<Longrightarrow> insort_key k y (zs @ [x]) = insort_key k y zs @ [x]"
  by (induction zs) auto

lemma sort_key_append_greatest:
  "(\<And>y. y \<in> set ys \<Longrightarrow> k y \<le> k x) \<Longrightarrow> sort_key k (ys @ [x]) = sort_key k ys @ [x]"
  by (induction ys) (auto simp: insort_key_append_greatest)

end
