(* ===== verification/Errors.thy ===== *)
theory Errors
  imports Prelude
begin

text \<open>
  The error values of the server: the sentinel errors of \<open>internal/store/store.go\<close>, the
  API errors of \<open>internal/apperror/error.go\<close>, and \<open>mapError\<close> of
  \<open>internal/httpapi/respond.go\<close>, which turns any error into the API error a client sees.
  An error that wraps another one (\<open>fmt.Errorf\<close> with \<open>%w\<close>, or the cause of an API error)
  keeps it, because \<open>errors.Is\<close> and \<open>errors.As\<close> search the whole chain.
\<close>

section \<open>Error values\<close>

datatype store_error =
    ErrNotFound
  | ErrConflict
  | ErrVersion
  | ErrRefreshReuse
  | ErrInvalidRefresh
  | ErrAlreadyPaired
  | ErrActiveSession
  | ErrCooldown

text \<open>The fields of \<open>apperror.Error\<close>; the only details the server attaches are flags.\<close>

record app_fields =
  app_code :: string
  app_message :: string
  app_status :: int
  app_details :: "(string \<times> bool) list"
  app_retry_after :: int

datatype go_error =
    PgError string                          \<comment> \<open>\<open>*pgconn.PgError\<close>, with its SQLSTATE\<close>
  | NoRows                                  \<comment> \<open>\<open>pgx.ErrNoRows\<close>\<close>
  | Sentinel store_error
  | AppError app_fields "go_error option"   \<comment> \<open>\<open>*apperror.Error\<close> and its cause\<close>
  | Wrapped string go_error                 \<comment> \<open>\<open>fmt.Errorf\<close> with \<open>%w\<close>\<close>
  | Plain string                            \<comment> \<open>\<open>errors.New\<close>\<close>

type_synonym app_error = "app_fields \<times> go_error option"

section \<open>Constructors\<close>

definition app_new :: "int \<Rightarrow> string \<Rightarrow> string \<Rightarrow> app_error" where
  "app_new status code message =
     (\<lparr>app_code = code, app_message = message, app_status = status, app_details = [],
       app_retry_after = 0\<rparr>, None)"

definition app_wrap :: "int \<Rightarrow> string \<Rightarrow> string \<Rightarrow> go_error \<Rightarrow> app_error" where
  "app_wrap status code message cause =
     (\<lparr>app_code = code, app_message = message, app_status = status, app_details = [],
       app_retry_after = 0\<rparr>, Some cause)"

definition as_error :: "app_error \<Rightarrow> go_error" where
  "as_error e = AppError (fst e) (snd e)"

definition ErrUnauthorized :: app_error where
  "ErrUnauthorized = app_new 401 ''unauthorized'' ''Sign in to continue.''"

definition ErrForbidden :: app_error where
  "ErrForbidden = app_new 403 ''forbidden'' ''You do not have access to this resource.''"

definition AppNotFound :: app_error where
  "AppNotFound = app_new 404 ''not_found'' ''The requested resource was not found.''"

definition AppConflict :: app_error where
  "AppConflict = app_new 409 ''conflict'' ''The request conflicts with current state.''"

definition ErrValidation :: app_error where
  "ErrValidation = app_new 422 ''validation_error'' ''Check the request and try again.''"

section \<open>Searching the chain of wrapped errors\<close>

fun error_chain :: "go_error \<Rightarrow> go_error list" where
  "error_chain (AppError f (Some c)) = AppError f (Some c) # error_chain c"
| "error_chain (Wrapped m c) = Wrapped m c # error_chain c"
| "error_chain e = [e]"

definition errors_is :: "go_error \<Rightarrow> go_error \<Rightarrow> bool" where
  "errors_is e target \<longleftrightarrow> target \<in> set (error_chain e)"

fun first_pg :: "go_error list \<Rightarrow> string option" where
  "first_pg [] = None"
| "first_pg (PgError c # es) = Some c"
| "first_pg (e # es) = first_pg es"

fun first_app :: "go_error list \<Rightarrow> app_error option" where
  "first_app [] = None"
| "first_app (AppError f c # es) = Some (f, c)"
| "first_app (e # es) = first_app es"

definition internal_error :: "go_error option \<Rightarrow> app_error" where
  "internal_error cause =
     (\<lparr>app_code = ''internal_error'', app_message = ''Something went wrong.'',
       app_status = 500, app_details = [], app_retry_after = 0\<rparr>, cause)"

text \<open>\<open>apperror.As\<close>: the API error in the chain, or an internal error around it.\<close>

definition app_as :: "go_error \<Rightarrow> app_error" where
  "app_as e = (case first_app (error_chain e) of
       Some a \<Rightarrow> a
     | None \<Rightarrow> app_wrap 500 ''internal_error'' ''Something went wrong.'' e)"

section \<open>The error a client sees\<close>

definition version_conflict :: "string \<Rightarrow> app_error" where
  "version_conflict message =
     (\<lparr>app_code = ''version_conflict'', app_message = message, app_status = 409,
       app_details = [(''resync_required'', True)], app_retry_after = 0\<rparr>, None)"

definition map_error_rest :: "go_error \<Rightarrow> app_error" where
  "map_error_rest e =
     (if errors_is e (Sentinel ErrNotFound) \<or> errors_is e NoRows then AppNotFound
      else if errors_is e (Sentinel ErrAlreadyPaired) then
        app_new 409 ''already_paired'' ''This account already belongs to a pair.''
      else if errors_is e (Sentinel ErrActiveSession) then
        app_new 409 ''active_session_exists'' ''A focus session is already running.''
      else if errors_is e (Sentinel ErrVersion) then
        version_conflict ''The session changed on another device. Sync and try again.''
      else if errors_is e (Sentinel ErrCooldown) then
        app_new 429 ''cheer_cooldown'' ''Give the last cheer a moment.''
      else if errors_is e (Sentinel ErrConflict) then AppConflict
      else app_as e)"

definition map_error :: "go_error option \<Rightarrow> app_error" where
  "map_error err = (case err of
       None \<Rightarrow> app_new 500 ''internal_error'' ''Something went wrong.''
     | Some e \<Rightarrow> (case first_pg (error_chain e) of
           Some code \<Rightarrow>
             (if code = ''40001'' then
                version_conflict ''The resource changed concurrently. Sync and try again.''
              else if code = ''23505'' then AppConflict
              else map_error_rest e)
         | None \<Rightarrow> map_error_rest e))"

lemma map_error_sentinel [simp]:
  "map_error (Some (Sentinel ErrNotFound)) = AppNotFound"
  "map_error (Some (Sentinel ErrConflict)) = AppConflict"
  "map_error (Some (Sentinel ErrVersion)) =
     version_conflict ''The session changed on another device. Sync and try again.''"
  "map_error (Some (PgError ''40001'')) =
     version_conflict ''The resource changed concurrently. Sync and try again.''"
  "map_error (Some (PgError ''23505'')) = AppConflict"
  by (simp_all add: map_error_def map_error_rest_def errors_is_def)

lemma status_of_constructors [simp]:
  "app_status (fst (app_new s c m)) = s"
  "app_status (fst (app_wrap s c m e)) = s"
  "app_status (fst (version_conflict m)) = 409"
  "app_status (fst AppNotFound) = 404"
  "app_status (fst AppConflict) = 409"
  "app_status (fst ErrValidation) = 422"
  "app_status (fst ErrUnauthorized) = 401"
  by (simp_all add: app_new_def app_wrap_def version_conflict_def AppNotFound_def
      AppConflict_def ErrValidation_def ErrUnauthorized_def)

lemma first_app_in: "first_app es = Some (f, c) \<Longrightarrow> AppError f c \<in> set es"
  by (induction es rule: first_app.induct) auto

end
