(* ===== verification/Transactions.thy ===== *)
theory Transactions
  imports Errors
begin

text \<open>
  How the store talks to the database. Every method of \<open>internal/store\<close> is a program that
  runs SQL statements in order, returns at the first error, and commits once at its end; the
  deferred \<open>Rollback\<close> undoes the transaction on every other way out. A program here is a
  function from the world and the database to a result, the new world and the new database.

  The world is everything outside the database rows that the code observes: the wall clock of
  the server (\<open>time.Now\<close>), the clock of the database (\<open>clock_timestamp()\<close>), the UUIDs that are
  drawn, the statement at which the driver fails and with which SQLSTATE, and the sequence of
  \<open>pair_events.cursor\<close>, which PostgreSQL does not roll back. Each is read at a step number that
  grows with every reading, so two readings never have to agree. A theorem over all worlds
  therefore holds for every clock behaviour and for a failure of any statement.

  A transaction is one atomic step: the code runs its writing transactions at the serializable
  isolation level, or locks the rows it changes, and a serialization failure is one of the
  failures the world can inject.
\<close>

section \<open>The world\<close>

record world =
  w_step :: nat
  w_now :: "nat \<Rightarrow> time"
  w_clock :: "nat \<Rightarrow> time"
  w_uuid :: "nat \<Rightarrow> nat \<Rightarrow> uuid"
  w_fault :: "nat \<Rightarrow> string option"
  w_seq :: int

text \<open>What one SQL statement can observe: the database clock and \<open>gen_random_uuid()\<close>.\<close>

record sql_env =
  e_clock :: time
  e_uuid :: "nat \<Rightarrow> uuid"

type_synonym ('d, 'a) tx = "world \<Rightarrow> 'd \<Rightarrow> (go_error + 'a) \<times> world \<times> 'd"

definition tick :: "world \<Rightarrow> world" where
  "tick w = w\<lparr>w_step := Suc (w_step w)\<rparr>"

definition env_of :: "world \<Rightarrow> sql_env" where
  "env_of w = \<lparr>e_clock = w_clock w (w_step w), e_uuid = w_uuid w (w_step w)\<rparr>"

section \<open>Programs\<close>

definition ret :: "'a \<Rightarrow> ('d, 'a) tx" where
  "ret v w d = (Inr v, w, d)"

definition raise :: "go_error \<Rightarrow> ('d, 'a) tx" where
  "raise e w d = (Inl e, w, d)"

definition bind_tx :: "('d, 'a) tx \<Rightarrow> ('a \<Rightarrow> ('d, 'b) tx) \<Rightarrow> ('d, 'b) tx" where
  "bind_tx m f w d = (case m w d of
       (Inl e, w', d') \<Rightarrow> (Inl e, w', d')
     | (Inr v, w', d') \<Rightarrow> f v w' d')"

text \<open>One SQL statement: it fails as the world says, or with its own error, or changes rows.\<close>

definition sql :: "(sql_env \<Rightarrow> 'd \<Rightarrow> go_error + 'a \<times> 'd) \<Rightarrow> ('d, 'a) tx" where
  "sql q w d = (case w_fault w (w_step w) of
       Some code \<Rightarrow> (Inl (PgError code), tick w, d)
     | None \<Rightarrow> (case q (env_of w) d of
           Inl e \<Rightarrow> (Inl e, tick w, d)
         | Inr (v, d') \<Rightarrow> (Inr v, tick w, d')))"

definition select :: "(sql_env \<Rightarrow> 'd \<Rightarrow> 'a) \<Rightarrow> ('d, 'a) tx" where
  "select q = sql (\<lambda>e d. Inr (q e d, d))"

definition exec :: "(sql_env \<Rightarrow> 'd \<Rightarrow> go_error + 'd) \<Rightarrow> ('d, unit) tx" where
  "exec q = sql (\<lambda>e d. case q e d of Inl err \<Rightarrow> Inl err | Inr d' \<Rightarrow> Inr ((), d'))"

text \<open>\<open>time.Now()\<close> and \<open>uuid.New()\<close>, which cannot fail.\<close>

definition go_now :: "('d, time) tx" where
  "go_now w d = (Inr (w_now w (w_step w)), tick w, d)"

definition new_uuid :: "('d, uuid) tx" where
  "new_uuid w d = (Inr (w_uuid w (w_step w) 0), tick w, d)"

text \<open>The default value of a \<open>bigserial\<close> column.\<close>

definition nextval :: "('d, int) tx" where
  "nextval w d = (Inr (w_seq w + 1), w\<lparr>w_seq := w_seq w + 1\<rparr>, d)"

text \<open>\<open>if err := ...; err != nil { return e }\<close> with a fixed error \<open>e\<close>.\<close>

definition on_error :: "go_error \<Rightarrow> ('d, 'a) tx \<Rightarrow> ('d, 'a) tx" where
  "on_error e m w d = (case m w d of
       (Inl _, w', d') \<Rightarrow> (Inl e, w', d')
     | (Inr v, w', d') \<Rightarrow> (Inr v, w', d'))"

primrec for_each :: "'x list \<Rightarrow> ('x \<Rightarrow> ('d, unit) tx) \<Rightarrow> ('d, unit) tx" where
  "for_each [] f = ret ()"
| "for_each (x # xs) f = bind_tx (f x) (\<lambda>_. for_each xs f)"

primrec map_each :: "'x list \<Rightarrow> ('x \<Rightarrow> ('d, 'a) tx) \<Rightarrow> ('d, 'a list) tx" where
  "map_each [] f = ret []"
| "map_each (x # xs) f = bind_tx (f x) (\<lambda>v. bind_tx (map_each xs f) (\<lambda>vs. ret (v # vs)))"

text \<open>
  \<open>BeginTx\<close>, the body, \<open>Commit\<close>, with \<open>defer tx.Rollback\<close>. The body says whether it returns
  through \<open>Commit\<close> or leaves without it; only a commit that succeeds keeps the changes.
\<close>

datatype 'a outcome = Commit 'a | Abandon 'a

definition transaction :: "('d, 'a outcome) tx \<Rightarrow> ('d, 'a) tx" where
  "transaction body w d = (case select (\<lambda>_ _. ()) w d of
       (Inl e, w1, d1) \<Rightarrow> (Inl e, w1, d)
     | (Inr _, w1, d1) \<Rightarrow> (case body w1 d of
           (Inl e, w2, d2) \<Rightarrow> (Inl e, w2, d)
         | (Inr (Abandon v), w2, d2) \<Rightarrow> (Inr v, w2, d)
         | (Inr (Commit v), w2, d2) \<Rightarrow> (case select (\<lambda>_ _. ()) w2 d2 of
               (Inl e, w3, d3) \<Rightarrow> (Inl e, w3, d)
             | (Inr _, w3, d3) \<Rightarrow> (Inr v, w3, d2))))"

definition commit :: "'a \<Rightarrow> ('d, 'a outcome) tx" where
  "commit v = ret (Commit v)"

definition abandon :: "'a \<Rightarrow> ('d, 'a outcome) tx" where
  "abandon v = ret (Abandon v)"

section \<open>Constraint checks\<close>

definition require :: "bool \<Rightarrow> string \<Rightarrow> go_error + 'a \<Rightarrow> go_error + 'a" where
  "require c code k = (if c then k else Inl (PgError code))"

lemma require_Inr [simp]: "require c code k = Inr v \<longleftrightarrow> c \<and> k = Inr v"
  by (simp add: require_def)

lemma require_True [simp]: "require True code k = k"
  by (simp add: require_def)

section \<open>The world only moves forward\<close>

definition advance :: "world \<Rightarrow> world \<Rightarrow> bool" where
  "advance w w' \<longleftrightarrow> w_now w' = w_now w \<and> w_clock w' = w_clock w \<and> w_uuid w' = w_uuid w \<and>
     w_fault w' = w_fault w \<and> w_step w \<le> w_step w' \<and> w_seq w \<le> w_seq w'"

lemma advance_refl [simp, intro]: "advance w w"
  by (simp add: advance_def)

lemma advance_trans [trans]: "advance u v \<Longrightarrow> advance v w \<Longrightarrow> advance u w"
  by (auto simp: advance_def)

lemma advance_tick [simp, intro]: "advance w (tick w)"
  by (simp add: advance_def tick_def)

lemma advance_tickD: "advance w w' \<Longrightarrow> advance w (tick w')"
  by (auto simp: advance_def tick_def)

text \<open>Every program only moves the world forward; the rules are syntax-directed.\<close>

definition advances :: "('d, 'a) tx \<Rightarrow> bool" where
  "advances m \<longleftrightarrow> (\<forall>w d. advance w (fst (snd (m w d))))"

named_theorems adv_intros \<open>programs that move the world forward\<close>

lemma advancesD: "advances m \<Longrightarrow> m w d = (r, w', d') \<Longrightarrow> advance w w'"
  by (metis advances_def fst_conv snd_conv)

lemma advances_ret [adv_intros]: "advances (ret v)"
  by (simp add: advances_def ret_def)

lemma advances_raise [adv_intros]: "advances (raise e)"
  by (simp add: advances_def raise_def)

lemma advances_bind [adv_intros]:
  assumes "advances m" and "\<And>v. advances (f v)"
  shows "advances (bind_tx m f)"
  unfolding advances_def
proof (intro allI)
  fix w d
  obtain r w1 d1 where m: "m w d = (r, w1, d1)" by (cases "m w d") auto
  then have "advance w w1" using assms(1) by (rule advancesD [rotated])
  moreover have "advance w1 (fst (snd (f v w1 d1)))" for v
    using assms(2) by (simp add: advances_def)
  ultimately show "advance w (fst (snd (bind_tx m f w d)))"
    by (cases r) (auto simp: bind_tx_def m intro: advance_trans)
qed

lemma advances_sql [adv_intros]: "advances (sql q)"
  by (auto simp: advances_def sql_def split: option.split sum.split prod.split)

lemma advances_select [adv_intros]: "advances (select q)"
  by (simp add: select_def advances_sql)

lemma advances_exec [adv_intros]: "advances (exec q)"
  by (simp add: exec_def advances_sql)

lemma advances_go_now [adv_intros]: "advances go_now"
  by (simp add: advances_def go_now_def)

lemma advances_new_uuid [adv_intros]: "advances new_uuid"
  by (simp add: advances_def new_uuid_def)

lemma advances_nextval [adv_intros]: "advances nextval"
  by (simp add: advances_def nextval_def advance_def)

lemma advances_for_each [adv_intros]: "(\<And>x. advances (f x)) \<Longrightarrow> advances (for_each xs f)"
  by (induction xs) (auto intro: adv_intros)

lemma advances_map_each [adv_intros]: "(\<And>x. advances (f x)) \<Longrightarrow> advances (map_each xs f)"
  by (induction xs) (auto intro!: adv_intros)

lemma advances_on_error [adv_intros]:
  assumes "advances m"
  shows "advances (on_error e m)"
  unfolding advances_def
proof (intro allI)
  fix w d
  obtain r w' d' where m: "m w d = (r, w', d')" by (cases "m w d") auto
  have "advance w w'" using assms m by (rule advancesD)
  then show "advance w (fst (snd (on_error e m w d)))"
    by (cases r) (simp_all add: on_error_def m)
qed

lemma advances_if [adv_intros]: "advances a \<Longrightarrow> advances b \<Longrightarrow> advances (if c then a else b)"
  by simp

lemma advances_option [adv_intros]:
  "advances a \<Longrightarrow> (\<And>v. advances (f v)) \<Longrightarrow> advances (case x of None \<Rightarrow> a | Some v \<Rightarrow> f v)"
  by (cases x) auto

lemma advances_sum [adv_intros]:
  "(\<And>e. advances (g e)) \<Longrightarrow> (\<And>v. advances (f v)) \<Longrightarrow>
   advances (case x of Inl e \<Rightarrow> g e | Inr v \<Rightarrow> f v)"
  by (cases x) auto

lemma advances_prod [adv_intros]:
  "(\<And>a b. advances (f a b)) \<Longrightarrow> advances (case x of (a, b) \<Rightarrow> f a b)"
  by (cases x) auto

lemma advances_commit [adv_intros]: "advances (commit v)" "advances (abandon v)"
  by (simp_all add: commit_def abandon_def adv_intros)

lemma advances_transaction [adv_intros]:
  fixes body :: "('d, 'a outcome) tx"
  assumes "advances body"
  shows "advances (transaction body)"
  unfolding advances_def
proof (intro allI)
  fix w and d :: 'd
  have sel: "advances (select (\<lambda>_ _. ()) :: ('d, unit) tx)" by (rule advances_select)
  obtain r1 w1 d1 where m1: "select (\<lambda>_ _. ()) w d = (r1, w1, d1)"
    by (cases "select (\<lambda>_ _. ()) w d") auto
  obtain r2 w2 d2 where m2: "body w1 d = (r2, w2, d2)" by (cases "body w1 d") auto
  obtain r3 w3 d3 where m3: "select (\<lambda>_ _. ()) w2 d2 = (r3, w3, d3)"
    by (cases "select (\<lambda>_ _. ()) w2 d2") auto
  have "advance w w1" "advance w1 w2" "advance w2 w3"
    using advancesD [OF sel m1] advancesD [OF assms m2] advancesD [OF sel m3] by auto
  then show "advance w (fst (snd (transaction body w d)))"
    by (auto simp: transaction_def m1 m2 m3 split: sum.split outcome.split
        intro: advance_trans)
qed

section \<open>Hoare triples\<close>

text \<open>
  \<open>triple P m Q\<close>: started where \<open>P\<close> holds, \<open>m\<close> either fails or ends where \<open>Q\<close> holds of its
  result. \<open>preserves I m\<close>: \<open>I\<close> holds after \<open>m\<close> whether it failed or not.
\<close>

type_synonym 'd assn = "world \<Rightarrow> 'd \<Rightarrow> bool"

definition triple :: "'d assn \<Rightarrow> ('d, 'a) tx \<Rightarrow> ('a \<Rightarrow> 'd assn) \<Rightarrow> bool" where
  "triple P m Q \<longleftrightarrow> (\<forall>w d v w' d'. P w d \<longrightarrow> m w d = (Inr v, w', d') \<longrightarrow> Q v w' d')"

definition preserves :: "'d assn \<Rightarrow> ('d, 'a) tx \<Rightarrow> bool" where
  "preserves I m \<longleftrightarrow> (\<forall>w d r w' d'. I w d \<longrightarrow> m w d = (r, w', d') \<longrightarrow> I w' d')"

text \<open>An assertion that stays true while the world moves and the rows do not.\<close>

definition stable :: "'d assn \<Rightarrow> bool" where
  "stable I \<longleftrightarrow> (\<forall>w w' d. I w d \<longrightarrow> advance w w' \<longrightarrow> I w' d)"

lemma stable_db [intro]: "stable (\<lambda>_. I)"
  by (simp add: stable_def)

lemma stableD: "stable I \<Longrightarrow> I w d \<Longrightarrow> advance w w' \<Longrightarrow> I w' d"
  by (auto simp: stable_def)

lemma stable_tick: "stable I \<Longrightarrow> I w d \<Longrightarrow> I (tick w) d"
  by (rule stableD) auto

lemma stable_conj [intro]: "stable I \<Longrightarrow> stable J \<Longrightarrow> stable (\<lambda>w d. I w d \<and> J w d)"
  unfolding stable_def by blast

lemma tripleI:
  "(\<And>w d v w' d'. P w d \<Longrightarrow> m w d = (Inr v, w', d') \<Longrightarrow> Q v w' d') \<Longrightarrow> triple P m Q"
  by (auto simp: triple_def)

lemma tripleD: "triple P m Q \<Longrightarrow> P w d \<Longrightarrow> m w d = (Inr v, w', d') \<Longrightarrow> Q v w' d'"
  by (auto simp: triple_def)

lemma preservesI:
  "(\<And>w d r w' d'. I w d \<Longrightarrow> m w d = (r, w', d') \<Longrightarrow> I w' d') \<Longrightarrow> preserves I m"
  by (auto simp: preserves_def)

lemma preservesD: "preserves I m \<Longrightarrow> I w d \<Longrightarrow> m w d = (r, w', d') \<Longrightarrow> I w' d'"
  by (auto simp: preserves_def)

lemma triple_conseq:
  "triple P' m Q' \<Longrightarrow> (\<And>w d. P w d \<Longrightarrow> P' w d) \<Longrightarrow>
   (\<And>v w d. Q' v w d \<Longrightarrow> Q v w d) \<Longrightarrow> triple P m Q"
  by (auto simp: triple_def) blast

lemma triple_pre: "triple P' m Q \<Longrightarrow> (\<And>w d. P w d \<Longrightarrow> P' w d) \<Longrightarrow> triple P m Q"
  unfolding triple_def by blast

lemma triple_post: "triple P m Q' \<Longrightarrow> (\<And>v w d. Q' v w d \<Longrightarrow> Q v w d) \<Longrightarrow> triple P m Q"
  by (auto simp: triple_def)

lemma triple_conj:
  "triple P m Q \<Longrightarrow> triple P' m Q' \<Longrightarrow>
   triple (\<lambda>w d. P w d \<and> P' w d) m (\<lambda>v w d. Q v w d \<and> Q' v w d)"
  by (auto simp: triple_def)

lemma triple_ret: "(\<And>w d. P w d \<Longrightarrow> Q v w d) \<Longrightarrow> triple P (ret v) Q"
  by (auto simp: triple_def ret_def)

lemma triple_raise [intro]: "triple P (raise e) Q"
  by (auto simp: triple_def raise_def)

lemma triple_bind:
  assumes "triple P m R" and "\<And>v. triple (R v) (f v) Q"
  shows "triple P (bind_tx m f) Q"
proof (rule tripleI)
  fix w d v w' d'
  assume P: "P w d" and run: "bind_tx m f w d = (Inr v, w', d')"
  then obtain u w1 d1 where m: "m w d = (Inr u, w1, d1)" and f: "f u w1 d1 = (Inr v, w', d')"
    by (auto simp: bind_tx_def split: prod.splits sum.splits)
  from tripleD [OF assms(1) P m] have "R u w1 d1" .
  then show "Q v w' d'" using f by (rule tripleD [OF assms(2)])
qed

lemma triple_sql:
  assumes "\<And>w d v d'. P w d \<Longrightarrow> q (env_of w) d = Inr (v, d') \<Longrightarrow> Q v (tick w) d'"
  shows "triple P (sql q) Q"
  using assms by (auto simp: triple_def sql_def split: option.splits sum.splits)

lemma triple_select:
  assumes "\<And>w d. P w d \<Longrightarrow> Q (q (env_of w) d) (tick w) d"
  shows "triple P (select q) Q"
  unfolding select_def by (rule triple_sql) (use assms in auto)

lemma triple_exec:
  assumes "\<And>w d d'. P w d \<Longrightarrow> q (env_of w) d = Inr d' \<Longrightarrow> Q () (tick w) d'"
  shows "triple P (exec q) Q"
  unfolding exec_def by (rule triple_sql) (use assms in \<open>auto split: sum.splits\<close>)

lemma triple_go_now:
  "(\<And>w d. P w d \<Longrightarrow> Q (w_now w (w_step w)) (tick w) d) \<Longrightarrow> triple P go_now Q"
  by (auto simp: triple_def go_now_def)

lemma triple_new_uuid:
  "(\<And>w d. P w d \<Longrightarrow> Q (w_uuid w (w_step w) 0) (tick w) d) \<Longrightarrow> triple P new_uuid Q"
  by (auto simp: triple_def new_uuid_def)

lemma triple_nextval:
  "(\<And>w d. P w d \<Longrightarrow> Q (w_seq w + 1) (w\<lparr>w_seq := w_seq w + 1\<rparr>) d) \<Longrightarrow> triple P nextval Q"
  by (auto simp: triple_def nextval_def)

lemma triple_on_error: "triple P m Q \<Longrightarrow> triple P (on_error e m) Q"
  by (auto simp: triple_def on_error_def split: prod.splits sum.splits)

lemma triple_if:
  "(c \<Longrightarrow> triple P a Q) \<Longrightarrow> (\<not> c \<Longrightarrow> triple P b Q) \<Longrightarrow> triple P (if c then a else b) Q"
  by simp

lemma triple_option:
  "(x = None \<Longrightarrow> triple P a Q) \<Longrightarrow> (\<And>v. x = Some v \<Longrightarrow> triple P (f v) Q) \<Longrightarrow>
   triple P (case x of None \<Rightarrow> a | Some v \<Rightarrow> f v) Q"
  by (cases x) auto

lemma triple_for_each:
  "(\<And>x. x \<in> set xs \<Longrightarrow> triple I (f x) (\<lambda>_. I)) \<Longrightarrow> triple I (for_each xs f) (\<lambda>_. I)"
proof (induction xs)
  case Nil
  then show ?case by (auto intro: triple_ret)
next
  case (Cons x xs)
  then show ?case by (auto intro: triple_bind)
qed

lemma preserves_triple: "preserves I m \<Longrightarrow> triple I m (\<lambda>_. I)"
  by (auto simp: triple_def preserves_def)

lemma preserves_triple_imp:
  "preserves I m \<Longrightarrow> (\<And>v w d. I w d \<Longrightarrow> Q v w d) \<Longrightarrow> triple I m Q"
  by (auto simp: triple_def preserves_def)

text \<open>A precondition on the result of a pure test can be assumed.\<close>

lemma triple_assume: "(A \<Longrightarrow> triple P m Q) \<Longrightarrow> triple (\<lambda>w d. A \<and> P w d) m Q"
  by (auto simp: triple_def)

section \<open>Invariants of programs\<close>

lemma preserves_ret [inv_intros]: "preserves I (ret v)"
  by (simp add: preserves_def ret_def)

lemma preserves_raise [inv_intros]: "preserves I (raise e)"
  by (simp add: preserves_def raise_def)

lemma preserves_bind [inv_intros]:
  assumes "preserves I m" and "\<And>v. preserves I (f v)"
  shows "preserves I (bind_tx m f)"
proof (rule preservesI)
  fix w d r w' d'
  assume I: "I w d" and run: "bind_tx m f w d = (r, w', d')"
  obtain r1 w1 d1 where m: "m w d = (r1, w1, d1)" by (cases "m w d") auto
  from preservesD [OF assms(1) I m] have I1: "I w1 d1" .
  show "I w' d'"
  proof (cases r1)
    case (Inl e)
    with run m I1 show ?thesis by (simp add: bind_tx_def)
  next
    case (Inr u)
    with run m have "f u w1 d1 = (r, w', d')" by (simp add: bind_tx_def)
    with I1 show ?thesis by (rule preservesD [OF assms(2)])
  qed
qed

lemma preserves_sql:
  assumes "stable I" and "\<And>w d v d'. I w d \<Longrightarrow> q (env_of w) d = Inr (v, d') \<Longrightarrow> I w d'"
  shows "preserves I (sql q)"
  using assms(2) stable_tick [OF assms(1)]
  by (auto simp: preserves_def sql_def split: option.splits sum.splits)

lemma preserves_select [inv_intros]: "stable I \<Longrightarrow> preserves I (select q)"
  unfolding select_def by (rule preserves_sql) auto

lemma preserves_exec:
  assumes "stable I" and "\<And>w d d'. I w d \<Longrightarrow> q (env_of w) d = Inr d' \<Longrightarrow> I w d'"
  shows "preserves I (exec q)"
  unfolding exec_def
  by (rule preserves_sql) (use assms in \<open>auto split: sum.splits\<close>)

lemma preserves_go_now [inv_intros]: "stable I \<Longrightarrow> preserves I go_now"
  by (auto simp: preserves_def go_now_def intro: stable_tick)

lemma preserves_new_uuid [inv_intros]: "stable I \<Longrightarrow> preserves I new_uuid"
  by (auto simp: preserves_def new_uuid_def intro: stable_tick)

lemma preserves_nextval [inv_intros]: "stable I \<Longrightarrow> preserves I nextval"
  by (auto simp: preserves_def nextval_def intro: stableD [where I = I] simp: advance_def)

lemma preserves_for_each [inv_intros]:
  "(\<And>x. preserves I (f x)) \<Longrightarrow> preserves I (for_each xs f)"
  by (induction xs) (auto intro: inv_intros)

lemma preserves_map_each [inv_intros]:
  "(\<And>x. preserves I (f x)) \<Longrightarrow> preserves I (map_each xs f)"
  by (induction xs) (auto intro!: inv_intros)

lemma preserves_on_error [inv_intros]: "preserves I m \<Longrightarrow> preserves I (on_error e m)"
  by (auto simp: preserves_def on_error_def split: prod.splits sum.splits)

lemma preserves_if [inv_intros]:
  "preserves I a \<Longrightarrow> preserves I b \<Longrightarrow> preserves I (if c then a else b)"
  by simp

lemma preserves_option [inv_intros]:
  "preserves I a \<Longrightarrow> (\<And>v. preserves I (f v)) \<Longrightarrow>
   preserves I (case x of None \<Rightarrow> a | Some v \<Rightarrow> f v)"
  by (cases x) auto

lemma preserves_sum [inv_intros]:
  "(\<And>e. preserves I (g e)) \<Longrightarrow> (\<And>v. preserves I (f v)) \<Longrightarrow>
   preserves I (case x of Inl e \<Rightarrow> g e | Inr v \<Rightarrow> f v)"
  by (cases x) auto

lemma preserves_prod [inv_intros]:
  "(\<And>a b. preserves I (f a b)) \<Longrightarrow> preserves I (case x of (a, b) \<Rightarrow> f a b)"
  by (cases x) auto

lemma preserves_commit [inv_intros]: "preserves I (commit v)" "preserves I (abandon v)"
  by (simp_all add: commit_def abandon_def inv_intros)

text \<open>
  The rule for a transaction: it is enough that the body re-establishes the invariant where
  it commits. A failure or an abandoned body leaves the rows as they were.
\<close>

lemma transaction_cases:
  fixes body :: "('d, 'a outcome) tx"
  assumes "transaction body w d = (r, w', d')" and "advances body"
  obtains (unchanged) "d' = d" "advance w w'"
  | (committed) v w1 w2 where "advance w w1" and "body w1 d = (Inr (Commit v), w2, d')"
      and "advance w2 w'" and "r = Inr v"
proof -
  have sel: "select (\<lambda>_ _. ()) u x = (r0, u', x') \<Longrightarrow> u' = tick u \<and> x' = x"
    for u :: world and x :: 'd and r0 u' x'
    by (auto simp: select_def sql_def split: option.splits)
  obtain r1 w1 d1 where m1: "select (\<lambda>_ _. ()) w d = (r1, w1, d1)"
    by (cases "select (\<lambda>_ _. ()) w d") auto
  obtain r2 w2 d2 where m2: "body w1 d = (r2, w2, d2)" by (cases "body w1 d") auto
  obtain r3 w3 d3 where m3: "select (\<lambda>_ _. ()) w2 d2 = (r3, w3, d3)"
    by (cases "select (\<lambda>_ _. ()) w2 d2") auto
  have adv: "advance w w1" "advance w1 w2" "advance w2 w3" "d1 = d" "d3 = d2"
    using sel [OF m1] sel [OF m3] advancesD [OF assms(2) m2] by auto
  show thesis
  proof (cases "\<exists>v. r1 = Inr () \<and> r2 = Inr (Commit v) \<and> r3 = Inr ()")
    case True
    then obtain v where "r1 = Inr ()" "r2 = Inr (Commit v)" "r3 = Inr ()" by blast
    with assms(1) m1 m2 m3 have "w' = w3" "d' = d2" "r = Inr v"
      by (auto simp: transaction_def)
    with adv m2 \<open>r2 = _\<close> show thesis by (intro committed [of w1 v w2]) auto
  next
    case False
    with assms(1) m1 m2 m3 have "d' = d \<and> (w' = w1 \<or> w' = w2 \<or> w' = w3)"
      by (auto simp: transaction_def split: sum.splits outcome.splits)
    with adv show thesis by (intro unchanged) (auto intro: advance_trans)
  qed
qed

lemma select_unit:
  "select (\<lambda>_ _. ()) w d = (case w_fault w (w_step w) of
     Some code \<Rightarrow> (Inl (PgError code), tick w, d) | None \<Rightarrow> (Inr (), tick w, d))"
  by (simp add: select_def sql_def split: option.split)

lemma transaction_InrD:
  assumes "transaction body w d = (Inr v, w', d')"
  obtains (committed) w2 where "body (tick w) d = (Inr (Commit v), w2, d')" and "w' = tick w2"
  | (abandoned) d2 where "body (tick w) d = (Inr (Abandon v), w', d2)" and "d' = d"
proof -
  obtain r w2 d2 where body: "body (tick w) d = (r, w2, d2)" by (cases "body (tick w) d") auto
  have ok: "w_fault w (w_step w) = None"
    using assms by (cases "w_fault w (w_step w)") (simp_all add: transaction_def select_unit)
  show thesis
  proof (cases r)
    case (Inl e)
    with assms body ok show thesis by (simp add: transaction_def select_unit)
  next
    case (Inr out)
    show thesis
    proof (cases out)
      case (Commit u)
      with Inr assms body ok show thesis
        by (intro committed [of w2])
           (cases "w_fault w2 (w_step w2)"; simp add: transaction_def select_unit)+
    next
      case (Abandon u)
      with Inr assms body ok show thesis
        by (intro abandoned [of d2]) (simp_all add: transaction_def select_unit)
    qed
  qed
qed

lemma preserves_transaction:
  assumes "advances body" and "stable I"
    and "triple I body (\<lambda>out w d. case out of Commit v \<Rightarrow> I w d | Abandon v \<Rightarrow> True)"
  shows "preserves I (transaction body)"
proof (rule preservesI)
  fix w d r w' d'
  assume I: "I w d" and run: "transaction body w d = (r, w', d')"
  from run assms(1) show "I w' d'"
  proof (cases rule: transaction_cases)
    case unchanged
    with I assms(2) show ?thesis by (auto dest: stableD)
  next
    case (committed v w1 w2)
    from I committed(1) have "I w1 d" by (rule stableD [OF assms(2)])
    from tripleD [OF assms(3) this committed(2)] have "I w2 d'" by simp
    then show ?thesis using committed(3) by (rule stableD [OF assms(2)])
  qed
qed

lemma preserves_transaction_body [inv_intros]:
  "advances body \<Longrightarrow> stable I \<Longrightarrow> preserves I body \<Longrightarrow> preserves I (transaction body)"
  by (rule preserves_transaction)
     (auto intro: preserves_triple_imp split: outcome.split)

text \<open>Atomicity: a transaction that returns an error has changed nothing.\<close>

lemma transaction_error_unchanged:
  "transaction body w d = (Inl e, w', d') \<Longrightarrow> d' = d"
  by (auto simp: transaction_def split: prod.splits sum.splits outcome.splits)

section \<open>Symbolic execution\<close>

text \<open>
  The runs of a program that return a value, unfolded into what each statement did. With
  these rules \<open>simp\<close> turns \<open>m w d = (Inr v, w', d')\<close> into the equations of its statements.
\<close>

lemma run_bind [tx_simps]:
  "bind_tx m f w d = (Inr v, w', d') \<longleftrightarrow>
   (\<exists>u w1 d1. m w d = (Inr u, w1, d1) \<and> f u w1 d1 = (Inr v, w', d'))"
  by (auto simp: bind_tx_def split: prod.splits sum.splits)

lemma run_ret [tx_simps]: "ret u w d = (Inr v, w', d') \<longleftrightarrow> v = u \<and> w' = w \<and> d' = d"
  by (auto simp: ret_def)

lemma run_raise [tx_simps]: "raise e w d = (Inr v, w', d') \<longleftrightarrow> False"
  by (simp add: raise_def)

lemma run_sql [tx_simps]:
  "sql q w d = (Inr v, w', d') \<longleftrightarrow>
   w_fault w (w_step w) = None \<and> w' = tick w \<and> q (env_of w) d = Inr (v, d')"
  by (auto simp: sql_def split: option.splits sum.splits)

lemma run_select [tx_simps]:
  "select q w d = (Inr v, w', d') \<longleftrightarrow>
   w_fault w (w_step w) = None \<and> w' = tick w \<and> v = q (env_of w) d \<and> d' = d"
  by (auto simp: select_def run_sql)

lemma run_exec [tx_simps]:
  "exec q w d = (Inr v, w', d') \<longleftrightarrow>
   w_fault w (w_step w) = None \<and> w' = tick w \<and> q (env_of w) d = Inr d'"
  by (auto simp: exec_def run_sql split: sum.splits)

lemma run_go_now [tx_simps]:
  "go_now w d = (Inr v, w', d') \<longleftrightarrow> v = w_now w (w_step w) \<and> w' = tick w \<and> d' = d"
  by (auto simp: go_now_def)

lemma run_new_uuid [tx_simps]:
  "new_uuid w d = (Inr v, w', d') \<longleftrightarrow> v = w_uuid w (w_step w) 0 \<and> w' = tick w \<and> d' = d"
  by (auto simp: new_uuid_def)

lemma run_nextval [tx_simps]:
  "nextval w d = (Inr v, w', d') \<longleftrightarrow>
   v = w_seq w + 1 \<and> w' = w\<lparr>w_seq := w_seq w + 1\<rparr> \<and> d' = d"
  by (auto simp: nextval_def)

lemma run_on_error [tx_simps]:
  "on_error e m w d = (Inr v, w', d') \<longleftrightarrow> m w d = (Inr v, w', d')"
  by (auto simp: on_error_def split: prod.splits sum.splits)

lemma run_if [tx_simps]:
  "(if c then a else b) w d = (if c then a w d else b w d)"
  by simp

lemma run_option [tx_simps]:
  "(case x of None \<Rightarrow> a | Some y \<Rightarrow> f y) w d = (case x of None \<Rightarrow> a w d | Some y \<Rightarrow> f y w d)"
  by (cases x) simp_all

lemma run_sum [tx_simps]:
  "(case x of Inl y \<Rightarrow> g y | Inr y \<Rightarrow> f y) w d = (case x of Inl y \<Rightarrow> g y w d | Inr y \<Rightarrow> f y w d)"
  by (cases x) simp_all

lemma run_prod [tx_simps]:
  "(case x of (y, z) \<Rightarrow> f y z) w d = (case x of (y, z) \<Rightarrow> f y z w d)"
  by (cases x) simp_all

lemma run_commit [tx_simps]:
  "commit u w d = (Inr v, w', d') \<longleftrightarrow> v = Commit u \<and> w' = w \<and> d' = d"
  "abandon u w d = (Inr v, w', d') \<longleftrightarrow> v = Abandon u \<and> w' = w \<and> d' = d"
  by (auto simp: commit_def abandon_def run_ret)

lemmas tick_simps = tick_def env_of_def

end
