(* ===== verification/FocusDomain.thy ===== *)
theory FocusDomain
  imports Transactions
begin

text \<open>
  The data of \<open>internal/domain\<close>: \<open>models.go\<close> as records, and the session state machine of
  \<open>state_machine.go\<close>. Every later component reads and writes these values.
\<close>

section \<open>Models\<close>

datatype session_state =
    SessionOpen
  | SessionTogether
  | SessionPaused
  | SessionCompleted
  | SessionCancelled
  | SessionExpired

text \<open>The states can be listed, so that statements about all of them are decided by evaluation.\<close>

instantiation session_state :: enum
begin

definition enum_session_state :: "session_state list" where
  "enum_session_state = [SessionOpen, SessionTogether, SessionPaused, SessionCompleted, SessionCancelled, SessionExpired]"

definition enum_all_session_state :: "(session_state \<Rightarrow> bool) \<Rightarrow> bool" where
  "enum_all_session_state P = list_all P enum_class.enum"

definition enum_ex_session_state :: "(session_state \<Rightarrow> bool) \<Rightarrow> bool" where
  "enum_ex_session_state P = list_ex P enum_class.enum"

instance
proof
  show univ: "(UNIV :: session_state set) = set enum_class.enum"
    by (auto simp: enum_session_state_def intro: session_state.exhaust)
  show "distinct (enum_class.enum :: session_state list)" by (simp add: enum_session_state_def)
  show "enum_class.enum_all P \<longleftrightarrow> Ball UNIV P" for P :: "session_state \<Rightarrow> bool"
    by (simp add: enum_all_session_state_def list_all_iff univ)
  show "enum_class.enum_ex P \<longleftrightarrow> Bex UNIV P" for P :: "session_state \<Rightarrow> bool"
    by (simp add: enum_ex_session_state_def list_ex_iff univ)
qed

end

fun state_name :: "session_state \<Rightarrow> string" where
  "state_name SessionOpen = ''open''"
| "state_name SessionTogether = ''together''"
| "state_name SessionPaused = ''paused''"
| "state_name SessionCompleted = ''completed''"
| "state_name SessionCancelled = ''cancelled''"
| "state_name SessionExpired = ''expired''"

lemma state_names: "state_name s = state_name t \<longleftrightarrow> s = t"
proof -
  have "\<forall>s t. state_name s = state_name t \<longleftrightarrow> s = t" by code_simp
  then show ?thesis by blast
qed

definition terminal :: "session_state \<Rightarrow> bool" where
  "terminal s \<longleftrightarrow> s = SessionCompleted \<or> s = SessionCancelled \<or> s = SessionExpired"

record auth_identity =
  id_account :: uuid
  id_session :: uuid
  id_installation :: uuid
  id_pair :: "uuid option"
  id_display_name :: string

record device_info =
  dv_id :: uuid
  dv_platform :: string
  dv_name :: string

record participant =
  pt_account :: uuid
  pt_display_name :: string
  pt_joined_at :: time

record session_note =
  sn_id :: uuid
  sn_account :: uuid
  sn_display_name :: string
  sn_body :: string
  sn_created_at :: time

record focus_session =
  ses_id :: uuid
  ses_pair :: uuid
  ses_started_by :: uuid
  ses_state :: session_state
  ses_pause_origin :: "session_state option"
  ses_duration_seconds :: int
  ses_started_at :: time
  ses_ends_at :: time
  ses_paused_at :: "time option"
  ses_completed_at :: "time option"
  ses_cancelled_at :: "time option"
  ses_version :: int
  ses_offline_origin :: bool
  ses_participants :: "participant list"
  ses_notes :: "session_note list"

text \<open>\<open>store.CheerResponse\<close>.\<close>

record cheer_response =
  chr_id :: uuid
  chr_created_at :: time

record pair_summary =
  ps_id :: uuid
  ps_partner :: uuid
  ps_partner_name :: string
  ps_created_at :: time

text \<open>
  The payload of a pair event is the JSON of the value the store passes to
  \<open>appendPairEvent\<close>; each kind of value is a constructor here.
\<close>

datatype event_payload =
    PSession focus_session
  | PNote session_note
  | PCheer cheer_response
  | PPairCreated uuid "uuid list"

record pair_event =
  pe_cursor :: int
  pe_pair :: uuid
  pe_type :: string
  pe_entity :: "uuid option"
  pe_actor :: "uuid option"
  pe_payload :: event_payload
  pe_created_at :: time

section \<open>The session state machine\<close>

datatype session_action =
    ActionJoin
  | ActionPause
  | ActionResume
  | ActionComplete
  | ActionCancel
  | ActionExpire

fun action_name :: "session_action \<Rightarrow> string" where
  "action_name ActionJoin = ''join''"
| "action_name ActionPause = ''pause''"
| "action_name ActionResume = ''resume''"
| "action_name ActionComplete = ''complete''"
| "action_name ActionCancel = ''cancel''"
| "action_name ActionExpire = ''expire''"

definition invalid_transition :: "session_state \<Rightarrow> session_action \<Rightarrow> string" where
  "invalid_transition current action =
     ''cannot '' @ action_name action @ '' a '' @ state_name current @ '' session''"

fun next_state ::
  "session_state \<Rightarrow> session_state option \<Rightarrow> session_action \<Rightarrow>
   string + session_state \<times> session_state option" where
  "next_state current origin ActionJoin =
     (if current \<noteq> SessionOpen then Inl (invalid_transition current ActionJoin)
      else Inr (SessionTogether, None))"
| "next_state current origin ActionPause =
     (if current \<noteq> SessionOpen \<and> current \<noteq> SessionTogether
      then Inl (invalid_transition current ActionPause)
      else Inr (SessionPaused, Some current))"
| "next_state current origin ActionResume =
     (if current \<noteq> SessionPaused then Inl (invalid_transition current ActionResume)
      else case origin of
          None \<Rightarrow> Inl (invalid_transition current ActionResume)
        | Some s \<Rightarrow>
            if s \<noteq> SessionOpen \<and> s \<noteq> SessionTogether
            then Inl (invalid_transition current ActionResume)
            else Inr (s, None))"
| "next_state current origin ActionComplete =
     (if current = SessionOpen \<or> current = SessionTogether \<or> current = SessionPaused
      then Inr (SessionCompleted, None)
      else Inl (invalid_transition current ActionComplete))"
| "next_state current origin ActionCancel =
     (if current = SessionOpen \<or> current = SessionTogether \<or> current = SessionPaused
      then Inr (SessionCancelled, None)
      else Inl (invalid_transition current ActionCancel))"
| "next_state current origin ActionExpire =
     (if current = SessionOpen \<or> current = SessionTogether \<or> current = SessionPaused
      then Inr (SessionExpired, None)
      else Inl (invalid_transition current ActionExpire))"

fun_cases next_state_InrE: "next_state s origin a = Inr t"

lemma not_terminal_iff: "\<not> terminal s \<longleftrightarrow> s \<in> {SessionOpen, SessionTogether, SessionPaused}"
  by (cases s) (simp_all add: terminal_def)

lemma terminal_simps [simp]:
  "\<not> terminal SessionOpen" "\<not> terminal SessionTogether" "\<not> terminal SessionPaused"
  "terminal SessionCompleted" "terminal SessionCancelled" "terminal SessionExpired"
  by (simp_all add: terminal_def)

subsection \<open>The life cycle as a relation\<close>

text \<open>
  The life cycle of \<open>docs/ARCHITECTURE.md\<close>, as a step relation on a state and its pause
  origin: an open room becomes shared by a join, an active room pauses and resumes to where
  it was, and any active room can end in one of the three terminal states.
\<close>

type_synonym phase = "session_state \<times> session_state option"

inductive life_step :: "phase \<Rightarrow> session_action \<Rightarrow> phase \<Rightarrow> bool" where
  join: "life_step (SessionOpen, p) ActionJoin (SessionTogether, None)"
| pause: "s \<in> {SessionOpen, SessionTogether} \<Longrightarrow>
    life_step (s, p) ActionPause (SessionPaused, Some s)"
| resume: "s \<in> {SessionOpen, SessionTogether} \<Longrightarrow>
    life_step (SessionPaused, Some s) ActionResume (s, None)"
| complete: "\<not> terminal s \<Longrightarrow> life_step (s, p) ActionComplete (SessionCompleted, None)"
| cancel: "\<not> terminal s \<Longrightarrow> life_step (s, p) ActionCancel (SessionCancelled, None)"
| expire: "\<not> terminal s \<Longrightarrow> life_step (s, p) ActionExpire (SessionExpired, None)"

inductive_cases life_stepE: "life_step (s, p) a t"

inductive_simps life_step_simps:
  "life_step (s, p) ActionJoin t"
  "life_step (s, p) ActionPause t"
  "life_step (s, p) ActionResume t"
  "life_step (s, p) ActionComplete t"
  "life_step (s, p) ActionCancel t"
  "life_step (s, p) ActionExpire t"

text \<open>The phases a session row can be in: an origin exactly while it is paused.\<close>

fun phase_ok :: "phase \<Rightarrow> bool" where
  "phase_ok (SessionPaused, Some s) \<longleftrightarrow> s = SessionOpen \<or> s = SessionTogether"
| "phase_ok (SessionPaused, None) \<longleftrightarrow> False"
| "phase_ok (s, p) \<longleftrightarrow> p = None"

lemma phases:
  "filter phase_ok (List.product enum_class.enum enum_class.enum) =
    [(SessionOpen, None), (SessionTogether, None), (SessionPaused, Some SessionOpen),
     (SessionPaused, Some SessionTogether), (SessionCompleted, None), (SessionCancelled, None),
     (SessionExpired, None)]"
  by code_simp

text \<open>Whether the partner has joined: together now, or paused out of being together.\<close>

fun joined :: "phase \<Rightarrow> bool" where
  "joined (SessionTogether, p) = True"
| "joined (SessionPaused, p) \<longleftrightarrow> p = Some SessionTogether"
| "joined (s, p) = False"

lemma next_state_life_step: "next_state s p a = Inr t \<longleftrightarrow> life_step (s, p) a t"
  by (cases a; cases p; cases s) (auto simp: life_step_simps)

lemma life_step_not_terminal: "life_step (s, p) a t \<Longrightarrow> \<not> terminal s"
  by (erule life_stepE) auto

lemma life_step_phase_ok: "life_step u a t \<Longrightarrow> phase_ok u \<Longrightarrow> phase_ok t"
  by (induction rule: life_step.induct) auto

lemma life_step_joined: "life_step u a t \<Longrightarrow> joined u \<Longrightarrow> terminal (fst t) \<or> joined t"
  by (induction rule: life_step.induct) auto

end
