(* ===== verification/Database.thy ===== *)
theory Database
  imports FocusDomain
begin

text \<open>
  The PostgreSQL schema the store's statements run against (\<open>server/migrations\<close>): one record
  per table row and one list of rows per table. A statement that writes a table goes through
  its \<open>write_\<close> function, which checks the table's primary key, unique indexes and \<open>CHECK\<close>s on
  the rows it would leave and fails with the SQLSTATE PostgreSQL gives (23505 unique, 23503
  foreign key, 23514 check, 23502 not null); foreign keys are checked where a row is inserted.
\<close>

section \<open>Rows\<close>

datatype account_status = AccountPending | AccountActive | AccountDeleted

record account_row =
  ac_id :: uuid
  ac_handle :: bytes
  ac_display_name :: string
  ac_recovery_handle :: string
  ac_status :: account_status
  ac_created_at :: time
  ac_activated_at :: "time option"

record credential_row =
  cr_id :: bytes
  cr_account :: uuid
  cr_credential :: bytes
  cr_label :: string
  cr_created_at :: time
  cr_last_used_at :: "time option"
  cr_revoked_at :: "time option"

record challenge_row =
  ch_id :: uuid
  ch_account :: "uuid option"
  ch_purpose :: string
  ch_session_data :: bytes
  ch_expires_at :: time
  ch_consumed_at :: "time option"

record recovery_row =
  rc_account :: uuid
  rc_position :: nat
  rc_hash :: string
  rc_used_at :: "time option"

record install_row =
  di_id :: uuid
  di_account :: uuid
  di_platform :: string
  di_name :: string
  di_created_at :: time
  di_last_seen_at :: time
  di_revoked_at :: "time option"

record auth_session_row =
  as_id :: uuid
  as_account :: uuid
  as_install :: uuid
  as_credential :: "bytes option"
  as_created_at :: time
  as_expires_at :: time
  as_last_seen_at :: time
  as_revoked_at :: "time option"
  as_revoke_reason :: "string option"

record refresh_row =
  rt_id :: uuid
  rt_family :: uuid
  rt_session :: uuid
  rt_parent :: "uuid option"
  rt_hash :: bytes
  rt_expires_at :: time
  rt_consumed_at :: "time option"
  rt_replacement :: "uuid option"
  rt_revoked_at :: "time option"

record pair_row =
  pr_id :: uuid
  pr_created_at :: time
  pr_dissolved_at :: "time option"

record member_row =
  pm_pair :: uuid
  pm_account :: uuid
  pm_joined_at :: time

record invite_row =
  iv_id :: uuid
  iv_created_by :: uuid
  iv_token_hash :: bytes
  iv_expires_at :: time
  iv_accepted_by :: "uuid option"
  iv_accepted_at :: "time option"
  iv_revoked_at :: "time option"

record session_row =
  fs_id :: uuid
  fs_pair :: uuid
  fs_started_by :: uuid
  fs_state :: session_state
  fs_pause_origin :: "session_state option"
  fs_duration_seconds :: int
  fs_started_at :: time
  fs_ends_at :: time
  fs_paused_at :: "time option"
  fs_completed_at :: "time option"
  fs_cancelled_at :: "time option"
  fs_version :: int
  fs_offline_origin :: bool
  fs_updated_at :: time

record session_member_row =
  sm_session :: uuid
  sm_account :: uuid
  sm_joined_at :: time

record note_row =
  nt_id :: uuid
  nt_session :: uuid
  nt_account :: uuid
  nt_body :: string
  nt_created_at :: time

record reaction_row =
  rx_id :: uuid
  rx_session :: uuid
  rx_account :: uuid
  rx_created_at :: time

text \<open>
  The stored response of an idempotent command is the JSON of the value the command returned;
  it is kept as that value.
\<close>

datatype stored_response =
    RSession focus_session
  | RNote session_note
  | RCheer cheer_response

record idempotency_row =
  ik_account :: uuid
  ik_key :: uuid
  ik_operation :: string
  ik_response :: stored_response
  ik_expires_at :: time

record push_device_row =
  pd_id :: uuid
  pd_account :: uuid
  pd_install :: uuid
  pd_token_hash :: bytes
  pd_token_cipher :: bytes
  pd_environment :: string
  pd_topic :: string
  pd_created_at :: time
  pd_revoked_at :: "time option"

record push_payload =
  pp_title :: string
  pp_body :: string
  pp_deep_link :: string

record job_row =
  jb_id :: uuid
  jb_pair :: uuid
  jb_recipient :: uuid
  jb_device :: uuid
  jb_cursor :: int
  jb_kind :: string
  jb_payload :: push_payload
  jb_attempts :: int
  jb_available_at :: time
  jb_locked_until :: "time option"
  jb_sent_at :: "time option"
  jb_failed_at :: "time option"
  jb_last_error :: "string option"
  jb_created_at :: time

text \<open>\<open>realtime.Hint\<close>, the payload of a \<open>pg_notify\<close> on \<open>pair_events\<close>.\<close>

record hint =
  hint_pair :: uuid
  hint_cursor :: int

record db =
  accounts :: "account_row list"
  credentials :: "credential_row list"
  challenges :: "challenge_row list"
  recovery_codes :: "recovery_row list"
  installs :: "install_row list"
  auth_sessions :: "auth_session_row list"
  refresh_tokens :: "refresh_row list"
  pairs :: "pair_row list"
  members :: "member_row list"
  invites :: "invite_row list"
  sessions :: "session_row list"
  session_members :: "session_member_row list"
  session_notes :: "note_row list"
  reactions :: "reaction_row list"
  idempotency :: "idempotency_row list"
  events :: "pair_event list"
  push_devices :: "push_device_row list"
  jobs :: "job_row list"
  notified :: "hint list"

definition empty_db :: db where
  "empty_db = \<lparr>accounts = [], credentials = [], challenges = [], recovery_codes = [],
     installs = [], auth_sessions = [], refresh_tokens = [], pairs = [], members = [],
     invites = [], sessions = [], session_members = [], session_notes = [], reactions = [],
     idempotency = [], events = [], push_devices = [], jobs = [], notified = []\<rparr>"

section \<open>Constraints\<close>

text \<open>PostgreSQL stores valid UTF-8, of which \<open>char_length\<close> counts the code points.\<close>

definition continuation_byte :: "char \<Rightarrow> bool" where
  "continuation_byte c \<longleftrightarrow> 128 \<le> (of_char c :: nat) \<and> (of_char c :: nat) < 192"

definition char_length :: "string \<Rightarrow> nat" where
  "char_length s = length (filter (\<lambda>c. \<not> continuation_byte c) s)"

definition active_state :: "session_state \<Rightarrow> bool" where
  "active_state s \<longleftrightarrow> s \<in> {SessionOpen, SessionTogether, SessionPaused}"

definition active :: "session_row \<Rightarrow> bool" where
  "active s \<longleftrightarrow> active_state (fs_state s)"

lemma active_not_terminal: "active_state s \<longleftrightarrow> \<not> terminal s"
  by (simp add: active_state_def not_terminal_iff)

text \<open>The primary key of \<open>focus_sessions\<close> and \<open>one_active_session_per_pair_idx\<close>.\<close>

definition sessions_unique :: "session_row list \<Rightarrow> bool" where
  "sessions_unique t \<longleftrightarrow> distinct (map fs_id t) \<and> distinct (map fs_pair (filter active t))"

definition session_check :: "session_row \<Rightarrow> bool" where
  "session_check s \<longleftrightarrow> fs_duration_seconds s = 1500 \<and> 0 < fs_version s \<and>
     fs_pause_origin s \<in> {None, Some SessionOpen, Some SessionTogether}"

definition write_sessions :: "session_row list \<Rightarrow> db \<Rightarrow> go_error + db" where
  "write_sessions t d =
     require (list_all session_check t) ''23514''
      (require (sessions_unique t) ''23505''
        (Inr (d\<lparr>sessions := t\<rparr>)))"

definition account_exists :: "db \<Rightarrow> uuid \<Rightarrow> bool" where
  "account_exists d a \<longleftrightarrow> a \<in> ac_id ` set (accounts d)"

definition pair_exists :: "db \<Rightarrow> uuid \<Rightarrow> bool" where
  "pair_exists d p \<longleftrightarrow> p \<in> pr_id ` set (pairs d)"

definition session_exists :: "db \<Rightarrow> uuid \<Rightarrow> bool" where
  "session_exists d s \<longleftrightarrow> s \<in> fs_id ` set (sessions d)"

definition insert_session :: "session_row \<Rightarrow> db \<Rightarrow> go_error + db" where
  "insert_session s d =
     require (pair_exists d (fs_pair s) \<and> account_exists d (fs_started_by s)) ''23503''
       (write_sessions (sessions d @ [s]) d)"

definition update_sessions ::
  "(session_row \<Rightarrow> bool) \<Rightarrow> (session_row \<Rightarrow> session_row) \<Rightarrow> db \<Rightarrow> go_error + db" where
  "update_sessions P f d = write_sessions (update_where P f (sessions d)) d"

definition insert_session_member :: "session_member_row \<Rightarrow> db \<Rightarrow> go_error + db" where
  "insert_session_member m d =
     require (session_exists d (sm_session m) \<and> account_exists d (sm_account m)) ''23503''
      (require ((sm_session m, sm_account m) \<notin>
          (\<lambda>r. (sm_session r, sm_account r)) ` set (session_members d)) ''23505''
        (Inr (d\<lparr>session_members := session_members d @ [m]\<rparr>)))"

definition insert_note :: "note_row \<Rightarrow> db \<Rightarrow> go_error + db" where
  "insert_note n d =
     require (session_exists d (nt_session n) \<and> account_exists d (nt_account n)) ''23503''
      (require (1 \<le> char_length (nt_body n) \<and> char_length (nt_body n) \<le> 120) ''23514''
        (require (nt_id n \<notin> nt_id ` set (session_notes d)) ''23505''
          (Inr (d\<lparr>session_notes := session_notes d @ [n]\<rparr>))))"

definition insert_reaction :: "reaction_row \<Rightarrow> db \<Rightarrow> go_error + db" where
  "insert_reaction r d =
     require (session_exists d (rx_session r) \<and> account_exists d (rx_account r)) ''23503''
      (require (rx_id r \<notin> rx_id ` set (reactions d)) ''23505''
        (Inr (d\<lparr>reactions := reactions d @ [r]\<rparr>)))"

definition idempotency_id :: "idempotency_row \<Rightarrow> uuid \<times> uuid" where
  "idempotency_id r = (ik_account r, ik_key r)"

definition insert_idempotency :: "idempotency_row \<Rightarrow> db \<Rightarrow> go_error + db" where
  "insert_idempotency r d =
     require (account_exists d (ik_account r)) ''23503''
      (require (idempotency_id r \<notin> idempotency_id ` set (idempotency d)) ''23505''
        (Inr (d\<lparr>idempotency := idempotency d @ [r]\<rparr>)))"

definition insert_event :: "pair_event \<Rightarrow> db \<Rightarrow> go_error + db" where
  "insert_event ev d =
     require (pair_exists d (pe_pair ev) \<and>
        (case pe_actor ev of None \<Rightarrow> True | Some a \<Rightarrow> account_exists d a)) ''23503''
      (require (pe_cursor ev \<notin> pe_cursor ` set (events d)) ''23505''
        (Inr (d\<lparr>events := events d @ [ev]\<rparr>)))"

definition insert_pair :: "pair_row \<Rightarrow> db \<Rightarrow> go_error + db" where
  "insert_pair p d =
     require (pr_id p \<notin> pr_id ` set (pairs d)) ''23505'' (Inr (d\<lparr>pairs := pairs d @ [p]\<rparr>))"

text \<open>\<open>one_active_pair_per_account_idx\<close> implies the primary key of \<open>pair_members\<close>.\<close>

definition insert_members :: "member_row list \<Rightarrow> db \<Rightarrow> go_error + db" where
  "insert_members ms d =
     require (\<forall>m \<in> set ms. pair_exists d (pm_pair m) \<and> account_exists d (pm_account m)) ''23503''
      (require (distinct (map pm_account (members d @ ms))) ''23505''
        (Inr (d\<lparr>members := members d @ ms\<rparr>)))"

definition insert_invite :: "invite_row \<Rightarrow> db \<Rightarrow> go_error + db" where
  "insert_invite v d =
     require (account_exists d (iv_created_by v)) ''23503''
      (require (iv_id v \<notin> iv_id ` set (invites d) \<and>
                iv_token_hash v \<notin> iv_token_hash ` set (invites d)) ''23505''
        (Inr (d\<lparr>invites := invites d @ [v]\<rparr>)))"

definition job_key :: "job_row \<Rightarrow> int \<times> uuid \<times> string" where
  "job_key j = (jb_cursor j, jb_device j, jb_kind j)"

definition jobs_unique :: "job_row list \<Rightarrow> bool" where
  "jobs_unique t \<longleftrightarrow> distinct (map jb_id t) \<and> distinct (map job_key t)"

definition insert_jobs :: "job_row list \<Rightarrow> db \<Rightarrow> go_error + db" where
  "insert_jobs js d =
     require (\<forall>j \<in> set js. jb_kind j \<in> {''focus_started'', ''partner_note''}) ''23514''
      (require (jobs_unique (jobs d @ js)) ''23505''
        (Inr (d\<lparr>jobs := jobs d @ js\<rparr>)))"

text \<open>A job as it is queued: never tried, neither sent nor failed, with a payload of a few words.\<close>

definition unfinished :: "job_row \<Rightarrow> bool" where
  "unfinished j \<longleftrightarrow> jb_sent_at j = None \<and> jb_failed_at j = None"

definition small_push :: "push_payload \<Rightarrow> bool" where
  "small_push p \<longleftrightarrow> length (pp_title p) + length (pp_body p) + length (pp_deep_link p) \<le> 600"

definition fresh_job :: "job_row \<Rightarrow> bool" where
  "fresh_job j \<longleftrightarrow> jb_attempts j = 0 \<and> unfinished j \<and> small_push (jb_payload j)"

lemmas write_defs = write_sessions_def insert_session_def update_sessions_def
  insert_session_member_def insert_note_def insert_reaction_def insert_idempotency_def
  insert_event_def insert_pair_def insert_members_def insert_invite_def insert_jobs_def

lemma sessions_unique_active:
  assumes "sessions_unique t" and "s \<in> set t" and "s' \<in> set t"
    and "active s" and "active s'" and "fs_pair s = fs_pair s'"
  shows "s = s'"
proof -
  have "s \<in> set (filter active t)" and "s' \<in> set (filter active t)" using assms by auto
  with assms(1,6) show ?thesis
    unfolding sessions_unique_def by (metis distinct_key_eq)
qed

end
