(* ===== verification/EventLog.thy ===== *)
theory EventLog
  imports Database
begin

text \<open>
  The append-only pair log of \<open>internal/store/collaboration.go\<close>: \<open>appendPairEvent\<close>, which every
  committed change of a pair goes through, and \<open>PairEvents\<close>, the page a client reads after its
  cursor. The interface \<open>cursor_log\<close> states what a client of the log relies on, and proves that
  reading pages until none is left yields every event once and in order.
\<close>

section \<open>Appending\<close>

text \<open>
  The row takes the next value of the cursor sequence, the database clock, and queues a
  notification that PostgreSQL delivers when the transaction commits.
\<close>

definition append_pair_event ::
  "uuid \<Rightarrow> string \<Rightarrow> uuid option \<Rightarrow> uuid option \<Rightarrow> event_payload \<Rightarrow> (db, int) tx" where
  "append_pair_event pair_id event_type entity_id actor_id payload =
     bind_tx nextval (\<lambda>cursor.
     bind_tx (exec (\<lambda>e d. insert_event
         \<lparr>pe_cursor = cursor, pe_pair = pair_id, pe_type = event_type, pe_entity = entity_id,
          pe_actor = actor_id, pe_payload = payload, pe_created_at = e_clock e\<rparr> d)) (\<lambda>_.
     bind_tx (exec (\<lambda>e d. Inr (d\<lparr>notified := notified d @
         [\<lparr>hint_pair = pair_id, hint_cursor = cursor\<rparr>]\<rparr>))) (\<lambda>_.
     ret cursor)))"

section \<open>Reading a page\<close>

definition events_after :: "uuid \<Rightarrow> int \<Rightarrow> db \<Rightarrow> pair_event list" where
  "events_after p c d =
     sort_key pe_cursor (filter (\<lambda>ev. pe_pair ev = p \<and> c < pe_cursor ev) (events d))"

fun last_cursor :: "int \<Rightarrow> pair_event list \<Rightarrow> int" where
  "last_cursor c [] = c"
| "last_cursor c (ev # evs) = last_cursor (pe_cursor ev) evs"

definition page_limit :: "int \<Rightarrow> nat" where
  "page_limit limit = (if limit < 1 \<or> 500 < limit then 200 else nat limit)"

definition pair_events ::
  "auth_identity \<Rightarrow> int \<Rightarrow> int \<Rightarrow> (db, pair_event list \<times> int) tx" where
  "pair_events idn cursor limit = (case id_pair idn of
       None \<Rightarrow> ret ([], cursor)
     | Some p \<Rightarrow>
         bind_tx (select (\<lambda>_ d. take (page_limit limit) (events_after p cursor d))) (\<lambda>page.
         ret (page, last_cursor cursor page)))"

lemma last_cursor_cases: "last_cursor c es = (if es = [] then c else pe_cursor (last es))"
  by (induction c es rule: last_cursor.induct) auto

lemma last_cursor_last: "es \<noteq> [] \<Longrightarrow> last_cursor c es = pe_cursor (last es)"
  by (simp add: last_cursor_cases)

section \<open>The log as an interface\<close>

text \<open>
  A log of entries with strictly increasing cursors, read in pages after a cursor. The client
  \<open>drain\<close> is the loop of the sync protocol: read a page, keep it, go on from the last cursor of
  the page while the page was full.
\<close>

locale cursor_log =
  fixes page :: "'s \<Rightarrow> int \<Rightarrow> nat \<Rightarrow> 'e list"
    and cursor_of :: "'e \<Rightarrow> int"
    and after :: "'s \<Rightarrow> int \<Rightarrow> 'e list"
    and ok :: "'s \<Rightarrow> bool"
  assumes page_take: "ok s \<Longrightarrow> page s c n = take n (after s c)"
    and after_sorted: "ok s \<Longrightarrow> sorted_wrt (<) (map cursor_of (after s c))"
    and after_from: "ok s \<Longrightarrow> e \<in> set (after s c) \<Longrightarrow>
      after s (cursor_of e) = filter (\<lambda>x. cursor_of e < cursor_of x) (after s c)"
begin

fun drain :: "nat \<Rightarrow> 's \<Rightarrow> int \<Rightarrow> nat \<Rightarrow> 'e list" where
  "drain 0 s c n = []"
| "drain (Suc k) s c n =
     (let es = page s c n
      in if length es = n then es @ drain k s (cursor_of (last es)) n else es)"

lemma sorted_filter_suffix:
  assumes "sorted_wrt (<) (map cursor_of (xs @ e # ys))"
  shows "filter (\<lambda>x. cursor_of e < cursor_of x) (xs @ e # ys) = ys"
proof -
  have "filter (\<lambda>x. cursor_of e < cursor_of x) xs = []"
    using assms by (auto simp: filter_empty_conv sorted_wrt_append)
  moreover have "filter (\<lambda>x. cursor_of e < cursor_of x) ys = ys"
    using assms by (auto simp: filter_id_conv sorted_wrt_append)
  ultimately show ?thesis by simp
qed

lemma after_last_of_page:
  assumes "ok s" and "0 < n" and "n \<le> length (after s c)"
  shows "after s (cursor_of (last (take n (after s c)))) = drop n (after s c)"
proof -
  let ?l = "after s c" and ?e = "last (take n (after s c))"
  have ne: "take n ?l \<noteq> []" using assms by auto
  have split: "?l = butlast (take n ?l) @ ?e # drop n ?l"
    using append_butlast_last_id [OF ne] by (metis append.assoc append_Cons append_Nil append_take_drop_id)
  have "?e \<in> set ?l" using last_in_set [OF ne] by (meson in_set_takeD)
  then have "after s (cursor_of ?e) = filter (\<lambda>x. cursor_of ?e < cursor_of x) ?l"
    by (rule after_from [OF assms(1)])
  also have "\<dots> = drop n ?l"
    using sorted_filter_suffix [of "butlast (take n ?l)" ?e "drop n ?l"]
      after_sorted [OF assms(1), of c] split by simp
  finally show ?thesis .
qed

lemma drain_complete:
  assumes "ok s" and "0 < n" and "length (after s c) < k * n"
  shows "drain k s c n = after s c"
  using assms(3)
proof (induction k arbitrary: c)
  case 0
  then show ?case by simp
next
  case (Suc k)
  show ?case
  proof (cases "n \<le> length (after s c)")
    case True
    have "drain k s (cursor_of (last (take n (after s c)))) n
        = after s (cursor_of (last (take n (after s c))))"
      by (rule Suc.IH) (use Suc.prems True in
          \<open>simp add: after_last_of_page [OF assms(1,2) True]\<close>)
    with True show ?thesis
      by (simp add: Let_def page_take [OF assms(1)] after_last_of_page [OF assms(1,2) True])
  next
    case False
    then show ?thesis by (simp add: Let_def page_take [OF assms(1)])
  qed
qed

end

section \<open>The pair log provides the interface\<close>

definition log_ok :: "db \<Rightarrow> bool" where
  "log_ok d \<longleftrightarrow> sorted_wrt (<) (map pe_cursor (events d))"

definition event_page :: "uuid \<Rightarrow> db \<Rightarrow> int \<Rightarrow> nat \<Rightarrow> pair_event list" where
  "event_page p d c n = take n (events_after p c d)"

lemma sorted_wrt_filter_map:
  "sorted_wrt (<) (map f xs) \<Longrightarrow> sorted_wrt (<) (map f (filter P xs))" for f :: "'a \<Rightarrow> int"
  by (induction xs) auto

lemma events_after_filter:
  assumes "log_ok d"
  shows "events_after p c d = filter (\<lambda>ev. pe_pair ev = p \<and> c < pe_cursor ev) (events d)"
proof -
  let ?l = "filter (\<lambda>ev. pe_pair ev = p \<and> c < pe_cursor ev) (events d)"
  have "sorted_wrt (<) (map pe_cursor ?l)"
    using assms by (simp add: log_ok_def sorted_wrt_filter_map)
  then have "sorted (map pe_cursor ?l)" by (rule strict_sorted_imp_sorted)
  then show ?thesis by (simp add: events_after_def sort_key_id_if_sorted)
qed

interpretation pair_log: cursor_log "event_page p" pe_cursor "\<lambda>d c. events_after p c d" log_ok
  for p
proof
  fix d c n e
  assume ok: "log_ok d"
  show "event_page p d c n = take n (events_after p c d)" by (simp add: event_page_def)
  show "sorted_wrt (<) (map pe_cursor (events_after p c d))"
    using ok by (simp add: events_after_filter log_ok_def sorted_wrt_filter_map)
  assume "e \<in> set (events_after p c d)"
  then have "c < pe_cursor e" using ok by (simp add: events_after_filter)
  then show "events_after p (pe_cursor e) d
      = filter (\<lambda>x. pe_cursor e < pe_cursor x) (events_after p c d)"
    using ok by (auto simp: events_after_filter intro: filter_cong)
qed

end
