(* ===== verification/Idempotency.thy ===== *)
theory Idempotency
  imports EventLog
begin

text \<open>
  Idempotent commands. \<open>getIdempotency\<close> and \<open>saveIdempotency\<close> of
  \<open>internal/store/collaboration.go\<close> keep the response of a command under the client's key;
  every writing command of the store (start, import, transition, note, cheer) has the same
  frame around its own statements, \<open>idempotent_tx\<close>: look the key up first, return the stored
  response when it is there, else run, store the response and commit.

  The locale \<open>idempotent_command\<close> is the contract of that frame. What it assumes of a
  command's body (it leaves the key table alone, and the stored value decodes to the response)
  is discharged by an interpretation for each command; what it proves (a failure changes
  nothing, a key is applied at most once, a retry returns the first response) then holds for
  each.
\<close>

definition get_idempotency ::
  "uuid \<Rightarrow> uuid \<Rightarrow> string \<Rightarrow> (stored_response \<Rightarrow> 'r option) \<Rightarrow> (db, 'r option) tx" where
  "get_idempotency account_id key operation decode =
     bind_tx (select (\<lambda>e d. List.find (\<lambda>r. ik_account r = account_id \<and> ik_key r = key \<and>
         e_clock e < ik_expires_at r) (idempotency d))) (\<lambda>row.
     case row of
       None \<Rightarrow> ret None
     | Some r \<Rightarrow>
         if ik_operation r \<noteq> operation then raise (Sentinel ErrConflict)
         else (case decode (ik_response r) of
             None \<Rightarrow> raise (Wrapped ''decode idempotent response'' (Plain ''json''))
           | Some v \<Rightarrow> ret (Some v)))"

definition save_idempotency ::
  "uuid \<Rightarrow> uuid \<Rightarrow> string \<Rightarrow> stored_response \<Rightarrow> (db, unit) tx" where
  "save_idempotency account_id key operation response =
     exec (\<lambda>e d. insert_idempotency
       \<lparr>ik_account = account_id, ik_key = key, ik_operation = operation,
        ik_response = response, ik_expires_at = e_clock e + 7 * 24 * hour\<rparr> d)"

text \<open>The frame of a command; the second component tells whether the answer is a replay.\<close>

definition idempotent_body ::
  "uuid \<Rightarrow> uuid \<Rightarrow> string \<Rightarrow> (stored_response \<Rightarrow> 'r option) \<Rightarrow> ('r \<Rightarrow> stored_response) \<Rightarrow>
   (db, 'r) tx \<Rightarrow> (db, ('r \<times> bool) outcome) tx" where
  "idempotent_body account_id key operation decode encode body =
     bind_tx (get_idempotency account_id key operation decode) (\<lambda>cached.
     case cached of
       Some r \<Rightarrow> abandon (r, True)
     | None \<Rightarrow>
         bind_tx body (\<lambda>r.
         bind_tx (save_idempotency account_id key operation (encode r)) (\<lambda>_.
         commit (r, False))))"

definition idempotent_tx ::
  "uuid \<Rightarrow> uuid \<Rightarrow> string \<Rightarrow> (stored_response \<Rightarrow> 'r option) \<Rightarrow> ('r \<Rightarrow> stored_response) \<Rightarrow>
   (db, 'r) tx \<Rightarrow> (db, 'r \<times> bool) tx" where
  "idempotent_tx account_id key operation decode encode body =
     transaction (idempotent_body account_id key operation decode encode body)"

fun session_of :: "stored_response \<Rightarrow> focus_session option" where
  "session_of (RSession s) = Some s"
| "session_of r = None"

fun note_of :: "stored_response \<Rightarrow> session_note option" where
  "note_of (RNote n) = Some n"
| "note_of r = None"

fun cheer_of :: "stored_response \<Rightarrow> cheer_response option" where
  "cheer_of (RCheer c) = Some c"
| "cheer_of r = None"

lemma advances_get_idempotency [adv_intros]: "advances (get_idempotency a k op f)"
  unfolding get_idempotency_def by (intro adv_intros)

lemma advances_save_idempotency [adv_intros]: "advances (save_idempotency a k op r)"
  unfolding save_idempotency_def by (intro adv_intros)

lemma preserves_get_idempotency [inv_intros]:
  "stable I \<Longrightarrow> preserves I (get_idempotency a k op f)"
  unfolding get_idempotency_def by (intro inv_intros)

definition key_used :: "uuid \<Rightarrow> uuid \<Rightarrow> db \<Rightarrow> bool" where
  "key_used a k d \<longleftrightarrow> (a, k) \<in> idempotency_id ` set (idempotency d)"

definition keys_unique :: "db \<Rightarrow> bool" where
  "keys_unique d \<longleftrightarrow> distinct (map idempotency_id (idempotency d))"

lemma get_idempotency_hit:
  assumes "w_fault w (w_step w) = None" and "keys_unique d"
    and "r \<in> set (idempotency d)" and "ik_account r = a" and "ik_key r = k"
    and "w_clock w (w_step w) < ik_expires_at r"
    and "ik_operation r = op" and "f (ik_response r) = Some v"
  shows "get_idempotency a k op f w d = (Inr (Some v), tick w, d)"
proof -
  have "List.find (\<lambda>r. ik_account r = a \<and> ik_key r = k \<and> w_clock w (w_step w) < ik_expires_at r)
      (idempotency d) = Some r"
  proof (rule find_unique [OF assms(3)])
    show "ik_account r = a \<and> ik_key r = k \<and> w_clock w (w_step w) < ik_expires_at r"
      using assms(4-6) by blast
  next
    fix s
    assume "s \<in> set (idempotency d)"
      and "ik_account s = a \<and> ik_key s = k \<and> w_clock w (w_step w) < ik_expires_at s"
    then show "s = r"
      using assms(3-5) distinct_key_eq [OF assms(2) [unfolded keys_unique_def], of s r]
      by (simp add: idempotency_id_def)
  qed
  with assms(1,7,8) show ?thesis
    by (simp add: get_idempotency_def bind_tx_def select_def sql_def env_of_def ret_def)
qed

section \<open>The contract of an idempotent command\<close>

locale idempotent_command =
  fixes account_id :: uuid and key :: uuid and operation :: string
    and decode :: "stored_response \<Rightarrow> 'r option" and encode :: "'r \<Rightarrow> stored_response"
    and body :: "(db, 'r) tx"
  assumes decode_encode: "decode (encode r) = Some r"
    and body_advances: "advances body"
    and body_frame: "preserves (\<lambda>_ d. idempotency d = t) body"
begin

abbreviation command :: "(db, 'r \<times> bool) tx" where
  "command \<equiv> idempotent_tx account_id key operation decode encode body"

lemma error_unchanged: "command w d = (Inl e, w', d') \<Longrightarrow> d' = d"
  unfolding idempotent_tx_def by (rule transaction_error_unchanged)

lemma command_advances: "advances command"
  unfolding idempotent_tx_def idempotent_body_def by (intro adv_intros body_advances)

lemma body_command_advances:
  "advances (idempotent_body account_id key operation decode encode body)"
  unfolding idempotent_body_def by (intro adv_intros body_advances)

abbreviation recorded :: "'r \<Rightarrow> time \<Rightarrow> idempotency_row" where
  "recorded r t \<equiv> \<lparr>ik_account = account_id, ik_key = key, ik_operation = operation,
     ik_response = encode r, ik_expires_at = t + 7 * 24 * hour\<rparr>"

text \<open>
  How the frame can return: after the body, having stored its response under an unused key,
  or with a replay, having run nothing.
\<close>

lemma save_records:
  "triple (\<lambda>_ x. idempotency x = t) (save_idempotency account_id key operation (encode r))
     (\<lambda>_ _ x. \<exists>c. idempotency x = t @ [recorded r c]
        \<and> (account_id, key) \<notin> idempotency_id ` set t)"
  unfolding save_idempotency_def
  by (rule triple_exec) (auto simp: insert_idempotency_def idempotency_id_def)

lemma frame_returns:
  "triple (\<lambda>_ x. idempotency x = t)
     (idempotent_body account_id key operation decode encode body)
     (\<lambda>out _ x. case out of
         Commit (r, b) \<Rightarrow> \<not> b \<and> (\<exists>c. idempotency x = t @ [recorded r c])
           \<and> (account_id, key) \<notin> idempotency_id ` set t
       | Abandon (r, b) \<Rightarrow> b)"
  unfolding idempotent_body_def commit_def abandon_def
proof (rule triple_bind [OF preserves_triple [OF preserves_get_idempotency]])
  show "stable (\<lambda>_ x. idempotency x = t)" by (rule stable_db)
next
  fix cached :: "'r option"
  show "triple (\<lambda>_ x. idempotency x = t)
     (case cached of Some r \<Rightarrow> ret (Abandon (r, True))
      | None \<Rightarrow> bind_tx body (\<lambda>r.
          bind_tx (save_idempotency account_id key operation (encode r)) (\<lambda>_.
          ret (Commit (r, False)))))
     (\<lambda>out _ x. case out of
         Commit (r, b) \<Rightarrow> \<not> b \<and> (\<exists>c. idempotency x = t @ [recorded r c])
           \<and> (account_id, key) \<notin> idempotency_id ` set t
       | Abandon (r, b) \<Rightarrow> b)"
    by (rule triple_option)
       (auto intro!: triple_ret triple_bind [OF preserves_triple [OF body_frame]]
          triple_bind [OF save_records])
qed

lemma command_returns:
  assumes "command w d = (Inr (r, b), w', d')"
  shows "if b then d' = d
         else (\<exists>c. idempotency d' = idempotency d @ [recorded r c]) \<and> \<not> key_used account_id key d"
  using assms unfolding idempotent_tx_def
proof (cases rule: transaction_InrD)
  case (committed w2)
  from tripleD [OF frame_returns _ committed(1), of "idempotency d"] show ?thesis
    by (simp add: key_used_def)
next
  case (abandoned d2)
  from tripleD [OF frame_returns _ abandoned(1), of "idempotency d"] abandoned(2) show ?thesis
    by simp
qed

text \<open>A committed run of the body stored its response under the key.\<close>

lemma run_recorded:
  "command w d = (Inr (r, False), w', d') \<Longrightarrow>
   (\<exists>c. idempotency d' = idempotency d @ [recorded r c]) \<and> \<not> key_used account_id key d"
  using command_returns [of w d r False w' d'] by simp

text \<open>At most once: with the key in the table, expired or not, the command changes nothing.\<close>

lemma used_unchanged:
  assumes "key_used account_id key d" and "command w d = (r, w', d')"
  shows "d' = d"
proof (cases r)
  case (Inl e)
  with assms(2) show ?thesis by (auto dest: error_unchanged)
next
  case (Inr v)
  with assms command_returns [of w d "fst v" "snd v" w' d'] show ?thesis
    by (auto split: if_splits)
qed

text \<open>
  A retry while the key is live returns the stored response and changes nothing, whatever the
  body of the retry would have done.
\<close>

lemma retry_returns:
  assumes "\<And>n. w_step w \<le> n \<Longrightarrow> w_fault w n = None" and "keys_unique d"
    and "r \<in> set (idempotency d)" and "ik_account r = account_id" and "ik_key r = key"
    and "\<And>n. w_step w \<le> n \<Longrightarrow> w_clock w n < ik_expires_at r"
    and "ik_operation r = operation" and "ik_response r = encode v"
  shows "idempotent_tx account_id key operation decode encode body' w d
    = (Inr (v, True), tick (tick w), d)"
proof -
  have "get_idempotency account_id key operation decode (tick w) d
      = (Inr (Some v), tick (tick w), d)"
    by (rule get_idempotency_hit [where r = r])
       (use assms decode_encode in \<open>simp_all add: tick_def\<close>)
  then show ?thesis using assms(1) [of "w_step w"]
    by (simp add: idempotent_tx_def idempotent_body_def transaction_def bind_tx_def
        abandon_def ret_def select_def sql_def)
qed

text \<open>
  A run that was not answered from the table ran the body and then stored its response, which
  expires seven days after a clock reading of the run.
\<close>

lemma run_body:
  assumes "command w d = (Inr (r, False), w', d')"
  obtains w1 w2 d1 n where "advance w w1" and "body w1 d = (Inr r, w2, d1)" and "advance w2 w'"
    and "w_step w \<le> n" and "d' = d1\<lparr>idempotency := idempotency d1 @ [recorded r (w_clock w n)]\<rparr>"
    and "idempotency d1 = idempotency d"
  using assms unfolding idempotent_tx_def
proof (cases rule: transaction_InrD)
  case (committed w2)
  then obtain w3 v w4 d4 where g: "get_idempotency account_id key operation decode (tick w) d = (Inr None, w3, d)"
    and b: "body w3 d = (Inr v, w4, d4)"
    and sv: "save_idempotency account_id key operation (encode v) w4 d4 = (Inr (), w2, d')" and "v = r"
    unfolding idempotent_body_def get_idempotency_def
    by (auto simp: tx_simps split: option.splits if_splits)
  have "advance (tick w) w3" using g advances_get_idempotency by (blast dest: advancesD)
  moreover have "advance w3 w4" using b body_advances by (blast dest: advancesD)
  ultimately have adv: "advance w w3" "advance w w4" by (meson advance_tick advance_trans)+
  have keys: "idempotency d4 = idempotency d"
    using preservesD [OF body_frame [of "idempotency d"] _ b] by simp
  have "w2 = tick w4" "d' = d4\<lparr>idempotency := idempotency d4 @ [recorded v (w_clock w4 (w_step w4))]\<rparr>"
    using sv by (auto simp: save_idempotency_def tx_simps env_of_def insert_idempotency_def)
  then have "advance w4 w'" "d' = d4\<lparr>idempotency := idempotency d4 @ [recorded r (w_clock w (w_step w4))]\<rparr>"
    using committed(2) \<open>v = r\<close> adv(2) by (simp_all only: advance_def) (simp add: tick_def)
  moreover have "w_step w \<le> w_step w4" using adv(2) by (simp only: advance_def)
  ultimately show thesis using that adv(1) b keys unfolding \<open>v = r\<close> by blast
next
  case (abandoned d2)
  then show thesis using tripleD [OF frame_returns _ abandoned(1), of "idempotency d"] by simp
qed

lemma run_recorded_time:
  assumes "command w d = (Inr (r, False), w', d')"
  obtains n where "w_step w \<le> n" and "idempotency d' = idempotency d @ [recorded r (w_clock w n)]"
    and "\<not> key_used account_id key d"
  using assms
proof (rule run_body)
  fix n d1
  assume "w_step w \<le> n" and "d' = d1\<lparr>idempotency := idempotency d1 @ [recorded r (w_clock w n)]\<rparr>"
    and "idempotency d1 = idempotency d"
  then show thesis using that run_recorded [OF assms] by simp
qed

text \<open>A command under an unused key is not answered from the table.\<close>

lemma fresh_not_replayed:
  assumes "command w d = (Inr (r, b), w', d')" and "\<not> key_used account_id key d"
  shows "\<not> b"
  using assms(1) unfolding idempotent_tx_def
proof (cases rule: transaction_InrD)
  case (committed w2)
  then show ?thesis using tripleD [OF frame_returns _ committed(1), of "idempotency d"] by simp
next
  case (abandoned d2)
  then show ?thesis using assms(2)
    unfolding idempotent_body_def get_idempotency_def
    by (auto simp: tx_simps key_used_def idempotency_id_def dest!: find_Some_in
        split: option.splits if_splits)
qed

text \<open>
  The same request again, at any later moment before the key expires: the same answer, and
  nothing done.
\<close>

lemma retry_later:
  assumes first: "command w d = (Inr (r, b), w1, d1)" and fresh: "\<not> key_used account_id key d"
    and later: "set (idempotency d1) \<subseteq> set (idempotency d2)" and keys: "keys_unique d2"
    and clock: "mono (w_clock w)" "w_clock w2 = w_clock w"
    and ok: "\<And>n. w_step w2 \<le> n \<Longrightarrow> w_fault w2 n = None"
    and live: "\<And>n. w_step w2 \<le> n \<Longrightarrow> w_clock w n < w_clock w (w_step w) + 7 * 24 * hour"
  shows "idempotent_tx account_id key operation decode encode body' w2 d2
    = (Inr (r, True), tick (tick w2), d2)"
proof -
  have "command w d = (Inr (r, False), w1, d1)"
    using first fresh_not_replayed [OF first fresh] by simp
  then obtain n where n: "w_step w \<le> n"
      "idempotency d1 = idempotency d @ [recorded r (w_clock w n)]"
    by (rule run_recorded_time)
  have "w_clock w (w_step w) \<le> w_clock w n" using clock(1) n(1) by (rule monoD)
  then have "w_clock w2 k < ik_expires_at (recorded r (w_clock w n))" if "w_step w2 \<le> k" for k
    using live [OF that] clock(2) by simp
  then show ?thesis
    using later n(2) by (intro retry_returns [OF ok keys, of "recorded r (w_clock w n)"]) auto
qed

end

end
