(* ===== verification/SessionStore.thy ===== *)
theory SessionStore
  imports Idempotency
begin

text \<open>
  The parts of \<open>internal/store/collaboration.go\<close> that every session command shares:
  \<open>readSession\<close>, \<open>requirePairMember\<close>, \<open>enqueuePartnerNotification\<close>, \<open>completeElapsedSession\<close>,
  and the reads \<open>CurrentSession\<close> and \<open>SessionHistory\<close>.
\<close>

section \<open>Reading a session\<close>

definition participants_of :: "uuid \<Rightarrow> db \<Rightarrow> participant list" where
  "participants_of i d =
     [\<lparr>pt_account = sm_account m, pt_display_name = ac_display_name a,
       pt_joined_at = sm_joined_at m\<rparr>.
       m \<leftarrow> sort_key sm_joined_at (filter (\<lambda>m. sm_session m = i) (session_members d)),
       a \<leftarrow> filter (\<lambda>a. ac_id a = sm_account m) (accounts d)]"

definition notes_of :: "uuid \<Rightarrow> db \<Rightarrow> session_note list" where
  "notes_of i d =
     [\<lparr>sn_id = nt_id n, sn_account = nt_account n, sn_display_name = ac_display_name a,
       sn_body = nt_body n, sn_created_at = nt_created_at n\<rparr>.
       n \<leftarrow> sort_key nt_created_at (filter (\<lambda>n. nt_session n = i) (session_notes d)),
       a \<leftarrow> filter (\<lambda>a. ac_id a = nt_account n) (accounts d)]"

definition session_of_row ::
  "session_row \<Rightarrow> participant list \<Rightarrow> session_note list \<Rightarrow> focus_session" where
  "session_of_row r ps ns =
     \<lparr>ses_id = fs_id r, ses_pair = fs_pair r, ses_started_by = fs_started_by r,
      ses_state = fs_state r, ses_pause_origin = fs_pause_origin r,
      ses_duration_seconds = fs_duration_seconds r, ses_started_at = fs_started_at r,
      ses_ends_at = fs_ends_at r, ses_paused_at = fs_paused_at r,
      ses_completed_at = fs_completed_at r, ses_cancelled_at = fs_cancelled_at r,
      ses_version = fs_version r, ses_offline_origin = fs_offline_origin r,
      ses_participants = ps, ses_notes = ns\<rparr>"

definition session_row_of :: "uuid \<Rightarrow> db \<Rightarrow> session_row option" where
  "session_row_of i d = List.find (\<lambda>s. fs_id s = i) (sessions d)"

definition read_session :: "uuid \<Rightarrow> (db, focus_session) tx" where
  "read_session i =
     bind_tx (select (\<lambda>_ d. session_row_of i d)) (\<lambda>found.
     case found of
       None \<Rightarrow> raise (Sentinel ErrNotFound)
     | Some row \<Rightarrow>
     bind_tx (select (\<lambda>_ d. participants_of i d)) (\<lambda>participants.
     bind_tx (select (\<lambda>_ d. notes_of i d)) (\<lambda>session_notes.
     ret (session_of_row row participants session_notes))))"

definition read_session_for_update :: "uuid \<Rightarrow> uuid \<Rightarrow> (db, focus_session) tx" where
  "read_session_for_update i pair_id =
     bind_tx (select (\<lambda>_ d. List.find (\<lambda>s. fs_id s = i \<and> fs_pair s = pair_id) (sessions d)))
     (\<lambda>found.
     case found of
       None \<Rightarrow> raise (Sentinel ErrNotFound)
     | Some row \<Rightarrow> read_session (fs_id row))"

definition pair_member :: "uuid \<Rightarrow> uuid \<Rightarrow> db \<Rightarrow> bool" where
  "pair_member p a d \<longleftrightarrow>
     list_ex (\<lambda>m. pm_pair m = p \<and> pm_account m = a \<and>
       list_ex (\<lambda>r. pr_id r = pm_pair m \<and> pr_dissolved_at r = None) (pairs d)) (members d)"

definition require_pair_member :: "uuid \<Rightarrow> uuid \<Rightarrow> (db, unit) tx" where
  "require_pair_member pair_id account_id =
     bind_tx (select (\<lambda>_ d. pair_member pair_id account_id d)) (\<lambda>exists.
     if \<not> exists then raise (Sentinel ErrNotFound) else ret ())"

section \<open>Notifying the partner\<close>

definition notification_rows ::
  "sql_env \<Rightarrow> db \<Rightarrow> uuid \<Rightarrow> uuid \<Rightarrow> int \<Rightarrow> string \<Rightarrow> push_payload \<Rightarrow> job_row list" where
  "notification_rows e d pair_id actor_id cursor kind payload =
     map (\<lambda>(i, a, dev).
       \<lparr>jb_id = e_uuid e i, jb_pair = pair_id, jb_recipient = a, jb_device = dev,
        jb_cursor = cursor, jb_kind = kind, jb_payload = payload, jb_attempts = 0,
        jb_available_at = e_clock e, jb_locked_until = None, jb_sent_at = None,
        jb_failed_at = None, jb_last_error = None, jb_created_at = e_clock e\<rparr>)
     (List.enumerate 0
       [(pm_account m, pd_id v).
         m \<leftarrow> filter (\<lambda>m. pm_pair m = pair_id \<and> pm_account m \<noteq> actor_id) (members d),
         v \<leftarrow> filter (\<lambda>v. pd_account v = pm_account m \<and> pd_revoked_at v = None)
           (push_devices d)])"

definition enqueue_partner_notification ::
  "uuid \<Rightarrow> uuid \<Rightarrow> int \<Rightarrow> string \<Rightarrow> push_payload \<Rightarrow> (db, unit) tx" where
  "enqueue_partner_notification pair_id actor_id cursor kind payload =
     exec (\<lambda>e d. insert_jobs
       (notification_rows e d pair_id actor_id cursor kind payload) d)"

section \<open>Ending what has run out\<close>

text \<open>
  A paused session expires 24 hours after its pause began; an open or shared session whose
  end has passed is completed as of that end. Both are found by the database clock.
\<close>

definition stale_pauses :: "uuid \<Rightarrow> time \<Rightarrow> db \<Rightarrow> uuid list" where
  "stale_pauses pair_id clock d =
     map fs_id (filter (\<lambda>s. fs_pair s = pair_id \<and> fs_state s = SessionPaused \<and>
       (case fs_paused_at s of None \<Rightarrow> False | Some t \<Rightarrow> t \<le> clock - 24 * hour)) (sessions d))"

definition elapsed_sessions :: "uuid \<Rightarrow> time \<Rightarrow> db \<Rightarrow> (uuid \<times> time) list" where
  "elapsed_sessions pair_id clock d =
     map (\<lambda>s. (fs_id s, fs_ends_at s))
       (filter (\<lambda>s. fs_pair s = pair_id \<and> fs_state s \<in> {SessionOpen, SessionTogether} \<and>
         fs_ends_at s \<le> clock) (sessions d))"

definition expire_row :: "time \<Rightarrow> session_row \<Rightarrow> session_row" where
  "expire_row clock r = r\<lparr>fs_state := SessionExpired, fs_pause_origin := None,
     fs_paused_at := None, fs_version := fs_version r + 1, fs_updated_at := clock\<rparr>"

definition elapse_row :: "time \<Rightarrow> time \<Rightarrow> session_row \<Rightarrow> session_row" where
  "elapse_row ends_at clock r = r\<lparr>fs_state := SessionCompleted,
     fs_completed_at := Some (micros ends_at), fs_version := fs_version r + 1,
     fs_updated_at := clock\<rparr>"

definition expire_session :: "uuid \<Rightarrow> uuid \<Rightarrow> (db, unit) tx" where
  "expire_session pair_id i =
     bind_tx (exec (\<lambda>e. update_sessions (\<lambda>s. fs_id s = i) (expire_row (e_clock e)))) (\<lambda>_.
     bind_tx (read_session i) (\<lambda>s.
     bind_tx (append_pair_event pair_id ''session.expired'' (Some i) None (PSession s)) (\<lambda>_.
     ret ())))"

definition elapse_session :: "uuid \<Rightarrow> uuid \<times> time \<Rightarrow> (db, unit) tx" where
  "elapse_session pair_id item =
     bind_tx (exec (\<lambda>e. update_sessions (\<lambda>s. fs_id s = fst item)
         (elapse_row (snd item) (e_clock e)))) (\<lambda>_.
     bind_tx (read_session (fst item)) (\<lambda>s.
     bind_tx (append_pair_event pair_id ''session.completed'' (Some (fst item)) None (PSession s))
       (\<lambda>_.
     ret ())))"

definition complete_elapsed_session :: "uuid \<Rightarrow> (db, unit) tx" where
  "complete_elapsed_session pair_id =
     bind_tx (select (\<lambda>e. stale_pauses pair_id (e_clock e))) (\<lambda>stale_ids.
     bind_tx (for_each stale_ids (expire_session pair_id)) (\<lambda>_.
     bind_tx (select (\<lambda>e. elapsed_sessions pair_id (e_clock e))) (\<lambda>items.
     for_each items (elapse_session pair_id))))"

section \<open>Reads\<close>

definition active_ids :: "uuid \<Rightarrow> db \<Rightarrow> uuid list" where
  "active_ids pair_id d =
     map fs_id (rev (sort_key fs_started_at
       (filter (\<lambda>s. fs_pair s = pair_id \<and> active s) (sessions d))))"

definition current_body :: "uuid \<Rightarrow> (db, focus_session option outcome) tx" where
  "current_body pair_id =
     bind_tx (complete_elapsed_session pair_id) (\<lambda>_.
     bind_tx (select (\<lambda>_ d. active_ids pair_id d)) (\<lambda>found.
     case found of
       [] \<Rightarrow> commit None
     | i # _ \<Rightarrow> bind_tx (read_session i) (\<lambda>s. commit (Some s))))"

definition current_session :: "auth_identity \<Rightarrow> (db, focus_session option) tx" where
  "current_session idn = (case id_pair idn of
       None \<Rightarrow> ret None
     | Some pair_id \<Rightarrow> transaction (current_body pair_id))"

text \<open>\<open>ORDER BY completed_at DESC, id DESC\<close>.\<close>

definition completion_time :: "session_row \<Rightarrow> time" where
  "completion_time s = (case fs_completed_at s of None \<Rightarrow> 0 | Some t \<Rightarrow> t)"

definition history_ids :: "uuid \<Rightarrow> time \<Rightarrow> nat \<Rightarrow> db \<Rightarrow> uuid list" where
  "history_ids pair_id cutoff limit d =
     take limit (map fs_id (rev (sort_key completion_time (sort_key fs_id
       (filter (\<lambda>s. fs_pair s = pair_id \<and> fs_state s = SessionCompleted \<and>
         (case fs_completed_at s of None \<Rightarrow> False | Some t \<Rightarrow> t < cutoff)) (sessions d))))))"

definition session_history ::
  "auth_identity \<Rightarrow> time option \<Rightarrow> int \<Rightarrow> (db, focus_session list) tx" where
  "session_history idn before limit = (case id_pair idn of
       None \<Rightarrow> ret []
     | Some pair_id \<Rightarrow>
         bind_tx go_now (\<lambda>now.
         bind_tx (select (\<lambda>_ d. history_ids pair_id
             (micros (case before of None \<Rightarrow> now + minute | Some t \<Rightarrow> t))
             (if limit < 1 \<or> 100 < limit then 50 else nat limit) d)) (\<lambda>ids.
         map_each ids read_session)))"

end
