(* ===== verification/Pairing.thy ===== *)
theory Pairing
  imports EventLog
begin

text \<open>
  Pairing two accounts, from \<open>internal/store/collaboration.go\<close>: \<open>CreatePairInvite\<close>,
  \<open>AcceptPairInvite\<close> and \<open>Pair\<close>.
\<close>

section \<open>Operations\<close>

definition live_invite :: "invite_row \<Rightarrow> bool" where
  "live_invite v \<longleftrightarrow> iv_accepted_at v = None \<and> iv_revoked_at v = None"

definition invite_body ::
  "uuid \<Rightarrow> uuid \<Rightarrow> bytes \<Rightarrow> time \<Rightarrow> (db, unit outcome) tx" where
  "invite_body account_id invite_id token_hash expires_at =
     bind_tx (select (\<lambda>_ d. list_ex (\<lambda>m. pm_account m = account_id) (members d))) (\<lambda>paired.
     if paired then raise (Sentinel ErrAlreadyPaired)
     else
     bind_tx (exec (\<lambda>e d. Inr (d\<lparr>invites :=
         update_where (\<lambda>v. iv_created_by v = account_id \<and> live_invite v)
           (\<lambda>v. v\<lparr>iv_revoked_at := Some (e_clock e)\<rparr>) (invites d)\<rparr>))) (\<lambda>_.
     bind_tx (exec (\<lambda>_ d. insert_invite
         \<lparr>iv_id = invite_id, iv_created_by = account_id, iv_token_hash = token_hash,
          iv_expires_at = micros expires_at, iv_accepted_by = None, iv_accepted_at = None,
          iv_revoked_at = None\<rparr> d)) (\<lambda>_.
     commit ())))"

definition create_pair_invite ::
  "uuid \<Rightarrow> uuid \<Rightarrow> bytes \<Rightarrow> time \<Rightarrow> (db, unit) tx" where
  "create_pair_invite account_id invite_id token_hash expires_at =
     transaction (invite_body account_id invite_id token_hash expires_at)"

definition accept_body :: "uuid \<Rightarrow> bytes \<Rightarrow> (db, pair_summary outcome) tx" where
  "accept_body account_id token_hash =
     bind_tx (select (\<lambda>e d. List.find (\<lambda>v. iv_token_hash v = token_hash \<and>
         e_clock e < iv_expires_at v \<and> live_invite v) (invites d))) (\<lambda>found.
     case found of
       None \<Rightarrow> raise (Sentinel ErrNotFound)
     | Some invite \<Rightarrow>
     if iv_created_by invite = account_id then raise (Sentinel ErrConflict)
     else
     bind_tx (select (\<lambda>_ d. count_where
         (\<lambda>m. pm_account m \<in> {iv_created_by invite, account_id}) (members d))) (\<lambda>membership_count.
     if 0 < membership_count then raise (Sentinel ErrAlreadyPaired)
     else
     bind_tx new_uuid (\<lambda>pair_id.
     bind_tx (on_error (Sentinel ErrNotFound) (select (\<lambda>_ d. List.find
         (\<lambda>a. ac_id a = iv_created_by invite \<and> ac_status a = AccountActive) (accounts d)))) (\<lambda>creator.
     case creator of
       None \<Rightarrow> raise (Sentinel ErrNotFound)
     | Some creator_row \<Rightarrow>
     bind_tx (sql (\<lambda>e d. case insert_pair
           \<lparr>pr_id = pair_id, pr_created_at = e_clock e, pr_dissolved_at = None\<rparr> d of
         Inl err \<Rightarrow> Inl err
       | Inr d' \<Rightarrow> Inr (e_clock e, d'))) (\<lambda>created_at.
     bind_tx (exec (\<lambda>e d. insert_members
         [\<lparr>pm_pair = pair_id, pm_account = iv_created_by invite, pm_joined_at = e_clock e\<rparr>,
          \<lparr>pm_pair = pair_id, pm_account = account_id, pm_joined_at = e_clock e\<rparr>] d)) (\<lambda>_.
     bind_tx (exec (\<lambda>e d. require (account_exists d account_id) ''23503''
         (Inr (d\<lparr>invites := update_where (\<lambda>v. iv_id v = iv_id invite)
           (\<lambda>v. v\<lparr>iv_accepted_by := Some account_id, iv_accepted_at := Some (e_clock e)\<rparr>)
           (invites d)\<rparr>)))) (\<lambda>_.
     bind_tx (append_pair_event pair_id ''pair.created'' (Some pair_id) (Some account_id)
         (PPairCreated pair_id [iv_created_by invite, account_id])) (\<lambda>_.
     commit \<lparr>ps_id = pair_id, ps_partner = iv_created_by invite,
         ps_partner_name = ac_display_name creator_row, ps_created_at = created_at\<rparr>))))))))"

definition accept_pair_invite :: "uuid \<Rightarrow> bytes \<Rightarrow> (db, pair_summary) tx" where
  "accept_pair_invite account_id token_hash = transaction (accept_body account_id token_hash)"

definition pair_join :: "uuid \<Rightarrow> db \<Rightarrow> pair_summary list" where
  "pair_join account_id d =
     [\<lparr>ps_id = pr_id p, ps_partner = pm_account other, ps_partner_name = ac_display_name a,
       ps_created_at = pr_created_at p\<rparr>.
       mine \<leftarrow> filter (\<lambda>m. pm_account m = account_id) (members d),
       p \<leftarrow> filter (\<lambda>p. pr_id p = pm_pair mine \<and> pr_dissolved_at p = None) (pairs d),
       other \<leftarrow> filter (\<lambda>m. pm_pair m = pm_pair mine \<and> pm_account m \<noteq> pm_account mine)
         (members d),
       a \<leftarrow> filter (\<lambda>a. ac_id a = pm_account other) (accounts d)]"

definition pair :: "uuid \<Rightarrow> (db, pair_summary) tx" where
  "pair account_id =
     bind_tx (select (\<lambda>_ d. pair_join account_id d)) (\<lambda>rows.
     case rows of [] \<Rightarrow> raise (Sentinel ErrNotFound) | r # _ \<Rightarrow> ret r)"

end
