(* ===== verification/PairSpec.thy ===== *)
theory PairSpec
  imports SessionStore Pairing
begin

text \<open>
  The abstract specification of the shared part of the database: what one committed change
  may do. \<open>pair_step\<close> has one rule per kind of change (a session acts, a session begins, a
  note, a cheer, a stored key, queued notifications, an invitation, a new pair), each with the
  condition under which it may happen and the event that goes with it. The store's operations
  refine it (theory \<open>PairRefinement\<close>), and every invariant of the shared state is proved here
  once, on the rules.
\<close>

section \<open>Parts of a change\<close>

definition session_view :: "db \<Rightarrow> session_row \<Rightarrow> focus_session" where
  "session_view d r = session_of_row r (participants_of (fs_id r) d) (notes_of (fs_id r) d)"

definition put_session :: "session_row \<Rightarrow> db \<Rightarrow> db" where
  "put_session r d =
     d\<lparr>sessions := update_where (\<lambda>s. fs_id s = fs_id r) (\<lambda>_. r) (sessions d)\<rparr>"

definition add_event ::
  "uuid \<Rightarrow> string \<Rightarrow> uuid option \<Rightarrow> uuid option \<Rightarrow> event_payload \<Rightarrow> int \<Rightarrow> time \<Rightarrow> db \<Rightarrow> db" where
  "add_event p ty entity actor payload c t d = d\<lparr>
     events := events d @ [\<lparr>pe_cursor = c, pe_pair = p, pe_type = ty, pe_entity = entity,
       pe_actor = actor, pe_payload = payload, pe_created_at = t\<rparr>],
     notified := notified d @ [\<lparr>hint_pair = p, hint_cursor = c\<rparr>]\<rparr>"

definition phase_of :: "session_row \<Rightarrow> phase" where
  "phase_of r = (fs_state r, fs_pause_origin r)"

definition same_room :: "session_row \<Rightarrow> session_row \<Rightarrow> bool" where
  "same_room r r' \<longleftrightarrow> fs_id r' = fs_id r \<and> fs_pair r' = fs_pair r \<and>
     fs_started_by r' = fs_started_by r \<and> fs_duration_seconds r' = fs_duration_seconds r \<and>
     fs_started_at r' = fs_started_at r \<and> fs_offline_origin r' = fs_offline_origin r"

text \<open>
  A session acts: one step of its life cycle at time \<open>t\<close>, one version further, with the
  timestamps of the new state and no others. Only a resume moves the end, by the length of
  the pause.
\<close>

definition row_step :: "session_row \<Rightarrow> session_action \<Rightarrow> time \<Rightarrow> session_row \<Rightarrow> bool" where
  "row_step r a t r' \<longleftrightarrow> same_room r r' \<and> fs_version r' = fs_version r + 1 \<and>
     life_step (phase_of r) a (phase_of r') \<and>
     fs_paused_at r' = (if a = ActionPause then Some t else None) \<and>
     fs_completed_at r' = (if a = ActionComplete then Some t else None) \<and>
     fs_cancelled_at r' = (if a = ActionCancel then Some t else None) \<and>
     fs_ends_at r' = (case fs_paused_at r of
         Some p \<Rightarrow> if a = ActionResume then fs_ends_at r + (t - p) else fs_ends_at r
       | None \<Rightarrow> fs_ends_at r)"

definition row_ok :: "session_row \<Rightarrow> bool" where
  "row_ok r \<longleftrightarrow> phase_ok (phase_of r) \<and> fs_duration_seconds r = 1500 \<and> 0 < fs_version r \<and>
     (fs_paused_at r \<noteq> None \<longleftrightarrow> fs_state r = SessionPaused) \<and>
     (fs_completed_at r \<noteq> None \<longleftrightarrow> fs_state r = SessionCompleted) \<and>
     (fs_cancelled_at r \<noteq> None \<longleftrightarrow> fs_state r = SessionCancelled)"

definition member_key :: "session_member_row \<Rightarrow> uuid \<times> uuid" where
  "member_key m = (sm_session m, sm_account m)"

definition in_session :: "db \<Rightarrow> uuid \<Rightarrow> uuid \<Rightarrow> bool" where
  "in_session d i a \<longleftrightarrow> (i, a) \<in> member_key ` set (session_members d)"

text \<open>A join brings the partner in; no other action changes who is there.\<close>

definition newcomers ::
  "db \<Rightarrow> session_row \<Rightarrow> session_action \<Rightarrow> session_member_row list \<Rightarrow> bool" where
  "newcomers d r a ms \<longleftrightarrow> (if a = ActionJoin
     then \<exists>j tj. ms = [\<lparr>sm_session = fs_id r, sm_account = j, sm_joined_at = tj\<rparr>] \<and>
       j \<noteq> fs_started_by r \<and> pair_member (fs_pair r) j d \<and> account_exists d j \<and>
       \<not> in_session d (fs_id r) j
     else ms = [])"

text \<open>A cursor drawn, and a database clock read, between two moments of the world.\<close>

definition draws :: "world \<Rightarrow> world \<Rightarrow> int \<Rightarrow> bool" where
  "draws w w' c \<longleftrightarrow> advance w w' \<and> w_seq w < c \<and> c \<le> w_seq w'"

definition reads :: "world \<Rightarrow> world \<Rightarrow> time \<Rightarrow> bool" where
  "reads w w' t \<longleftrightarrow> (\<exists>n. w_step w \<le> n \<and> n < w_step w' \<and> t = w_clock w n)"

text \<open>The response stored under a key has the shape its operation decodes.\<close>

fun response_fits :: "string \<Rightarrow> stored_response \<Rightarrow> bool" where
  "response_fits op (RNote n) \<longleftrightarrow> op = ''session.note''"
| "response_fits op (RCheer c) \<longleftrightarrow> op = ''session.cheer''"
| "response_fits op (RSession s) \<longleftrightarrow> op \<noteq> ''session.note'' \<and> op \<noteq> ''session.cheer''"

section \<open>The step relation\<close>

type_synonym moment = "world \<times> db"

inductive pair_step :: "moment \<Rightarrow> moment \<Rightarrow> bool" where
  idle: "advance w w' \<Longrightarrow> pair_step (w, d) (w', d)"
| act: "\<lbrakk>draws w w' c; r \<in> set (sessions d); row_step r a t r'; newcomers d r a ms;
    d1 = put_session r' (d\<lparr>session_members := session_members d @ ms\<rparr>)\<rbrakk> \<Longrightarrow>
    pair_step (w, d) (w', add_event (fs_pair r) ty (Some (fs_id r)) actor
      (PSession (session_view d1 r')) c tc d1)"
| begin_session: "\<lbrakk>draws w w' c; row_ok r; fs_version r = 1;
    fs_state r = SessionOpen \<or> fs_state r = SessionCompleted \<and> fs_offline_origin r;
    \<not> session_exists d (fs_id r); pair_exists d (fs_pair r);
    active r \<longrightarrow> (\<forall>s \<in> set (sessions d). active s \<longrightarrow> fs_pair s \<noteq> fs_pair r);
    pair_member (fs_pair r) (fs_started_by r) d; account_exists d (fs_started_by r);
    d1 = d\<lparr>sessions := sessions d @ [r], session_members := session_members d @
      [\<lparr>sm_session = fs_id r, sm_account = fs_started_by r, sm_joined_at = fs_started_at r\<rparr>]\<rparr>\<rbrakk> \<Longrightarrow>
    pair_step (w, d) (w', add_event (fs_pair r) ty (Some (fs_id r)) actor
      (PSession (session_view d1 r)) c tc d1)"
| leave_note: "\<lbrakk>draws w w' c; reads w w' t; r \<in> set (sessions d); fs_state r \<noteq> SessionCancelled;
    a \<in> set (accounts d); pair_member (fs_pair r) (ac_id a) d; nt_id n \<notin> nt_id ` set (session_notes d);
    nt_session n = fs_id r; nt_account n = ac_id a; nt_created_at n = t;
    1 \<le> char_length (nt_body n); char_length (nt_body n) \<le> 120;
    d1 = d\<lparr>session_notes := session_notes d @ [n]\<rparr>\<rbrakk> \<Longrightarrow>
    pair_step (w, d) (w', add_event (fs_pair r) ''session.note_added'' (Some (fs_id r)) actor
      (PNote \<lparr>sn_id = nt_id n, sn_account = ac_id a, sn_display_name = ac_display_name a,
        sn_body = nt_body n, sn_created_at = t\<rparr>) c tc d1)"
| cheer: "\<lbrakk>draws w w' c; r \<in> set (sessions d); fs_state r \<in> {SessionTogether, SessionPaused};
    rx_session x = fs_id r;
    \<forall>y \<in> set (reactions d). rx_session y = fs_id r \<and> rx_account y = rx_account x \<longrightarrow>
      rx_created_at y + 30 * second \<le> rx_created_at x;
    d1 = d\<lparr>reactions := reactions d @ [x]\<rparr>\<rbrakk> \<Longrightarrow>
    pair_step (w, d) (w', add_event (fs_pair r) ty (Some (fs_id r)) actor (PCheer q) c tc d1)"
| store_key: "\<lbrakk>advance w w'; idempotency_id k \<notin> idempotency_id ` set (idempotency d);
    response_fits (ik_operation k) (ik_response k); account_exists d (ik_account k)\<rbrakk> \<Longrightarrow>
    pair_step (w, d) (w', d\<lparr>idempotency := idempotency d @ [k]\<rparr>)"
| queue: "\<lbrakk>advance w w'; jobs_unique (jobs d @ js); \<forall>j \<in> set js. fresh_job j\<rbrakk> \<Longrightarrow>
    pair_step (w, d) (w', d\<lparr>jobs := jobs d @ js\<rparr>)"
| invite: "\<lbrakk>advance w w'; a \<notin> pm_account ` set (members d); iv_created_by v = a;
    iv_id v \<notin> iv_id ` set (invites d); iv_token_hash v \<notin> iv_token_hash ` set (invites d);
    live_invite v; account_exists d a\<rbrakk> \<Longrightarrow>
    pair_step (w, d) (w', d\<lparr>invites :=
      update_where (\<lambda>v. iv_created_by v = a \<and> live_invite v) (\<lambda>v. v\<lparr>iv_revoked_at := Some t\<rparr>)
        (invites d) @ [v]\<rparr>)"
| make_pair: "\<lbrakk>draws w w' c; v \<in> set (invites d); live_invite v; iv_created_by v \<noteq> a;
    a \<notin> pm_account ` set (members d); iv_created_by v \<notin> pm_account ` set (members d);
    account_exists d a; account_exists d (iv_created_by v);
    \<not> pair_exists d (pr_id p); pr_dissolved_at p = None;
    d1 = d\<lparr>pairs := pairs d @ [p],
      members := members d @ [\<lparr>pm_pair = pr_id p, pm_account = iv_created_by v, pm_joined_at = t1\<rparr>,
        \<lparr>pm_pair = pr_id p, pm_account = a, pm_joined_at = t1\<rparr>],
      invites := update_where (\<lambda>x. iv_id x = iv_id v)
        (\<lambda>x. x\<lparr>iv_accepted_by := Some a, iv_accepted_at := Some t2\<rparr>) (invites d)\<rparr>\<rbrakk> \<Longrightarrow>
    pair_step (w, d) (w', add_event (pr_id p) ty (Some (pr_id p)) (Some a)
      (PPairCreated (pr_id p) [iv_created_by v, a]) c tc d1)"

inductive_cases pair_stepE: "pair_step s t"

end
