(* ===== verification/PairInvariants.thy ===== *)
theory PairInvariants
  imports PairSpec
begin

text \<open>
  The invariants of the shared state, each kept by every rule of \<open>pair_step\<close>: the sessions of
  a pair and their timestamps, the pairs and their members, who is in a session, the log, the
  stored keys and the spacing of cheers.
\<close>

section \<open>Updates and what they leave alone\<close>

named_theorems frame_defs \<open>predicates unfolded to see that an update leaves them alone\<close>

lemmas [frame_defs] = pair_member_def pair_exists_def account_exists_def session_exists_def
  in_session_def put_session_def add_event_def

lemma put_session_ids:
  "map fs_id (update_where (\<lambda>s. fs_id s = fs_id r) (\<lambda>_. r) t) = map fs_id t"
  by (rule map_update_where) simp

lemma put_session_map:
  assumes "distinct (map fs_id t)" and "r \<in> set t" and "fs_id r' = fs_id r"
  shows "update_where (\<lambda>s. fs_id s = fs_id r') (\<lambda>_. r') t = map (\<lambda>s. if s = r then r' else s) t"
proof -
  have "s = r" if "s \<in> set t" "fs_id s = fs_id r" for s
    using assms(1,2) that by (metis distinct_key_eq)
  with assms(3) show ?thesis by (auto simp: update_where_def)
qed

lemma distinct_filter_map:
  assumes "distinct (map k (filter P t))" and "\<And>s. s \<in> set t \<Longrightarrow> P (f s) \<Longrightarrow> P s \<and> k (f s) = k s"
  shows "distinct (map k (filter P (map f t)))"
  using assms
proof (induction t)
  case Nil
  then show ?case by simp
next
  case (Cons s t)
  have "k ` set (filter P (map f t)) \<subseteq> k ` set (filter P t)" using Cons.prems(2) by force
  moreover have "distinct (map k (filter P t))" using Cons.prems(1) by (simp split: if_splits)
  then have "distinct (map k (filter P (map f t)))" using Cons.IH Cons.prems(2) by simp
  moreover have "P (f s) \<Longrightarrow> k (f s) \<notin> k ` set (filter P t)"
    using Cons.prems by (auto split: if_splits)
  ultimately show ?case by auto
qed

lemma row_step_active: "row_step r a t r' \<Longrightarrow> active r"
  by (auto simp: row_step_def active_def active_not_terminal phase_of_def dest: life_step_not_terminal)

lemma row_step_ok: "row_step r a t r' \<Longrightarrow> row_ok r \<Longrightarrow> row_ok r'"
  unfolding row_step_def row_ok_def same_room_def phase_of_def
  by (elim conjE life_stepE) auto

lemma act_sessions_unique:
  assumes "sessions_unique t" and "r \<in> set t" and "row_step r a u r'"
  shows "sessions_unique (update_where (\<lambda>s. fs_id s = fs_id r') (\<lambda>_. r') t)"
proof -
  have d: "distinct (map fs_id t)" and p: "distinct (map fs_pair (filter active t))"
    using assms(1) by (auto simp: sessions_unique_def)
  have same: "fs_id r' = fs_id r" "fs_pair r' = fs_pair r"
    using assms(3) by (auto simp: row_step_def same_room_def)
  have "distinct (map fs_pair (filter active (map (\<lambda>s. if s = r then r' else s) t)))"
    by (rule distinct_filter_map [OF p]) (use same row_step_active [OF assms(3)] in auto)
  then have "distinct (map fs_pair (filter active (update_where (\<lambda>s. fs_id s = fs_id r') (\<lambda>_. r') t)))"
    by (simp only: put_session_map [OF d assms(2) same(1)])
  moreover have "distinct (map fs_id (update_where (\<lambda>s. fs_id s = fs_id r') (\<lambda>_. r') t))"
    using d by (simp only: put_session_ids)
  ultimately show ?thesis by (simp only: sessions_unique_def simp_thms)
qed

section \<open>Sessions\<close>

definition sessions_inv :: "db \<Rightarrow> bool" where
  "sessions_inv d \<longleftrightarrow> sessions_unique (sessions d) \<and>
     (\<forall>r \<in> set (sessions d). row_ok r \<and> pair_exists d (fs_pair r))"

lemma in_put_session:
  "s \<in> set (update_where (\<lambda>s. fs_id s = i) (\<lambda>_. r) t) \<Longrightarrow> s = r \<or> s \<in> set t \<and> fs_id s \<noteq> i"
  by (auto simp: update_where_def)

lemma sessions_inv_step: "pair_step s t \<Longrightarrow> sessions_inv (snd s) \<Longrightarrow> sessions_inv (snd t)"
proof (induction rule: pair_step.induct)
  case (act w w' c r d a u r' ms d1 ty actor tc)
  then have inv: "sessions_unique (sessions d)" "row_ok r" "pair_exists d (fs_pair r)"
    by (auto simp: sessions_inv_def)
  have "row_ok r'" using act(3) inv(2) by (rule row_step_ok)
  moreover have "sessions_unique (sessions d1)"
    using act_sessions_unique [OF inv(1) act(2,3)] act(5) by (simp add: put_session_def)
  moreover have "fs_pair r' = fs_pair r" using act(3) by (simp add: row_step_def same_room_def)
  ultimately show ?case
    using act(5,6) inv(3) by (auto simp: sessions_inv_def frame_defs dest!: in_put_session)
next
  case (begin_session w w' c r d d1 ty actor tc)
  then show ?case
    by (auto simp: sessions_inv_def sessions_unique_def frame_defs)
qed (auto simp: sessions_inv_def frame_defs)

section \<open>Pairs\<close>

definition pairs_inv :: "db \<Rightarrow> bool" where
  "pairs_inv d \<longleftrightarrow> distinct (map pr_id (pairs d)) \<and> distinct (map pm_account (members d)) \<and>
     (\<forall>m \<in> set (members d). pair_exists d (pm_pair m) \<and> account_exists d (pm_account m)) \<and>
     (\<forall>p \<in> set (pairs d). pr_dissolved_at p = None \<and>
        length (filter (\<lambda>m. pm_pair m = pr_id p) (members d)) = 2)"

lemma pair_member_iff:
  "pairs_inv d \<Longrightarrow> pair_member p a d \<longleftrightarrow> (\<exists>m \<in> set (members d). pm_pair m = p \<and> pm_account m = a)"
  by (force simp: pair_member_def list_ex_iff pairs_inv_def pair_exists_def)

lemma pair_has_two:
  assumes "pairs_inv d" and "pair_exists d p"
  shows "card {a. pair_member p a d} = 2"
proof -
  let ?l = "filter (\<lambda>m. pm_pair m = p) (members d)"
  have "{a. pair_member p a d} = set (map pm_account ?l)"
    using pair_member_iff [OF assms(1)] by auto
  moreover have "distinct (map pm_account ?l)"
    using assms(1) by (simp add: pairs_inv_def distinct_map_filter)
  ultimately have "card {a. pair_member p a d} = length ?l"
    by (simp only: distinct_card length_map)
  with assms show ?thesis by (auto simp: pairs_inv_def pair_exists_def)
qed

lemma pairs_inv_step: "pair_step s t \<Longrightarrow> pairs_inv (snd s) \<Longrightarrow> pairs_inv (snd t)"
proof (induction rule: pair_step.induct)
  case (make_pair w w' c v d a p d1 t2 t1 ty tc)
  have none: "pm_pair m \<noteq> pr_id p" if "m \<in> set (members d)" for m
    using make_pair(9) make_pair(12) that by (auto simp: pairs_inv_def)
  then have new: "filter (\<lambda>m. pm_pair m = pr_id p) (members d) = []"
    by (auto simp: filter_empty_conv)
  have old: "pr_id q \<noteq> pr_id p" if "q \<in> set (pairs d)" for q
    using make_pair(9) imageI [OF that, of pr_id] by (auto simp: pair_exists_def)
  show ?case using make_pair new old
    by (auto simp: pairs_inv_def frame_defs)
qed (auto simp: pairs_inv_def frame_defs)

section \<open>Who is in a session\<close>

definition presence_ok :: "db \<Rightarrow> session_row \<Rightarrow> bool" where
  "presence_ok d r \<longleftrightarrow> in_session d (fs_id r) (fs_started_by r) \<and>
     (\<forall>a. in_session d (fs_id r) a \<longrightarrow> pair_member (fs_pair r) a d) \<and>
     (\<not> terminal (fs_state r) \<and> \<not> joined (phase_of r) \<longrightarrow>
        (\<forall>a. in_session d (fs_id r) a \<longrightarrow> a = fs_started_by r)) \<and>
     (joined (phase_of r) \<longrightarrow> (\<exists>a. in_session d (fs_id r) a \<and> a \<noteq> fs_started_by r))"

definition presence_inv :: "db \<Rightarrow> bool" where
  "presence_inv d \<longleftrightarrow> distinct (map member_key (session_members d)) \<and>
     (\<forall>m \<in> set (session_members d). session_exists d (sm_session m) \<and> account_exists d (sm_account m)) \<and>
     (\<forall>r \<in> set (sessions d). presence_ok d r)"

lemma presence_ok_frame:
  assumes "presence_ok d r" and "\<And>a. in_session d' (fs_id r) a = in_session d (fs_id r) a"
    and "\<And>a. pair_member (fs_pair r) a d \<Longrightarrow> pair_member (fs_pair r) a d'"
  shows "presence_ok d' r"
  using assms by (auto simp: presence_ok_def)

lemma pair_member_mono:
  "set (members d) \<subseteq> set (members d') \<Longrightarrow> set (pairs d) \<subseteq> set (pairs d') \<Longrightarrow>
   pair_member p a d \<Longrightarrow> pair_member p a d'"
  unfolding pair_member_def list_ex_iff by blast

lemma presence_inv_frame:
  assumes "presence_inv d" and "session_members d' = session_members d"
    and "sessions d' = sessions d" and "accounts d' = accounts d"
    and "set (members d) \<subseteq> set (members d')" and "set (pairs d) \<subseteq> set (pairs d')"
  shows "presence_inv d'"
  using assms(1) presence_ok_frame [of d _ d'] pair_member_mono [OF assms(5,6)]
  by (simp add: presence_inv_def in_session_def session_exists_def account_exists_def assms(2-4))

lemma life_step_open_join:
  "life_step u a t \<Longrightarrow> \<not> joined u \<Longrightarrow> phase_ok u \<Longrightarrow>
   terminal (fst t) \<or> (if a = ActionJoin then joined t else \<not> joined t)"
  by (induction rule: life_step.induct) auto

lemma act_presence:
  assumes r: "presence_ok d r" and ok: "row_ok r" and st: "row_step r a u r'"
    and ms: "newcomers d r a ms"
    and in': "\<And>x. in_session d' (fs_id r) x \<longleftrightarrow> in_session d (fs_id r) x \<or> x \<in> sm_account ` set ms"
    and mem: "\<And>x. pair_member (fs_pair r) x d' = pair_member (fs_pair r) x d"
  shows "presence_ok d' r'"
proof -
  have same: "fs_id r' = fs_id r" "fs_pair r' = fs_pair r" "fs_started_by r' = fs_started_by r"
    using st by (auto simp: row_step_def same_room_def)
  have life: "life_step (phase_of r) a (phase_of r')" using st by (simp add: row_step_def)
  have nt: "\<not> terminal (fs_state r)" using life_step_not_terminal life by (auto simp: phase_of_def)
  have pok: "phase_ok (phase_of r)" using ok by (simp add: row_ok_def)
  show ?thesis
  proof (cases "a = ActionJoin")
    case True
    with ms obtain j where j: "sm_account ` set ms = {j}"
      "j \<noteq> fs_started_by r" "pair_member (fs_pair r) j d" by (auto simp: newcomers_def)
    from life True have jn: "joined (phase_of r')" by (auto simp: phase_of_def life_step_simps)
    have "in_session d' (fs_id r) x \<longleftrightarrow> in_session d (fs_id r) x \<or> x = j" for x
      using in' [of x] j(1) by simp
    with j r jn show ?thesis unfolding presence_ok_def same mem by blast
  next
    case False
    with ms have "ms = []" by (simp add: newcomers_def)
    with in' have eq: "in_session d' (fs_id r) = in_session d (fs_id r)" by auto
    have 1: "in_session d (fs_id r) (fs_started_by r)"
      "\<forall>x. in_session d (fs_id r) x \<longrightarrow> pair_member (fs_pair r) x d"
      using r by (auto simp: presence_ok_def)
    have 2: "joined (phase_of r') \<longrightarrow> joined (phase_of r)" 
      using life False by (cases a) (auto simp: phase_of_def life_step_simps)
    have 3: "\<not> terminal (fs_state r') \<and> \<not> joined (phase_of r') \<longrightarrow> \<not> joined (phase_of r)"
      using life_step_joined [OF life] by (auto simp: phase_of_def)
    show ?thesis using 1 2 3 r nt unfolding presence_ok_def same mem eq by blast
  qed
qed

lemma put_session_id_set:
  "fs_id ` set (update_where (\<lambda>s. fs_id s = fs_id r) (\<lambda>_. r) t) = fs_id ` set t"
  using arg_cong [OF put_session_ids [of r t], of set] by simp

lemma put_session_tables [simp]:
  "session_exists (put_session r d) i = session_exists d i"
  "accounts (put_session r d) = accounts d" "pairs (put_session r d) = pairs d"
  "members (put_session r d) = members d"
  "session_members (put_session r d) = session_members d"
  "session_notes (put_session r d) = session_notes d"
  "reactions (put_session r d) = reactions d" "events (put_session r d) = events d"
  "idempotency (put_session r d) = idempotency d" "jobs (put_session r d) = jobs d"
  by (simp_all add: put_session_def session_exists_def put_session_id_set)

lemma add_event_tables [simp]:
  "accounts (add_event p ty en ac pl c t d) = accounts d"
  "pairs (add_event p ty en ac pl c t d) = pairs d"
  "members (add_event p ty en ac pl c t d) = members d"
  "sessions (add_event p ty en ac pl c t d) = sessions d"
  "session_members (add_event p ty en ac pl c t d) = session_members d"
  "session_notes (add_event p ty en ac pl c t d) = session_notes d"
  "reactions (add_event p ty en ac pl c t d) = reactions d"
  "idempotency (add_event p ty en ac pl c t d) = idempotency d"
  "jobs (add_event p ty en ac pl c t d) = jobs d"
  "events (add_event p ty en ac pl c t d) = events d @ [\<lparr>pe_cursor = c, pe_pair = p, pe_type = ty,
     pe_entity = en, pe_actor = ac, pe_payload = pl, pe_created_at = t\<rparr>]"
  by (simp_all add: add_event_def)

lemma presence_inv_step: "pair_step s t \<Longrightarrow> presence_inv (snd s) \<and> sessions_inv (snd s) \<Longrightarrow> presence_inv (snd t)"
proof (induction rule: pair_step.induct)
  case (act w w' c r d a u r' ms d1 ty actor tc)
  let ?d = "add_event (fs_pair r) ty (Some (fs_id r)) actor (PSession (session_view d1 r')) c tc d1"
  have inv: "presence_inv d" "row_ok r" "session_exists d (fs_id r)"
    using act(2,6) by (auto simp: sessions_inv_def session_exists_def)
  have ids: "fs_id r' = fs_id r" using act(3) by (simp add: row_step_def same_room_def)
  have rows: "session_members ?d = session_members d @ ms" "accounts ?d = accounts d"
    "members ?d = members d" "pairs ?d = pairs d" "session_exists ?d = session_exists d"
    using act(5) by (auto simp: session_exists_def fun_eq_iff put_session_def put_session_id_set)
  have new: "map member_key ms = map (\<lambda>j. (fs_id r, j)) (map sm_account ms) \<and>
      distinct (map sm_account ms) \<and> (\<forall>m \<in> set ms. account_exists d (sm_account m) \<and>
        \<not> in_session d (fs_id r) (sm_account m))"
    using act(4) by (auto simp: newcomers_def member_key_def split: if_splits)
  have in_d: "in_session ?d i x \<longleftrightarrow> in_session d i x \<or> i = fs_id r \<and> x \<in> sm_account ` set ms" for i x
    using act(4) by (auto simp: in_session_def act(5) newcomers_def member_key_def split: if_splits)
  have mem: "pair_member p x ?d = pair_member p x d" for p x by (simp add: pair_member_def act(5))
  have ps: "presence_ok d s" if "s \<in> set (sessions d)" for s
    using inv(1) that by (simp add: presence_inv_def)
  have "presence_ok ?d r'"
    by (rule act_presence [OF ps [OF act(2)] inv(2) act(3,4)]) (simp_all only: in_d mem simp_thms)
  moreover have "presence_ok ?d s" if "s \<in> set (sessions d)" "fs_id s \<noteq> fs_id r" for s
    by (rule presence_ok_frame [OF ps [OF that(1)]]) (simp_all only: in_d mem that(2) simp_thms)
  ultimately have all: "\<forall>s \<in> set (sessions ?d). presence_ok ?d s"
    using act(5) ids by (auto simp: put_session_def dest!: in_put_session)
  have "distinct (map member_key (session_members d @ ms))"
  proof -
    have "member_key m \<notin> member_key ` set (session_members d)" if "m \<in> set ms" for m
      using new that act(4) by (auto simp: in_session_def member_key_def newcomers_def split: if_splits)
    moreover have "distinct (map member_key ms)" using act(4) by (auto simp: newcomers_def split: if_splits)
    moreover from calculation(1)
    have "set (map member_key (session_members d)) \<inter> set (map member_key ms) = {}" by fastforce
    ultimately show ?thesis using inv(1) by (simp only: presence_inv_def map_append distinct_append simp_thms)
  qed
  moreover have "\<forall>m \<in> set (session_members d @ ms).
      session_exists d (sm_session m) \<and> account_exists d (sm_account m)"
    using act(4) inv(1,3) by (auto simp: newcomers_def presence_inv_def split: if_splits)
  moreover have "account_exists ?d = account_exists d"
    by (simp add: fun_eq_iff account_exists_def act(5))
  ultimately show ?case
    using all by (simp only: presence_inv_def snd_conv rows simp_thms)
next
  case (begin_session w w' c r d d1 ty actor tc)
  let ?d = "add_event (fs_pair r) ty (Some (fs_id r)) actor (PSession (session_view d1 r)) c tc d1"
  have inv: "presence_inv d" using begin_session(11) by simp
  have rows: "session_members ?d = session_members d @
        [\<lparr>sm_session = fs_id r, sm_account = fs_started_by r, sm_joined_at = fs_started_at r\<rparr>]"
      "sessions ?d = sessions d @ [r]" "accounts ?d = accounts d"
      "members ?d = members d" "pairs ?d = pairs d"
    using begin_session(10) by simp_all
  have mem: "pair_member p x ?d = pair_member p x d" for p x
    by (simp add: pair_member_def begin_session(10))
  have none: "\<not> in_session d (fs_id r) x" for x
    using inv begin_session(5) by (auto simp: presence_inv_def in_session_def member_key_def)
  have in_d: "in_session ?d i x \<longleftrightarrow> in_session d i x \<or> i = fs_id r \<and> x = fs_started_by r" for i x
    by (auto simp: in_session_def begin_session(10) member_key_def)
  have "presence_ok ?d s" if "s \<in> set (sessions d)" for s
  proof (rule presence_ok_frame)
    show "presence_ok d s" using inv that by (simp add: presence_inv_def)
    have "fs_id s \<noteq> fs_id r" using begin_session(5) imageI [OF that, of fs_id]
      by (auto simp: session_exists_def)
    then show "in_session ?d (fs_id s) x = in_session d (fs_id s) x" for x
      by (simp only: in_d simp_thms)
  qed (simp only: mem)
  moreover have "\<not> joined (phase_of r)" using begin_session(4) by (auto simp: phase_of_def)
  then have "presence_ok ?d r"
    using none begin_session(8) by (simp add: presence_ok_def in_d mem)
  moreover have "distinct (map member_key (session_members ?d))"
    using inv none [of "fs_started_by r"] by (simp add: presence_inv_def begin_session(10) member_key_def in_session_def)
  moreover have "\<forall>m \<in> set (session_members ?d). session_exists ?d (sm_session m) \<and>
      account_exists ?d (sm_account m)"
    using inv begin_session(9)
    by (auto simp: presence_inv_def begin_session(10) session_exists_def account_exists_def)
  ultimately show ?case by (auto simp: presence_inv_def begin_session(10))
qed (auto elim!: presence_inv_frame)

section \<open>The log\<close>

definition log_inv :: "world \<Rightarrow> db \<Rightarrow> bool" where
  "log_inv w d \<longleftrightarrow> log_ok d \<and>
     (\<forall>ev \<in> set (events d). pe_cursor ev \<le> w_seq w \<and> pair_exists d (pe_pair ev))"

lemma log_inv_append:
  assumes "log_inv w d" and "draws w w' c" and "pair_exists d' p"
    and "\<And>q. pair_exists d q \<Longrightarrow> pair_exists d' q"
    and "events d' = events d @ [ev]" and "pe_cursor ev = c" and "pe_pair ev = p"
  shows "log_inv w' d'"
  using assms by (auto simp: log_inv_def log_ok_def sorted_wrt_append draws_def advance_def)

lemma log_inv_advance: "log_inv w d \<Longrightarrow> advance w w' \<Longrightarrow> log_inv w' d"
  by (auto simp: log_inv_def advance_def)

lemma log_inv_step:
  "pair_step s t \<Longrightarrow> log_inv (fst s) (snd s) \<and> sessions_inv (snd s) \<Longrightarrow> log_inv (fst t) (snd t)"
proof (induction rule: pair_step.induct)
  case (act w w' c r d a u r' ms d1 ty actor tc)
  then show ?case unfolding fst_conv snd_conv
    by (elim conjE, intro log_inv_append [of w d w' c]) (auto simp: sessions_inv_def pair_exists_def)
next
  case (begin_session w w' c r d d1 ty actor tc)
  then show ?case unfolding fst_conv snd_conv
    by (elim conjE, intro log_inv_append [of w d w' c]) (auto simp: pair_exists_def)
next
  case (leave_note w w' c t r d a n d1 actor tc)
  then show ?case unfolding fst_conv snd_conv
    by (elim conjE, intro log_inv_append [of w d w' c]) (auto simp: sessions_inv_def pair_exists_def)
next
  case (cheer w w' c r d x d1 ty actor q tc)
  then show ?case unfolding fst_conv snd_conv
    by (elim conjE, intro log_inv_append [of w d w' c]) (auto simp: sessions_inv_def pair_exists_def)
next
  case (make_pair w w' c v d a p d1 t2 t1 ty tc)
  then show ?case unfolding fst_conv snd_conv
    by (elim conjE, intro log_inv_append [of w d w' c]) (auto simp: pair_exists_def)
qed (auto simp: log_inv_def log_ok_def pair_exists_def advance_def)

text \<open>The log only grows at its end, with cursors above all earlier ones.\<close>

lemma log_extends: "pair_step s t \<Longrightarrow> \<exists>new. events (snd t) = events (snd s) @ new"
  by (induction rule: pair_step.induct) auto

section \<open>Stored keys\<close>

definition keys_inv :: "db \<Rightarrow> bool" where
  "keys_inv d \<longleftrightarrow> keys_unique d \<and>
     (\<forall>k \<in> set (idempotency d). response_fits (ik_operation k) (ik_response k))"

lemma keys_inv_step: "pair_step s t \<Longrightarrow> keys_inv (snd s) \<Longrightarrow> keys_inv (snd t)"
  by (induction rule: pair_step.induct) (auto simp: keys_inv_def keys_unique_def)

section \<open>Notes and cheers\<close>

definition notes_inv :: "db \<Rightarrow> bool" where
  "notes_inv d \<longleftrightarrow> distinct (map nt_id (session_notes d)) \<and>
     (\<forall>n \<in> set (session_notes d). session_exists d (nt_session n) \<and>
        1 \<le> char_length (nt_body n) \<and> char_length (nt_body n) \<le> 120)"

lemma notes_inv_step: "pair_step s t \<Longrightarrow> notes_inv (snd s) \<Longrightarrow> notes_inv (snd t)"
  by (induction rule: pair_step.induct)
     (auto simp: notes_inv_def session_exists_def put_session_def put_session_id_set)

definition cheers_spaced :: "db \<Rightarrow> bool" where
  "cheers_spaced d \<longleftrightarrow> sorted_wrt (\<lambda>y x. rx_session y = rx_session x \<and> rx_account y = rx_account x \<longrightarrow>
     rx_created_at y + 30 * second \<le> rx_created_at x) (reactions d)"

lemma cheers_spaced_step: "pair_step s t \<Longrightarrow> cheers_spaced (snd s) \<Longrightarrow> cheers_spaced (snd t)"
  by (induction rule: pair_step.induct) (auto simp: cheers_spaced_def sorted_wrt_append)

section \<open>Invitations\<close>

definition invites_inv :: "db \<Rightarrow> bool" where
  "invites_inv d \<longleftrightarrow> distinct (map iv_id (invites d)) \<and> distinct (map iv_token_hash (invites d)) \<and>
     distinct (map iv_created_by (filter live_invite (invites d)))"

lemma update_where_filter_map:
  assumes "distinct (map k (filter P t))" and "\<And>s. Q s \<Longrightarrow> P (f s) \<Longrightarrow> P s \<and> k (f s) = k s"
  shows "distinct (map k (filter P (update_where Q f t)))"
  unfolding update_where_def by (rule distinct_filter_map [OF assms(1)]) (use assms(2) in auto)

lemma invites_inv_step: "pair_step s t \<Longrightarrow> invites_inv (snd s) \<Longrightarrow> invites_inv (snd t)"
proof (induction rule: pair_step.induct)
  case (invite w w' a d v t)
  let ?t = "update_where (\<lambda>v. iv_created_by v = a \<and> live_invite v) (\<lambda>v. v\<lparr>iv_revoked_at := Some t\<rparr>)
      (invites d)"
  have ids: "map iv_id ?t = map iv_id (invites d)"
    "map iv_token_hash ?t = map iv_token_hash (invites d)" by (simp_all add: update_where_def)
  have "distinct (map iv_created_by (filter live_invite ?t))"
    using invite.prems by (intro update_where_filter_map) (auto simp: invites_inv_def)
  moreover have "iv_created_by u \<noteq> a" if "u \<in> set (filter live_invite ?t)" for u
  proof -
    from that obtain x where x: "x \<in> set (invites d)" "live_invite u"
      "u = (if iv_created_by x = a \<and> live_invite x then x\<lparr>iv_revoked_at := Some t\<rparr> else x)"
      unfolding update_where_def by auto
    then show ?thesis
      by (cases "iv_created_by x = a \<and> live_invite x") (auto simp: live_invite_def)
  qed
  then have "iv_created_by v \<notin> iv_created_by ` set (filter live_invite ?t)"
    unfolding invite(3) by blast
  ultimately have "distinct (map iv_created_by (filter live_invite (?t @ [v])))"
    using invite(6) by simp
  moreover have "distinct (map iv_id (?t @ [v]))" "distinct (map iv_token_hash (?t @ [v]))"
    using invite(4,5) invite.prems by (simp_all add: ids invites_inv_def)
  ultimately show ?case by (simp add: invites_inv_def)
next
  case (make_pair w w' c v d a p d1 t2 t1 ty tc)
  let ?t = "update_where (\<lambda>x. iv_id x = iv_id v)
      (\<lambda>x. x\<lparr>iv_accepted_by := Some a, iv_accepted_at := Some t2\<rparr>) (invites d)"
  have ids: "map iv_id ?t = map iv_id (invites d)"
    "map iv_token_hash ?t = map iv_token_hash (invites d)" by (simp_all add: update_where_def)
  have "distinct (map iv_created_by (filter live_invite ?t))"
    using make_pair(12) by (intro update_where_filter_map) (auto simp: invites_inv_def live_invite_def)
  then show ?case using make_pair ids by (simp add: invites_inv_def add_event_def)
qed (auto simp: invites_inv_def add_event_def put_session_def)

end
