(* ===== verification/SessionCommands.thy ===== *)
theory SessionCommands
  imports SessionStore
begin

text \<open>
  The session commands of \<open>internal/store/collaboration.go\<close>: \<open>StartSession\<close>,
  \<open>ImportSoloSession\<close>, and \<open>transitionSession\<close>, behind which \<open>JoinSession\<close> and
  \<open>TransitionSession\<close> stand. Each is a body inside the idempotency frame.
\<close>

section \<open>Starting\<close>

definition focus_started_push :: push_payload where
  "focus_started_push = \<lparr>pp_title = ''Along'', pp_body = ''Your partner started a focus.'',
     pp_deep_link = ''along:///focus''\<rparr>"

definition started_row :: "uuid \<Rightarrow> uuid \<Rightarrow> uuid \<Rightarrow> time \<Rightarrow> time \<Rightarrow> session_row" where
  "started_row session_id pair_id account_id now clock =
     \<lparr>fs_id = session_id, fs_pair = pair_id, fs_started_by = account_id,
      fs_state = SessionOpen, fs_pause_origin = None, fs_duration_seconds = 1500,
      fs_started_at = micros now, fs_ends_at = micros (now + 25 * minute),
      fs_paused_at = None, fs_completed_at = None, fs_cancelled_at = None, fs_version = 1,
      fs_offline_origin = False, fs_updated_at = clock\<rparr>"

definition start_body :: "auth_identity \<Rightarrow> uuid \<Rightarrow> uuid \<Rightarrow> (db, focus_session) tx" where
  "start_body idn pair_id session_id =
     bind_tx (require_pair_member pair_id (id_account idn)) (\<lambda>_.
     bind_tx (complete_elapsed_session pair_id) (\<lambda>_.
     bind_tx (select (\<lambda>_ d. list_ex (\<lambda>s. fs_pair s = pair_id \<and> active s) (sessions d))) (\<lambda>active.
     if active then raise (Sentinel ErrActiveSession)
     else
     bind_tx go_now (\<lambda>now.
     bind_tx (exec (\<lambda>e. insert_session
         (started_row session_id pair_id (id_account idn) now (e_clock e)))) (\<lambda>_.
     bind_tx (exec (\<lambda>_. insert_session_member
         \<lparr>sm_session = session_id, sm_account = id_account idn, sm_joined_at = micros now\<rparr>)) (\<lambda>_.
     bind_tx (read_session session_id) (\<lambda>session.
     bind_tx (append_pair_event pair_id ''session.started'' (Some session_id)
         (Some (id_account idn)) (PSession session)) (\<lambda>cursor.
     bind_tx (enqueue_partner_notification pair_id (id_account idn) cursor ''focus_started''
         focus_started_push) (\<lambda>_.
     ret session)))))))))"

definition start_session ::
  "auth_identity \<Rightarrow> uuid \<Rightarrow> uuid \<Rightarrow> (db, focus_session \<times> bool) tx" where
  "start_session idn key session_id = (case id_pair idn of
       None \<Rightarrow> raise (Sentinel ErrNotFound)
     | Some pair_id \<Rightarrow> idempotent_tx (id_account idn) key ''session.start'' session_of RSession
         (start_body idn pair_id session_id))"

section \<open>Importing a solo session\<close>

definition imported_row :: "uuid \<Rightarrow> uuid \<Rightarrow> uuid \<Rightarrow> time \<Rightarrow> time \<Rightarrow> time \<Rightarrow> session_row" where
  "imported_row session_id pair_id account_id started_at completed_at clock =
     \<lparr>fs_id = session_id, fs_pair = pair_id, fs_started_by = account_id,
      fs_state = SessionCompleted, fs_pause_origin = None, fs_duration_seconds = 1500,
      fs_started_at = micros started_at, fs_ends_at = micros completed_at,
      fs_paused_at = None, fs_completed_at = Some (micros completed_at),
      fs_cancelled_at = None, fs_version = 1, fs_offline_origin = True,
      fs_updated_at = clock\<rparr>"

definition import_body ::
  "auth_identity \<Rightarrow> uuid \<Rightarrow> uuid \<Rightarrow> time \<Rightarrow> time \<Rightarrow> (db, focus_session) tx" where
  "import_body idn pair_id session_id started_at completed_at =
     bind_tx (require_pair_member pair_id (id_account idn)) (\<lambda>_.
     bind_tx (exec (\<lambda>e. insert_session (imported_row session_id pair_id (id_account idn)
         started_at completed_at (e_clock e)))) (\<lambda>_.
     bind_tx (exec (\<lambda>_. insert_session_member
         \<lparr>sm_session = session_id, sm_account = id_account idn,
          sm_joined_at = micros started_at\<rparr>)) (\<lambda>_.
     bind_tx (read_session session_id) (\<lambda>session.
     bind_tx (append_pair_event pair_id ''session.completed'' (Some session_id)
         (Some (id_account idn)) (PSession session)) (\<lambda>_.
     ret session)))))"

definition import_solo_session ::
  "auth_identity \<Rightarrow> uuid \<Rightarrow> uuid \<Rightarrow> time \<Rightarrow> time \<Rightarrow> (db, focus_session \<times> bool) tx" where
  "import_solo_session idn key session_id started_at completed_at = (case id_pair idn of
       None \<Rightarrow> raise (Sentinel ErrNotFound)
     | Some pair_id \<Rightarrow>
         if completed_at < started_at \<or> 24 * hour < time_sub completed_at started_at
         then raise (Sentinel ErrConflict)
         else bind_tx go_now (\<lambda>now.
           if now + 2 * minute < completed_at then raise (Sentinel ErrConflict)
           else idempotent_tx (id_account idn) key ''session.import_solo'' session_of RSession
             (import_body idn pair_id session_id started_at completed_at)))"

section \<open>Transitions\<close>

text \<open>The row each action's \<open>UPDATE\<close> leaves.\<close>

definition joined_row :: "session_state \<Rightarrow> time \<Rightarrow> session_row \<Rightarrow> session_row" where
  "joined_row next now r =
     r\<lparr>fs_state := next, fs_version := fs_version r + 1, fs_updated_at := micros now\<rparr>"

definition paused_row :: "session_state option \<Rightarrow> time \<Rightarrow> session_row \<Rightarrow> session_row" where
  "paused_row origin now r =
     r\<lparr>fs_state := SessionPaused, fs_pause_origin := origin, fs_paused_at := Some (micros now),
       fs_version := fs_version r + 1, fs_updated_at := micros now\<rparr>"

definition resumed_row :: "session_state \<Rightarrow> time \<Rightarrow> time \<Rightarrow> session_row \<Rightarrow> session_row" where
  "resumed_row next now paused_at r =
     r\<lparr>fs_state := next, fs_pause_origin := None, fs_paused_at := None,
       fs_ends_at := fs_ends_at r + (micros now - paused_at),
       fs_version := fs_version r + 1, fs_updated_at := micros now\<rparr>"

definition completed_row :: "time \<Rightarrow> session_row \<Rightarrow> session_row" where
  "completed_row now r =
     r\<lparr>fs_state := SessionCompleted, fs_pause_origin := None, fs_paused_at := None,
       fs_completed_at := Some (micros now),
       fs_version := fs_version r + 1, fs_updated_at := micros now\<rparr>"

definition cancelled_row :: "time \<Rightarrow> session_row \<Rightarrow> session_row" where
  "cancelled_row now r =
     r\<lparr>fs_state := SessionCancelled, fs_pause_origin := None, fs_paused_at := None,
       fs_cancelled_at := Some (micros now),
       fs_version := fs_version r + 1, fs_updated_at := micros now\<rparr>"

text \<open>
  The resuming \<open>UPDATE\<close> adds \<open>$3 - paused_at\<close> to \<open>ends_at\<close>; a null \<open>paused_at\<close> would make the
  column null, which its \<open>NOT NULL\<close> refuses.
\<close>

definition resume_sessions ::
  "uuid \<Rightarrow> session_state \<Rightarrow> time \<Rightarrow> db \<Rightarrow> go_error + db" where
  "resume_sessions i next now d =
     require (\<forall>s \<in> set (sessions d). fs_id s = i \<longrightarrow> fs_paused_at s \<noteq> None) ''23502''
       (update_sessions (\<lambda>s. fs_id s = i)
         (\<lambda>s. case fs_paused_at s of None \<Rightarrow> s | Some t \<Rightarrow> resumed_row next now t s) d)"

definition apply_action ::
  "auth_identity \<Rightarrow> focus_session \<Rightarrow> uuid \<Rightarrow> session_action \<Rightarrow> session_state \<Rightarrow>
   session_state option \<Rightarrow> time \<Rightarrow> (db, unit) tx" where
  "apply_action idn current i action next origin now = (case action of
       ActionJoin \<Rightarrow>
         if ses_started_by current = id_account idn \<or> ses_ends_at current < now
         then raise (Sentinel ErrConflict)
         else
         bind_tx (exec (\<lambda>_. insert_session_member
             \<lparr>sm_session = i, sm_account = id_account idn, sm_joined_at = micros now\<rparr>)) (\<lambda>_.
         exec (\<lambda>_. update_sessions (\<lambda>s. fs_id s = i) (joined_row next now)))
     | ActionPause \<Rightarrow> exec (\<lambda>_. update_sessions (\<lambda>s. fs_id s = i) (paused_row origin now))
     | ActionResume \<Rightarrow>
         if ses_paused_at current = None then raise (Sentinel ErrConflict)
         else exec (\<lambda>_. resume_sessions i next now)
     | ActionComplete \<Rightarrow> exec (\<lambda>_. update_sessions (\<lambda>s. fs_id s = i) (completed_row now))
     | ActionCancel \<Rightarrow> exec (\<lambda>_. update_sessions (\<lambda>s. fs_id s = i) (cancelled_row now))
     | ActionExpire \<Rightarrow> exec (\<lambda>_. update_sessions (\<lambda>s. fs_id s = i) (expire_row (micros now))))"

definition operation_name :: "session_action \<Rightarrow> string" where
  "operation_name action = ''session.'' @ action_name action"

definition event_type :: "session_action \<Rightarrow> string" where
  "event_type action =
     (if action = ActionJoin then ''session.joined'' else operation_name action)"

definition transition_body ::
  "auth_identity \<Rightarrow> uuid \<Rightarrow> uuid \<Rightarrow> int \<Rightarrow> session_action \<Rightarrow> (db, focus_session) tx" where
  "transition_body idn pair_id session_id expected_version action =
     bind_tx (require_pair_member pair_id (id_account idn)) (\<lambda>_.
     bind_tx (read_session_for_update session_id pair_id) (\<lambda>current.
     if ses_version current \<noteq> expected_version then raise (Sentinel ErrVersion)
     else (case next_state (ses_state current) (ses_pause_origin current) action of
       Inl _ \<Rightarrow> raise (Sentinel ErrConflict)
     | Inr (next, origin) \<Rightarrow>
     bind_tx go_now (\<lambda>now.
     bind_tx (apply_action idn current session_id action next origin now) (\<lambda>_.
     bind_tx (read_session session_id) (\<lambda>session.
     bind_tx (append_pair_event pair_id (event_type action) (Some session_id)
         (Some (id_account idn)) (PSession session)) (\<lambda>_.
     ret session)))))))"

definition transition_session ::
  "auth_identity \<Rightarrow> uuid \<Rightarrow> uuid \<Rightarrow> int \<Rightarrow> session_action \<Rightarrow> (db, focus_session \<times> bool) tx" where
  "transition_session idn session_id key expected_version action = (case id_pair idn of
       None \<Rightarrow> raise (Sentinel ErrNotFound)
     | Some pair_id \<Rightarrow> idempotent_tx (id_account idn) key (operation_name action)
         session_of RSession
         (transition_body idn pair_id session_id expected_version action))"

definition join_session ::
  "auth_identity \<Rightarrow> uuid \<Rightarrow> uuid \<Rightarrow> int \<Rightarrow> (db, focus_session \<times> bool) tx" where
  "join_session idn session_id key expected_version =
     transition_session idn session_id key expected_version ActionJoin"

end
