(* ===== verification/Signals.thy ===== *)
theory Signals
  imports SessionStore
begin

text \<open>
  The care signals of \<open>internal/store/collaboration.go\<close>: \<open>AddNote\<close> and \<open>AddCheer\<close>.
\<close>

definition partner_note_push :: push_payload where
  "partner_note_push = \<lparr>pp_title = ''Along'', pp_body = ''Your partner left a note.'',
     pp_deep_link = ''along:///look-back''\<rparr>"

definition note_body ::
  "auth_identity \<Rightarrow> uuid \<Rightarrow> uuid \<Rightarrow> string \<Rightarrow> (db, session_note) tx" where
  "note_body idn pair_id session_id body =
     bind_tx (require_pair_member pair_id (id_account idn)) (\<lambda>_.
     bind_tx (select (\<lambda>_ d. list_ex (\<lambda>s. fs_id s = session_id \<and> fs_pair s = pair_id \<and>
         fs_state s \<noteq> SessionCancelled) (sessions d))) (\<lambda>exists.
     if \<not> exists then raise (Sentinel ErrNotFound)
     else
     bind_tx new_uuid (\<lambda>note_id.
     bind_tx (sql (\<lambda>e d. case insert_note
           \<lparr>nt_id = note_id, nt_session = session_id, nt_account = id_account idn,
            nt_body = body, nt_created_at = e_clock e\<rparr> d of
         Inl err \<Rightarrow> Inl err
       | Inr d' \<Rightarrow> Inr (\<lparr>sn_id = note_id, sn_account = id_account idn,
           sn_display_name = id_display_name idn, sn_body = body,
           sn_created_at = e_clock e\<rparr>, d'))) (\<lambda>note.
     bind_tx (append_pair_event pair_id ''session.note_added'' (Some session_id)
         (Some (id_account idn)) (PNote note)) (\<lambda>cursor.
     bind_tx (enqueue_partner_notification pair_id (id_account idn) cursor ''partner_note''
         partner_note_push) (\<lambda>_.
     ret note))))))"

definition add_note ::
  "auth_identity \<Rightarrow> uuid \<Rightarrow> uuid \<Rightarrow> string \<Rightarrow> (db, session_note \<times> bool) tx" where
  "add_note idn session_id key body = (case id_pair idn of
       None \<Rightarrow> raise (Sentinel ErrNotFound)
     | Some pair_id \<Rightarrow> idempotent_tx (id_account idn) key ''session.note'' note_of RNote
         (note_body idn pair_id session_id body))"

definition cheer_body :: "auth_identity \<Rightarrow> uuid \<Rightarrow> uuid \<Rightarrow> (db, cheer_response) tx" where
  "cheer_body idn pair_id session_id =
     bind_tx (select (\<lambda>_ d. List.find (\<lambda>s. fs_id s = session_id \<and> fs_pair s = pair_id)
         (sessions d))) (\<lambda>found.
     case found of
       None \<Rightarrow> raise (Sentinel ErrNotFound)
     | Some row \<Rightarrow>
     if fs_state row \<noteq> SessionTogether \<and> fs_state row \<noteq> SessionPaused
     then raise (Sentinel ErrConflict)
     else
     bind_tx (select (\<lambda>e d. list_ex (\<lambda>r. rx_session r = session_id \<and>
         rx_account r = id_account idn \<and> e_clock e - 30 * second < rx_created_at r)
         (reactions d))) (\<lambda>recent.
     if recent then raise (Sentinel ErrCooldown)
     else
     bind_tx new_uuid (\<lambda>cheer_id.
     bind_tx (sql (\<lambda>e d. case insert_reaction
           \<lparr>rx_id = cheer_id, rx_session = session_id, rx_account = id_account idn,
            rx_created_at = e_clock e\<rparr> d of
         Inl err \<Rightarrow> Inl err
       | Inr d' \<Rightarrow> Inr (\<lparr>chr_id = cheer_id, chr_created_at = e_clock e\<rparr>, d'))) (\<lambda>response.
     bind_tx (append_pair_event pair_id ''session.cheered'' (Some session_id)
         (Some (id_account idn)) (PCheer response)) (\<lambda>_.
     ret response)))))"

definition add_cheer ::
  "auth_identity \<Rightarrow> uuid \<Rightarrow> uuid \<Rightarrow> (db, cheer_response \<times> bool) tx" where
  "add_cheer idn session_id key = (case id_pair idn of
       None \<Rightarrow> raise (Sentinel ErrNotFound)
     | Some pair_id \<Rightarrow> idempotent_tx (id_account idn) key ''session.cheer'' cheer_of RCheer
         (cheer_body idn pair_id session_id))"

end
