(* ===== verification/PairRefinement.thy ===== *)
theory PairRefinement
  imports PairInvariants SessionCommands Signals
begin

text \<open>
  The store's operations refine \<open>pair_step\<close>: whatever a run of an operation did to the database
  is a sequence of abstract changes, under every clock, every drawn identifier and every
  failing statement. A run that fails, or a replayed command, is the change \<open>idle\<close>.
\<close>

section \<open>Runs of changes\<close>

abbreviation pair_run :: "moment \<Rightarrow> moment \<Rightarrow> bool" where
  "pair_run \<equiv> pair_step\<^sup>*\<^sup>*"

lemma run_idle: "advance w w' \<Longrightarrow> pair_run (w, d) (w', d)"
  by (rule r_into_rtranclp) (rule pair_step.idle)

lemma run_idle_before: "advance w w1 \<Longrightarrow> pair_run (w1, d) s \<Longrightarrow> pair_run (w, d) s"
  using run_idle by (rule rtranclp_trans)

lemma run_idle_after: "pair_run s (w1, d) \<Longrightarrow> advance w1 w' \<Longrightarrow> pair_run s (w', d)"
  using run_idle by (metis rtranclp_trans)

lemma pair_step_advance: "pair_step s t \<Longrightarrow> advance (fst s) (fst t)"
  by (induction rule: pair_step.induct) (auto simp: draws_def)

lemma pair_run_advance: "pair_run s t \<Longrightarrow> advance (fst s) (fst t)"
  by (induction rule: rtranclp_induct) (auto intro: advance_trans pair_step_advance)

lemma pair_run_inv:
  assumes "pair_run s t" and "I s" and "\<And>s t. pair_step s t \<Longrightarrow> I s \<Longrightarrow> I t"
  shows "I t"
  using assms(1,2) by (induction rule: rtranclp_induct) (auto intro: assms(3))

lemma pair_run_sessions_inv: "pair_run s t \<Longrightarrow> sessions_inv (snd s) \<Longrightarrow> sessions_inv (snd t)"
  by (erule pair_run_inv [where I = "\<lambda>s. sessions_inv (snd s)"]) (auto intro: sessions_inv_step)

lemma pair_step_rows_grow:
  "pair_step s t \<Longrightarrow> accounts (snd t) = accounts (snd s) \<and>
    set (members (snd s)) \<subseteq> set (members (snd t)) \<and> set (pairs (snd s)) \<subseteq> set (pairs (snd t))"
  by (induction rule: pair_step.induct) auto

lemma pair_run_rows_grow:
  "pair_run s t \<Longrightarrow> accounts (snd t) = accounts (snd s) \<and>
    set (members (snd s)) \<subseteq> set (members (snd t)) \<and> set (pairs (snd s)) \<subseteq> set (pairs (snd t))"
  by (induction rule: rtranclp_induct) (use pair_step_rows_grow in \<open>fastforce+\<close>)

lemma pair_run_member:
  "pair_run (w, d) (w', d') \<Longrightarrow> pair_member p a d \<Longrightarrow> pair_member p a d'"
  using pair_run_rows_grow [of "(w, d)" "(w', d')"] by (auto elim: pair_member_mono)

section \<open>What the shared statements do\<close>

lemma draws_intro: "w_seq w < c \<Longrightarrow> c \<le> w_seq w' \<Longrightarrow> advance w w' \<Longrightarrow> draws w w' c"
  by (simp add: draws_def)

lemma draws_before: "advance w w1 \<Longrightarrow> draws w1 w' c \<Longrightarrow> draws w w' c"
  by (auto simp: draws_def advance_def)

lemma reads_before: "advance w w1 \<Longrightarrow> reads w1 w' t \<Longrightarrow> reads w w' t"
  unfolding reads_def advance_def by (metis order_trans)

lemma reads_tick: "advance w w1 \<Longrightarrow> advance (tick w1) w' \<Longrightarrow> reads w w' (w_clock w1 (w_step w1))"
  by (force simp: reads_def advance_def tick_def)

lemma append_run:
  assumes "append_pair_event p ty en ac pl w d = (Inr c, w', d')"
  obtains t where "draws w w' c" and "d' = add_event p ty en ac pl c t d"
    and "pair_exists d p"
proof -
  have "draws w w' c" "pair_exists d p"
    using assms unfolding append_pair_event_def
    by (auto simp: tx_simps tick_simps insert_event_def draws_def advance_def)
  moreover have "\<exists>t. d' = add_event p ty en ac pl c t d"
    using assms unfolding append_pair_event_def
    by (auto simp: tx_simps tick_simps insert_event_def add_event_def)
  ultimately show thesis using that by blast
qed

lemma read_session_run:
  assumes "read_session i w d = (Inr s, w', d')"
  obtains r where "r \<in> set (sessions d)" and "fs_id r = i" and "s = session_view d r"
    and "d' = d" and "advance w w'"
  using assms unfolding read_session_def session_row_of_def session_view_def
  by (auto simp: tx_simps dest!: find_Some_in split: option.splits intro!: advance_tickD)

lemma require_member_run:
  assumes "require_pair_member p a w d = (Inr v, w', d')"
  shows "pair_member p a d" and "d' = d" and "w' = tick w"
  using assms unfolding require_pair_member_def by (auto simp: tx_simps split: if_splits)

lemma put_session_update:
  assumes "sessions_unique (sessions d)" and "r \<in> set (sessions d)" and "fs_id (f r) = fs_id r"
  shows "d\<lparr>sessions := update_where (\<lambda>s. fs_id s = fs_id r) f (sessions d)\<rparr> = put_session (f r) d"
proof -
  have "s = r" if "s \<in> set (sessions d)" "fs_id s = fs_id r" for s
    using assms(1,2) that distinct_key_eq [of fs_id "sessions d" s r] by (simp add: sessions_unique_def)
  then have "update_where (\<lambda>s. fs_id s = fs_id r) f (sessions d)
      = update_where (\<lambda>s. fs_id s = fs_id (f r)) (\<lambda>_. f r) (sessions d)"
    by (auto simp: update_where_def assms(3))
  then show ?thesis by (simp add: put_session_def)
qed

lemma update_sessions_run:
  assumes "update_sessions (\<lambda>s. fs_id s = fs_id r) f d = Inr d'"
    and "sessions_unique (sessions d)" and "r \<in> set (sessions d)" and "fs_id (f r) = fs_id r"
  shows "d' = put_session (f r) d"
  using assms put_session_update [of d r f]
  by (auto simp: update_sessions_def write_sessions_def)

lemma in_put_sessionI: "s \<in> set (sessions d) \<Longrightarrow> fs_id s = fs_id r \<Longrightarrow> r \<in> set (sessions (put_session r d))"
  by (force simp: put_session_def update_where_def)

lemma put_session_only:
  assumes "s \<in> set (sessions (put_session r d))" and "fs_id s = fs_id r"
  shows "s = r"
  using assms by (auto simp: put_session_def dest!: in_put_session)

section \<open>One change of a session\<close>

text \<open>An update of one row, the read of the session and its event together are one \<open>act\<close>.\<close>

lemma act_run:
  assumes r: "r \<in> set (sessions d)" and st: "row_step r a u r'" and ms: "newcomers d r a ms"
    and d1: "d1 = put_session r' (d\<lparr>session_members := session_members d @ ms\<rparr>)"
    and w1: "advance w w1" and rd: "read_session (fs_id r) w1 d1 = (Inr s, w2, d2)"
    and ev: "append_pair_event (fs_pair r) ty (Some (fs_id r)) actor (PSession s) w2 d2 = (Inr c, w', d')"
  shows "pair_run (w, d) (w', d')" and "s = session_view d1 r'"
proof -
  have id: "fs_id r' = fs_id r" using st by (simp add: row_step_def same_room_def)
  obtain x where x: "x \<in> set (sessions d1)" "fs_id x = fs_id r" "s = session_view d1 x"
    "d2 = d1" "advance w1 w2" using rd by (rule read_session_run)
  then have "x = r'" using put_session_only id d1 by auto
  with x show s: "s = session_view d1 r'" by simp
  obtain t where t: "draws w2 w' c" "d' = add_event (fs_pair r) ty (Some (fs_id r)) actor (PSession s) c t d2"
    using ev by (rule append_run)
  have "draws w w' c" using w1 x(5) t(1) by (blast intro: draws_before)
  then have "pair_step (w, d) (w', d')"
    unfolding t(2) x(4) s using r st ms d1 by (rule pair_step.act)
  then show "pair_run (w, d) (w', d')" ..
qed

lemma active_unique_list:
  assumes "sessions_unique t"
  shows "filter (\<lambda>s. fs_pair s = p \<and> active s \<and> P s) t = [] \<or>
    (\<exists>r. filter (\<lambda>s. fs_pair s = p \<and> active s \<and> P s) t = [r])"
proof (cases "filter (\<lambda>s. fs_pair s = p \<and> active s \<and> P s) t")
  case (Cons r rs)
  have d: "distinct (filter (\<lambda>s. fs_pair s = p \<and> active s \<and> P s) t)"
    using assms by (auto simp: sessions_unique_def distinct_map intro: distinct_filter)
  have "x = r" if "x \<in> set rs" for x
  proof -
    have "x \<in> set (filter (\<lambda>s. fs_pair s = p \<and> active s \<and> P s) t)"
      "r \<in> set (filter (\<lambda>s. fs_pair s = p \<and> active s \<and> P s) t)" using Cons that by auto
    then show ?thesis using sessions_unique_active [OF assms, of x r] by auto
  qed
  then have "set rs \<subseteq> {r}" by auto
  with d Cons have "rs = []" by (cases rs) auto
  with Cons show ?thesis by simp
qed simp

section \<open>Sessions that have run out\<close>

lemma expire_run:
  assumes run: "expire_session (fs_pair r) (fs_id r) w d = (Inr v, w', d')"
    and inv: "sessions_inv d" and r: "r \<in> set (sessions d)" "active r"
  shows "pair_run (w, d) (w', d')"
proof -
  obtain clock d1 w1 s w2 d2 c where u: "update_sessions (\<lambda>s. fs_id s = fs_id r) (expire_row clock) d = Inr d1"
    and rd: "read_session (fs_id r) w1 d1 = (Inr s, w2, d2)" and w1: "advance w w1"
    and ev: "append_pair_event (fs_pair r) ''session.expired'' (Some (fs_id r)) None (PSession s) w2 d2
      = (Inr c, w', d')"
    using run unfolding expire_session_def by (auto simp: tx_simps)
  have ok: "row_ok r" "sessions_unique (sessions d)" using inv r(1) by (auto simp: sessions_inv_def)
  have d1: "d1 = put_session (expire_row clock r) (d\<lparr>session_members := session_members d @ []\<rparr>)"
    using update_sessions_run [OF u ok(2) r(1)] by (simp add: expire_row_def)
  have "row_step r ActionExpire clock (expire_row clock r)"
    using ok(1) r(2) by (auto simp: row_step_def same_room_def expire_row_def phase_of_def row_ok_def
        active_def active_not_terminal life_step_simps split: option.splits)
  then show ?thesis using r(1) d1 w1 rd ev
    by (intro act_run(1) [of r d ActionExpire]) (auto simp: newcomers_def)
qed

lemma elapse_run:
  assumes run: "elapse_session (fs_pair r) (fs_id r, e) w d = (Inr v, w', d')"
    and inv: "sessions_inv d" and r: "r \<in> set (sessions d)" "fs_state r \<in> {SessionOpen, SessionTogether}"
  shows "pair_run (w, d) (w', d')"
proof -
  obtain clock d1 w1 s w2 d2 c where u: "update_sessions (\<lambda>s. fs_id s = fs_id r) (elapse_row e clock) d = Inr d1"
    and rd: "read_session (fs_id r) w1 d1 = (Inr s, w2, d2)" and w1: "advance w w1"
    and ev: "append_pair_event (fs_pair r) ''session.completed'' (Some (fs_id r)) None (PSession s) w2 d2
      = (Inr c, w', d')"
    using run unfolding elapse_session_def by (auto simp: tx_simps)
  have ok: "row_ok r" "sessions_unique (sessions d)" using inv r(1) by (auto simp: sessions_inv_def)
  have d1: "d1 = put_session (elapse_row e clock r) (d\<lparr>session_members := session_members d @ []\<rparr>)"
    using update_sessions_run [OF u ok(2) r(1)] by (simp add: elapse_row_def)
  have "row_step r ActionComplete (micros e) (elapse_row e clock r)"
    using ok(1) r(2) by (auto simp: row_step_def same_room_def elapse_row_def phase_of_def row_ok_def
        life_step_simps split: option.splits)
  then show ?thesis using r(1) d1 w1 rd ev
    by (intro act_run(1) [of r d ActionComplete]) (auto simp: newcomers_def)
qed

text \<open>A pair has at most one active session, so each of the two loops runs at most once.\<close>

lemma stale_pauses_once:
  assumes "sessions_unique (sessions d)"
  obtains "stale_pauses p c d = []"
  | r where "stale_pauses p c d = [fs_id r]" and "r \<in> set (sessions d)" and "active r" and "fs_pair r = p"
proof -
  let ?P = "\<lambda>s. fs_state s = SessionPaused \<and>
    (case fs_paused_at s of None \<Rightarrow> False | Some t \<Rightarrow> t \<le> c - 24 * hour)"
  let ?l = "filter (\<lambda>s. fs_pair s = p \<and> active s \<and> ?P s) (sessions d)"
  have eq: "stale_pauses p c d = map fs_id ?l"
    unfolding stale_pauses_def
    by (rule arg_cong [where f = "map fs_id"], rule filter_cong) (auto simp: active_def active_state_def)
  show thesis using active_unique_list [OF assms, of p ?P]
  proof (elim disjE exE)
    assume "?l = []"
    with eq that(1) show thesis by simp
  next
    fix r
    assume l: "?l = [r]"
    then have "r \<in> set ?l" by (simp only: list.set_intros(1))
    then have "r \<in> set (sessions d) \<and> fs_pair r = p \<and> active r \<and> ?P r" by simp
    with l eq that(2) [of r] show thesis by simp
  qed
qed

lemma elapsed_sessions_once:
  assumes "sessions_unique (sessions d)"
  obtains "elapsed_sessions p c d = []"
  | r where "elapsed_sessions p c d = [(fs_id r, fs_ends_at r)]" and "r \<in> set (sessions d)"
      and "fs_state r \<in> {SessionOpen, SessionTogether}" and "fs_pair r = p"
proof -
  let ?P = "\<lambda>s. fs_state s \<in> {SessionOpen, SessionTogether} \<and> fs_ends_at s \<le> c"
  let ?l = "filter (\<lambda>s. fs_pair s = p \<and> active s \<and> ?P s) (sessions d)"
  have eq: "elapsed_sessions p c d = map (\<lambda>s. (fs_id s, fs_ends_at s)) ?l"
    unfolding elapsed_sessions_def
    by (rule arg_cong [where f = "map _"], rule filter_cong) (auto simp: active_def active_state_def)
  show thesis using active_unique_list [OF assms, of p ?P]
  proof (elim disjE exE)
    assume "?l = []"
    with eq that(1) show thesis by simp
  next
    fix r
    assume l: "?l = [r]"
    then have "r \<in> set ?l" by (simp only: list.set_intros(1))
    then have "r \<in> set (sessions d) \<and> fs_pair r = p \<and> active r \<and> ?P r" by simp
    with l eq that(2) [of r] show thesis by simp
  qed
qed

lemma complete_elapsed_run:
  assumes run: "complete_elapsed_session p w d = (Inr v, w', d')" and inv: "sessions_inv d"
  shows "pair_run (w, d) (w', d')"
proof -
  obtain c2 w2 d2 where
    e: "for_each (stale_pauses p (e_clock (env_of w)) d) (expire_session p) (tick w) d = (Inr (), w2, d2)"
    and l: "for_each (elapsed_sessions p c2 d2) (elapse_session p) (tick w2) d2 = (Inr (), w', d')"
    using run unfolding complete_elapsed_session_def by (auto simp: tx_simps)
  have u: "sessions_unique (sessions d)" using inv by (simp add: sessions_inv_def)
  have "pair_run (tick w, d) (w2, d2)"
  proof (cases rule: stale_pauses_once [OF u, of p "e_clock (env_of w)"])
    case 1
    with e show ?thesis by (simp add: run_ret)
  next
    case (2 r)
    with e have "expire_session (fs_pair r) (fs_id r) (tick w) d = (Inr (), w2, d2)"
      by (auto simp: run_bind run_ret)
    then show ?thesis by (rule expire_run [OF _ inv 2(2,3)])
  qed
  then have 1: "pair_run (w, d) (w2, d2)" by (rule run_idle_before [rotated]) simp
  then have inv2: "sessions_inv d2" using inv pair_run_sessions_inv [of "(w, d)" "(w2, d2)"] by simp
  then have u2: "sessions_unique (sessions d2)" by (simp add: sessions_inv_def)
  have "pair_run (tick w2, d2) (w', d')"
  proof (cases rule: elapsed_sessions_once [OF u2, of p c2])
    case 1
    with l show ?thesis by (simp add: run_ret)
  next
    case (2 r)
    with l have "elapse_session (fs_pair r) (fs_id r, fs_ends_at r) (tick w2) d2 = (Inr (), w', d')"
      by (auto simp: run_bind run_ret)
    then show ?thesis by (rule elapse_run [OF _ inv2 2(2,3)])
  qed
  then have "pair_run (w2, d2) (w', d')" by (rule run_idle_before [rotated]) simp
  with 1 show ?thesis by (rule rtranclp_trans)
qed

section \<open>The command bodies\<close>

lemma notification_rows_fresh:
  "small_push pl \<Longrightarrow> \<forall>j \<in> set (notification_rows e d p a c k pl). fresh_job j"
  by (auto simp: notification_rows_def fresh_job_def unfinished_def)

lemma enqueue_run:
  assumes "enqueue_partner_notification p a c k pl w d = (Inr v, w', d')" and "small_push pl"
  shows "pair_run (w, d) (w', d')"
proof -
  obtain js where js: "w' = tick w" "jobs_unique (jobs d @ js)" "\<forall>j \<in> set js. fresh_job j"
      "d' = d\<lparr>jobs := jobs d @ js\<rparr>"
    using assms(1) notification_rows_fresh [OF assms(2)] unfolding enqueue_partner_notification_def
    by (auto simp: tx_simps insert_jobs_def)
  then have "pair_step (w, d) (w', d')" by (simp add: pair_step.queue)
  then show ?thesis ..
qed

text \<open>A new session with its founder, read back and announced, is one \<open>begin_session\<close>.\<close>

lemma begin_run:
  assumes ok: "row_ok r" "fs_version r = 1"
      "fs_state r = SessionOpen \<or> fs_state r = SessionCompleted \<and> fs_offline_origin r"
    and free: "active r \<longrightarrow> \<not> list_ex (\<lambda>s. fs_pair s = fs_pair r \<and> active s) (sessions d)"
    and mem: "pair_member (fs_pair r) (fs_started_by r) d"
    and ins: "insert_session r d = Inr d1"
    and insm: "insert_session_member \<lparr>sm_session = fs_id r, sm_account = fs_started_by r,
        sm_joined_at = fs_started_at r\<rparr> d1 = Inr d2"
    and w1: "advance w w1" and rd: "read_session (fs_id r) w1 d2 = (Inr s, w2, d3)"
    and ev: "append_pair_event (fs_pair r) ty (Some (fs_id r)) actor (PSession s) w2 d3 = (Inr c, w', d')"
  shows "pair_run (w, d) (w', d')"
proof -
  have d1: "d1 = d\<lparr>sessions := sessions d @ [r]\<rparr>" and new: "\<not> session_exists d (fs_id r)"
    and ex: "pair_exists d (fs_pair r)" "account_exists d (fs_started_by r)"
    using ins by (auto simp: insert_session_def write_sessions_def sessions_unique_def session_exists_def)
  have d2: "d2 = d\<lparr>sessions := sessions d @ [r], session_members := session_members d @
      [\<lparr>sm_session = fs_id r, sm_account = fs_started_by r, sm_joined_at = fs_started_at r\<rparr>]\<rparr>"
    using insm unfolding d1 by (auto simp: insert_session_member_def)
  obtain x where x: "x \<in> set (sessions d2)" "fs_id x = fs_id r" "s = session_view d2 x"
    "d3 = d2" "advance w1 w2" using rd by (rule read_session_run)
  then have "x = r" using new imageI [of x "set (sessions d)" fs_id] by (auto simp: d2 session_exists_def)
  with x have s: "s = session_view d2 r" by simp
  obtain t where t: "draws w2 w' c"
    "d' = add_event (fs_pair r) ty (Some (fs_id r)) actor (PSession s) c t d3"
    using ev by (rule append_run)
  have "draws w w' c" using w1 x(5) t(1) by (blast intro: draws_before)
  moreover have "active r \<longrightarrow> (\<forall>s \<in> set (sessions d). active s \<longrightarrow> fs_pair s \<noteq> fs_pair r)"
    using free by (auto simp: list_ex_iff)
  ultimately have "pair_step (w, d) (w', d')"
    unfolding t(2) x(4) s using ok new ex mem d2 by (intro pair_step.begin_session)
  then show ?thesis ..
qed

lemma started_row_ok: "row_ok (started_row i p a now c)"
  by (simp add: row_ok_def started_row_def phase_of_def)

lemma imported_row_ok: "row_ok (imported_row i p a s e c)"
  by (simp add: row_ok_def imported_row_def phase_of_def)

lemma start_body_run:
  assumes run: "start_body idn p i w d = (Inr s, w', d')" and inv: "sessions_inv d"
  shows "pair_run (w, d) (w', d')"
proof -
  obtain w1 d1 w2 d2 now clock d3 d4 w6 d6 w7 c d7 where
    m: "require_pair_member p (id_account idn) w d = (Inr (), w1, d1)" and
    e: "complete_elapsed_session p w1 d1 = (Inr (), w2, d2)" and
    free: "\<not> list_ex (\<lambda>s. fs_pair s = p \<and> active s) (sessions d2)" and
    ins: "insert_session (started_row i p (id_account idn) now clock) d2 = Inr d3" and
    insm: "insert_session_member \<lparr>sm_session = i, sm_account = id_account idn,
      sm_joined_at = micros now\<rparr> d3 = Inr d4" and
    rd: "read_session i (tick (tick (tick (tick w2)))) d4 = (Inr s, w6, d6)" and
    ev: "append_pair_event p ''session.started'' (Some i) (Some (id_account idn)) (PSession s) w6 d6
      = (Inr c, w7, d7)" and
    q: "enqueue_partner_notification p (id_account idn) c ''focus_started'' focus_started_push w7 d7
      = (Inr (), w', d')"
    using run unfolding start_body_def by (auto simp: tx_simps split: if_splits)
  have w1: "w1 = tick w" "d1 = d" and mem: "pair_member p (id_account idn) d"
    using require_member_run [OF m] by auto
  then have 1: "pair_run (w, d) (w2, d2)"
    using complete_elapsed_run [OF e] inv by (auto intro: run_idle_before)
  then have mem2: "pair_member p (id_account idn) d2" using mem by (rule pair_run_member)
  let ?r = "started_row i p (id_account idn) now clock"
  have "pair_run (w2, d2) (w7, d7)"
    using begin_run [of ?r d2 d3 d4 w2 "tick (tick (tick (tick w2)))" s w6 d6 "''session.started''" "Some (id_account idn)" c w7 d7]
      started_row_ok free mem2 ins insm rd ev by (simp add: started_row_def advance_tickD)
  with 1 enqueue_run [OF q] show ?thesis
    by (simp add: small_push_def focus_started_push_def)
qed

lemma import_body_run:
  assumes run: "import_body idn p i s0 e0 w d = (Inr s, w', d')"
  shows "pair_run (w, d) (w', d')"
proof -
  obtain w1 d1 clock d3 d4 w6 d6 c where
    m: "require_pair_member p (id_account idn) w d = (Inr (), w1, d1)" and
    ins: "insert_session (imported_row i p (id_account idn) s0 e0 clock) d1 = Inr d3" and
    insm: "insert_session_member \<lparr>sm_session = i, sm_account = id_account idn,
      sm_joined_at = micros s0\<rparr> d3 = Inr d4" and
    rd: "read_session i (tick (tick w1)) d4 = (Inr s, w6, d6)" and
    ev: "append_pair_event p ''session.completed'' (Some i) (Some (id_account idn)) (PSession s) w6 d6
      = (Inr c, w', d')"
    using run unfolding import_body_def by (auto simp: tx_simps)
  have w1: "w1 = tick w" "d1 = d" and mem: "pair_member p (id_account idn) d"
    using require_member_run [OF m] by auto
  show ?thesis
    using begin_run [of "imported_row i p (id_account idn) s0 e0 clock" d d3 d4 w "tick (tick w1)" s w6 d6
        "''session.completed''" "Some (id_account idn)" c w' d']
      imported_row_ok mem ins insm rd ev
    by (simp add: imported_row_def advance_tickD w1 active_def active_state_def)
qed

lemma read_for_update_run:
  assumes "read_session_for_update i p w d = (Inr s, w', d')" and "sessions_unique (sessions d)"
  obtains r where "r \<in> set (sessions d)" and "fs_id r = i" and "fs_pair r = p"
    and "s = session_view d r" and "d' = d" and "advance w w'"
proof -
  obtain x where x: "x \<in> set (sessions d)" "fs_id x = i" "fs_pair x = p"
    and rd: "read_session (fs_id x) (tick w) d = (Inr s, w', d')"
    using assms(1) unfolding read_session_for_update_def
    by (auto simp: tx_simps split: option.splits dest!: find_Some_in)
  obtain r where r: "r \<in> set (sessions d)" "fs_id r = fs_id x" "s = session_view d r" "d' = d"
      "advance (tick w) w'"
    using rd by (rule read_session_run)
  have "r = x" using assms(2) r(1,2) x(1) distinct_key_eq [of fs_id "sessions d" r x]
    by (simp add: sessions_unique_def)
  with r x that [of x] show thesis
    by (meson advance_tick advance_trans)
qed

lemma session_view_simps [simp]:
  "ses_id (session_view d r) = fs_id r" "ses_state (session_view d r) = fs_state r"
  "ses_pair (session_view d r) = fs_pair r"
  "ses_pause_origin (session_view d r) = fs_pause_origin r"
  "ses_started_by (session_view d r) = fs_started_by r"
  "ses_ends_at (session_view d r) = fs_ends_at r"
  "ses_paused_at (session_view d r) = fs_paused_at r"
  "ses_version (session_view d r) = fs_version r"
  by (simp_all add: session_view_def session_of_row_def)

text \<open>
  Every action's statements amount to one row step of the session and, for a join, the
  partner's arrival.
\<close>

definition action_row ::
  "session_action \<Rightarrow> session_state \<Rightarrow> session_state option \<Rightarrow> time \<Rightarrow> session_row \<Rightarrow> session_row" where
  "action_row action next origin now r = (case action of
       ActionJoin \<Rightarrow> joined_row next now r
     | ActionPause \<Rightarrow> paused_row origin now r
     | ActionResume \<Rightarrow> (case fs_paused_at r of None \<Rightarrow> r | Some t \<Rightarrow> resumed_row next now t r)
     | ActionComplete \<Rightarrow> completed_row now r
     | ActionCancel \<Rightarrow> cancelled_row now r
     | ActionExpire \<Rightarrow> expire_row (micros now) r)"

lemmas row_defs = joined_row_def paused_row_def resumed_row_def completed_row_def
  cancelled_row_def expire_row_def

lemma action_row_id [simp]: "fs_id (action_row a n p t r) = fs_id r"
  by (auto simp: action_row_def row_defs split: session_action.split option.split)

lemma action_row_step:
  assumes "next_state (fs_state r) (fs_pause_origin r) a = Inr (n, p)" and "row_ok r"
  shows "row_step r a (micros now) (action_row a n p now r)"
proof -
  have life: "life_step (phase_of r) a (n, p)"
    using assms(1) by (simp add: next_state_life_step phase_of_def)
  show ?thesis
  proof (cases a)
    case ActionResume
    then have "fs_state r = SessionPaused" using life by (auto simp: phase_of_def life_step_simps)
    then obtain t where "fs_paused_at r = Some t" using assms(2) by (auto simp: row_ok_def)
    with ActionResume life assms(2) show ?thesis
      by (auto simp: row_step_def action_row_def row_defs same_room_def phase_of_def life_step_simps row_ok_def)
  qed (use life assms(2) in \<open>auto simp: row_step_def action_row_def row_defs same_room_def phase_of_def
        life_step_simps row_ok_def split: option.split\<close>)
qed

lemma apply_action_run:
  assumes run: "apply_action idn (session_view d r) (fs_id r) a n p now w d = (Inr v, w', d')"
    and ns: "next_state (fs_state r) (fs_pause_origin r) a = Inr (n, p)"
    and inv: "sessions_inv d" and r: "r \<in> set (sessions d)" and mem: "pair_member (fs_pair r) (id_account idn) d"
  obtains ms where "newcomers d r a ms" and "advance w w'"
    and "d' = put_session (action_row a n p now r) (d\<lparr>session_members := session_members d @ ms\<rparr>)"
    and "ms \<noteq> [] \<longrightarrow> sm_account ` set ms = {id_account idn} \<and> now \<le> fs_ends_at r"
proof -
  have u: "sessions_unique (sessions d)" and ok: "row_ok r" using inv r by (auto simp: sessions_inv_def)
  note upd = update_sessions_run [where r = r]
  show thesis
  proof (cases a)
    case ActionJoin
    then obtain d1 where
      ins: "insert_session_member \<lparr>sm_session = fs_id r, sm_account = id_account idn,
        sm_joined_at = micros now\<rparr> d = Inr d1"
      and up: "update_sessions (\<lambda>s. fs_id s = fs_id r) (joined_row n now) d1 = Inr d'"
      and c: "fs_started_by r \<noteq> id_account idn" "now \<le> fs_ends_at r" and w': "w' = tick (tick w)"
      using run by (auto simp: apply_action_def tx_simps split: if_splits)
    let ?ms = "[\<lparr>sm_session = fs_id r, sm_account = id_account idn, sm_joined_at = micros now\<rparr>]"
    have d1: "d1 = d\<lparr>session_members := session_members d @ ?ms\<rparr>" "account_exists d (id_account idn)"
      "\<not> in_session d (fs_id r) (id_account idn)"
      using ins by (auto simp: insert_session_member_def in_session_def member_key_def)
    have "d' = put_session (joined_row n now r) d1"
      by (rule upd [OF up]) (use u r d1 in \<open>simp_all add: joined_row_def\<close>)
    then show thesis using ActionJoin d1 c mem w'
      by (intro that [of ?ms]) (auto simp: newcomers_def action_row_def advance_tickD)
  next
    case ActionResume
    then have st: "fs_state r = SessionPaused" using ns by (auto split: if_splits option.splits)
    then obtain t where t: "fs_paused_at r = Some t" using ok by (auto simp: row_ok_def)
    have "action_row a n p now
        = (\<lambda>s. case fs_paused_at s of None \<Rightarrow> s | Some t \<Rightarrow> resumed_row n now t s)"
      using ActionResume by (simp add: fun_eq_iff action_row_def)
    then have "update_sessions (\<lambda>s. fs_id s = fs_id r) (action_row a n p now) d = Inr d'" "w' = tick w"
      using run ActionResume t by (auto simp: apply_action_def tx_simps resume_sessions_def)
    then show thesis using ActionResume u r upd [of "action_row a n p now" d d']
      by (intro that [of "[]"]) (auto simp: newcomers_def)
  qed (use run u r in \<open>auto simp: apply_action_def tx_simps newcomers_def action_row_def row_defs
      dest!: upd intro!: that [of "[]"]\<close>)
qed

text \<open>
  What a committed transition does: the session named by the request, of the caller's pair and
  at the expected version, takes the step the state machine allows.
\<close>

lemma transition_body_effect:
  assumes run: "transition_body idn p i v a w d = (Inr s, w', d')" and inv: "sessions_inv d"
  obtains r n q now ms d1 c t where "r \<in> set (sessions d)" and "fs_id r = i" and "fs_pair r = p"
    and "fs_version r = v" and "next_state (fs_state r) (fs_pause_origin r) a = Inr (n, q)"
    and "pair_member p (id_account idn) d" and "newcomers d r a ms"
    and "d1 = put_session (action_row a n q now r) (d\<lparr>session_members := session_members d @ ms\<rparr>)"
    and "ms \<noteq> [] \<longrightarrow> sm_account ` set ms = {id_account idn} \<and> now \<le> fs_ends_at r"
    and "s = session_view d1 (action_row a n q now r)"
    and "d' = add_event p (event_type a) (Some i) (Some (id_account idn)) (PSession s) c t d1"
    and "draws w w' c"
proof -
  obtain w1 d1 w2 d2 cur n q w3 d3 w4 d4 c where
    m: "require_pair_member p (id_account idn) w d = (Inr (), w1, d1)" and
    cu: "read_session_for_update i p w1 d1 = (Inr cur, w2, d2)" and ver: "ses_version cur = v" and
    ns: "next_state (ses_state cur) (ses_pause_origin cur) a = Inr (n, q)" and
    ap: "apply_action idn cur i a n q (w_now w2 (w_step w2)) (tick w2) d2 = (Inr (), w3, d3)" and
    rd: "read_session i w3 d3 = (Inr s, w4, d4)" and
    ev: "append_pair_event p (event_type a) (Some i) (Some (id_account idn)) (PSession s) w4 d4
      = (Inr c, w', d')"
    using run unfolding transition_body_def
    by (auto simp: tx_simps split: if_splits sum.splits prod.splits)
  have w1: "w1 = tick w" "d1 = d" and mem: "pair_member p (id_account idn) d"
    using require_member_run [OF m] by auto
  have u: "sessions_unique (sessions d)" using inv by (simp add: sessions_inv_def)
  obtain r where r: "r \<in> set (sessions d)" "fs_id r = i" "fs_pair r = p" "cur = session_view d r"
      "d2 = d" "advance w1 w2"
    using cu u unfolding w1 by (rule read_for_update_run)
  let ?now = "w_now w2 (w_step w2)"
  have ns': "next_state (fs_state r) (fs_pause_origin r) a = Inr (n, q)" using ns r(4) by simp
  obtain ms where ms: "newcomers d r a ms" "advance (tick w2) w3"
    "d3 = put_session (action_row a n q ?now r) (d\<lparr>session_members := session_members d @ ms\<rparr>)"
    "ms \<noteq> [] \<longrightarrow> sm_account ` set ms = {id_account idn} \<and> ?now \<le> fs_ends_at r"
    using ap ns' inv r(1) mem r(2-5) by (auto elim!: apply_action_run [of idn d r])
  obtain x where x: "x \<in> set (sessions d3)" "fs_id x = i" "s = session_view d3 x" "d4 = d3"
      "advance w3 w4" using rd by (rule read_session_run)
  then have "x = action_row a n q ?now r" using ms(3) r(2) by (intro put_session_only) auto
  with x have s: "s = session_view d3 (action_row a n q ?now r)" by simp
  obtain t where t: "draws w4 w' c"
    "d' = add_event p (event_type a) (Some i) (Some (id_account idn)) (PSession s) c t d4"
    using ev by (rule append_run)
  have "advance w w4" using w1 r(6) ms(2) x(5) by (meson advance_tick advance_trans)
  then have "draws w w' c" using t(1) by (rule draws_before)
  then show thesis
    using that [OF r(1-3) _ ns' mem ms(1) ms(3) ms(4) s] t(2) x(4) ver r(4) by auto
qed

lemma transition_body_run:
  assumes run: "transition_body idn p i v a w d = (Inr s, w', d')" and inv: "sessions_inv d"
  shows "pair_run (w, d) (w', d')"
  using run inv
proof (rule transition_body_effect)
  fix r n q now ms d1 c t
  assume r: "r \<in> set (sessions d)" "fs_id r = i" "fs_pair r = p"
    and ns: "next_state (fs_state r) (fs_pause_origin r) a = Inr (n, q)"
    and ms: "newcomers d r a ms"
    and d1: "d1 = put_session (action_row a n q now r) (d\<lparr>session_members := session_members d @ ms\<rparr>)"
    and s: "s = session_view d1 (action_row a n q now r)"
    and d': "d' = add_event p (event_type a) (Some i) (Some (id_account idn)) (PSession s) c t d1"
    and c: "draws w w' c"
  have "row_ok r" using inv r(1) by (simp add: sessions_inv_def)
  with ns have "row_step r a (micros now) (action_row a n q now r)" by (rule action_row_step)
  then have "pair_step (w, d) (w', d')"
    unfolding d' s r(2) [symmetric] r(3) [symmetric] by (rule pair_step.act [OF c r(1) _ ms d1])
  then show ?thesis ..
qed

section \<open>Notes and cheers\<close>

text \<open>
  The identity a request carries was read from \<open>accounts\<close> when its token was validated; the
  display name of an account never changes afterwards.
\<close>

definition identity_of :: "auth_identity \<Rightarrow> db \<Rightarrow> account_row option" where
  "identity_of idn d = List.find (\<lambda>a. ac_id a = id_account idn \<and>
     ac_display_name a = id_display_name idn) (accounts d)"

definition known :: "auth_identity \<Rightarrow> db \<Rightarrow> bool" where
  "known idn d \<longleftrightarrow> identity_of idn d \<noteq> None"

lemma known_cong: "accounts d' = accounts d \<Longrightarrow> known idn d' = known idn d"
  by (simp add: known_def identity_of_def)

lemma note_body_run:
  assumes run: "note_body idn p i b w d = (Inr n, w', d')" and inv: "sessions_inv d"
    and kn: "known idn d"
  shows "pair_run (w, d) (w', d')"
proof -
  obtain w1 d1 nid t d3 w4 d4 c where
    m: "require_pair_member p (id_account idn) w d = (Inr (), w1, d1)" and
    ex: "list_ex (\<lambda>s. fs_id s = i \<and> fs_pair s = p \<and> fs_state s \<noteq> SessionCancelled) (sessions d1)" and
    t: "t = w_clock w1 (Suc (Suc (w_step w1)))" and
    ins: "insert_note \<lparr>nt_id = nid, nt_session = i, nt_account = id_account idn, nt_body = b,
        nt_created_at = t\<rparr> d1 = Inr d3" and
    n: "n = \<lparr>sn_id = nid, sn_account = id_account idn, sn_display_name = id_display_name idn,
        sn_body = b, sn_created_at = t\<rparr>" and
    ev: "append_pair_event p ''session.note_added'' (Some i) (Some (id_account idn)) (PNote n)
        (tick (tick (tick w1))) d3 = (Inr c, w4, d4)" and
    q: "enqueue_partner_notification p (id_account idn) c ''partner_note'' partner_note_push w4 d4
        = (Inr (), w', d')"
    using run unfolding note_body_def
    by (auto simp: tx_simps tick_simps split: if_splits sum.splits)
  have w1: "w1 = tick w" "d1 = d" and mem: "pair_member p (id_account idn) d"
    using require_member_run [OF m] by auto
  obtain r where r: "r \<in> set (sessions d)" "fs_id r = i" "fs_pair r = p" "fs_state r \<noteq> SessionCancelled"
    using ex w1 by (auto simp: list_ex_iff)
  obtain a where a: "a \<in> set (accounts d)" "ac_id a = id_account idn"
    "ac_display_name a = id_display_name idn"
    using kn by (auto simp: known_def identity_of_def dest!: find_Some_in)
  obtain tc where tc: "draws (tick (tick (tick w1))) w4 c"
    "d4 = add_event p ''session.note_added'' (Some i) (Some (id_account idn)) (PNote n) c tc d3"
    using ev by (rule append_run)
  have adv: "advance w (tick (tick w1))" by (simp add: w1 advance_tickD)
  have dr: "draws w w4 c" using tc(1) adv by (auto intro: draws_before advance_tickD)
  have rd: "reads w w4 t"
    using reads_tick [OF adv, of w4] tc(1) by (simp add: t draws_def tick_def)
  have "pair_step (w, d) (w4, d4)"
    using pair_step.leave_note [OF dr rd r(1,4) a(1), of "\<lparr>nt_id = nid, nt_session = i,
        nt_account = id_account idn, nt_body = b, nt_created_at = t\<rparr>" d3] ins w1 mem r a
    unfolding tc(2) n by (simp add: insert_note_def)
  with enqueue_run [OF q] show ?thesis
    by (simp add: small_push_def partner_note_push_def)
qed

text \<open>Clock readings of the database do not go backwards.\<close>

definition clock_ok :: "world \<Rightarrow> bool" where
  "clock_ok w \<longleftrightarrow> mono (w_clock w)"

lemma clock_ok_advance: "advance w w' \<Longrightarrow> clock_ok w' = clock_ok w"
  by (simp add: clock_ok_def advance_def)

lemma cheer_body_run:
  assumes run: "cheer_body idn p i w d = (Inr v, w', d')" and ck: "clock_ok w"
  shows "pair_run (w, d) (w', d')"
proof -
  obtain r cid t d3 c where
    f: "List.find (\<lambda>s. fs_id s = i \<and> fs_pair s = p) (sessions d) = Some r" and
    st: "fs_state r \<in> {SessionTogether, SessionPaused}" and
    rec: "\<not> list_ex (\<lambda>x. rx_session x = i \<and> rx_account x = id_account idn \<and>
      w_clock w (Suc (w_step w)) - 30 * second < rx_created_at x) (reactions d)" and
    t: "t = w_clock w (Suc (Suc (Suc (w_step w))))" and
    ins: "insert_reaction \<lparr>rx_id = cid, rx_session = i, rx_account = id_account idn,
        rx_created_at = t\<rparr> d = Inr d3" and
    ev: "append_pair_event p ''session.cheered'' (Some i) (Some (id_account idn))
        (PCheer \<lparr>chr_id = cid, chr_created_at = t\<rparr>) (tick (tick (tick (tick w)))) d3 = (Inr c, w', d')"
    using run unfolding cheer_body_def
    by (auto simp: tx_simps tick_simps split: if_splits sum.splits option.splits)
  let ?x = "\<lparr>rx_id = cid, rx_session = i, rx_account = id_account idn, rx_created_at = t\<rparr>"
  have r: "r \<in> set (sessions d)" "fs_id r = i" "fs_pair r = p" using f by (auto dest!: find_Some_in)
  have "w_clock w (Suc (w_step w)) \<le> t" using ck by (simp add: t clock_ok_def mono_def)
  then have sp: "\<forall>y \<in> set (reactions d). rx_session y = fs_id r \<and> rx_account y = rx_account ?x \<longrightarrow>
      rx_created_at y + 30 * second \<le> rx_created_at ?x"
    using rec r(2) by (force simp: list_ex_iff not_less)
  obtain tc where tc: "draws (tick (tick (tick (tick w)))) w' c"
    "d' = add_event p ''session.cheered'' (Some i) (Some (id_account idn))
      (PCheer \<lparr>chr_id = cid, chr_created_at = t\<rparr>) c tc d3"
    using ev by (rule append_run)
  have dr: "draws w w' c" using tc(1) by (rule draws_before [rotated]) (simp add: advance_tickD)
  have "pair_step (w, d) (w', d')"
    unfolding tc(2) r(2) [symmetric] r(3) [symmetric]
    by (rule pair_step.cheer [OF dr r(1) st _ sp]) (use ins r in \<open>auto simp: insert_reaction_def\<close>)
  then show ?thesis ..
qed

section \<open>Commands\<close>

text \<open>What a refinement needs of the moment it starts in; every change keeps it.\<close>

definition sound :: "moment \<Rightarrow> bool" where
  "sound s \<longleftrightarrow> clock_ok (fst s) \<and> sessions_inv (snd s)"

lemma sound_advance: "sound (w, d) \<Longrightarrow> advance w w' \<Longrightarrow> sound (w', d)"
  by (simp add: sound_def clock_ok_advance)

lemma sound_step: "pair_step s t \<Longrightarrow> sound s \<Longrightarrow> sound t"
  using pair_step_advance [of s t] sessions_inv_step [of s t] by (simp add: sound_def clock_ok_advance)

lemma transaction_run:
  assumes "transaction body w d = (r, w', d')" and "advances body" and "sound (w, d)"
    and "\<And>w1 v w2. sound (w1, d) \<Longrightarrow> body w1 d = (Inr (Commit v), w2, d') \<Longrightarrow> pair_run (w1, d) (w2, d')"
  shows "pair_run (w, d) (w', d')"
  using assms(1,2)
proof (cases rule: transaction_cases)
  case unchanged
  then show ?thesis by (simp add: run_idle)
next
  case (committed v w1 w2)
  have "pair_run (w1, d) (w2, d')"
    using assms(4) sound_advance [OF assms(3) committed(1)] committed(2) by blast
  then show ?thesis using committed(1,3) by (blast intro: run_idle_before run_idle_after)
qed

lemma save_run:
  assumes "save_idempotency a k op x w d = (Inr v, w', d')" and "response_fits op x"
  shows "pair_run (w, d) (w', d')"
proof -
  have "pair_step (w, d) (w', d')"
    using assms unfolding save_idempotency_def
    by (auto simp: tx_simps insert_idempotency_def intro!: pair_step.store_key)
  then show ?thesis ..
qed

lemma idempotent_run:
  assumes run: "idempotent_tx a k op dec enc body w d = (r, w', d')" and "advances body"
    and s: "sound (w, d)" and fit: "\<And>x. response_fits op (enc x)"
    and body: "\<And>w1 v w2 d2. sound (w1, d) \<Longrightarrow> body w1 d = (Inr v, w2, d2) \<Longrightarrow>
      pair_run (w1, d) (w2, d2)"
  shows "pair_run (w, d) (w', d')"
  using run unfolding idempotent_tx_def
proof (rule transaction_run)
  show "advances (idempotent_body a k op dec enc body)"
    unfolding idempotent_body_def by (intro adv_intros assms(2))
next
  fix w1 v w2
  assume s1: "sound (w1, d)"
    and "idempotent_body a k op dec enc body w1 d = (Inr (Commit v), w2, d')"
  then obtain w3 x w4 d4 where g: "get_idempotency a k op dec w1 d = (Inr None, w3, d)"
    and b: "body w3 d = (Inr x, w4, d4)"
    and sv: "save_idempotency a k op (enc x) w4 d4 = (Inr (), w2, d')"
    unfolding idempotent_body_def get_idempotency_def
    by (auto simp: tx_simps split: option.splits if_splits)
  have adv: "advance w1 w3" using g advances_get_idempotency by (blast dest: advancesD)
  have "pair_run (w3, d) (w4, d4)" using s1 adv b by (blast intro: body sound_advance)
  moreover have "pair_run (w4, d4) (w2, d')" using sv fit by (rule save_run)
  ultimately show "pair_run (w1, d) (w2, d')" using adv by (meson run_idle_before rtranclp_trans)
qed (rule s)

lemma advances_append [adv_intros]: "advances (append_pair_event p ty en ac pl)"
  unfolding append_pair_event_def by (intro adv_intros)

lemma advances_read_session [adv_intros]: "advances (read_session i)"
  unfolding read_session_def by (intro adv_intros)

lemma advances_read_for_update [adv_intros]: "advances (read_session_for_update i p)"
  unfolding read_session_for_update_def by (intro adv_intros)

lemma advances_require_member [adv_intros]: "advances (require_pair_member p a)"
  unfolding require_pair_member_def by (intro adv_intros)

lemma advances_enqueue [adv_intros]: "advances (enqueue_partner_notification p a c k pl)"
  unfolding enqueue_partner_notification_def by (intro adv_intros)

lemma advances_complete_elapsed [adv_intros]: "advances (complete_elapsed_session p)"
  unfolding complete_elapsed_session_def expire_session_def elapse_session_def
  by (intro adv_intros)

lemma advances_apply_action [adv_intros]: "advances (apply_action idn cur i a n q now)"
  unfolding apply_action_def by (cases a) (auto intro!: adv_intros)

lemma advances_bodies [adv_intros]:
  "advances (start_body idn p i)" "advances (import_body idn p i s e)"
  "advances (transition_body idn p i v a)" "advances (note_body idn p i b)"
  "advances (cheer_body idn p i)"
  unfolding start_body_def import_body_def transition_body_def note_body_def cheer_body_def
  by (intro adv_intros)+

lemma start_session_run:
  assumes "start_session idn key i w d = (r, w', d')" and "sound (w, d)"
  shows "pair_run (w, d) (w', d')"
proof (cases "id_pair idn")
  case None
  with assms(1) show ?thesis by (simp add: start_session_def raise_def)
next
  case (Some p)
  with assms(1) have run: "idempotent_tx (id_account idn) key ''session.start'' session_of RSession
      (start_body idn p i) w d = (r, w', d')" by (simp add: start_session_def)
  show ?thesis
    by (rule idempotent_run [OF run advances_bodies(1) assms(2)])
       (auto simp: sound_def intro: start_body_run)
qed

lemma import_solo_session_run:
  assumes "import_solo_session idn key i s e w d = (r, w', d')" and "sound (w, d)"
  shows "pair_run (w, d) (w', d')"
proof -
  have "d' = d \<and> advance w w' \<or> (\<exists>p. idempotent_tx (id_account idn) key ''session.import_solo''
      session_of RSession (import_body idn p i s e) (tick w) d = (r, w', d'))"
    using assms(1) unfolding import_solo_session_def
    by (auto simp: raise_def bind_tx_def go_now_def split: option.splits if_splits)
  then show ?thesis
  proof (elim disjE exE conjE)
    fix p
    assume run: "idempotent_tx (id_account idn) key ''session.import_solo'' session_of RSession
      (import_body idn p i s e) (tick w) d = (r, w', d')"
    have "pair_run (tick w, d) (w', d')"
      by (rule idempotent_run [OF run advances_bodies(2) sound_advance [OF assms(2) advance_tick]])
         (auto intro: import_body_run)
    then show ?thesis by (rule run_idle_before [OF advance_tick])
  qed (simp add: run_idle)
qed

lemma transition_session_run:
  assumes "transition_session idn i key v a w d = (r, w', d')" and "sound (w, d)"
  shows "pair_run (w, d) (w', d')"
proof (cases "id_pair idn")
  case None
  with assms(1) show ?thesis by (simp add: transition_session_def raise_def)
next
  case (Some p)
  with assms(1) have run: "idempotent_tx (id_account idn) key (operation_name a) session_of RSession
      (transition_body idn p i v a) w d = (r, w', d')" by (simp add: transition_session_def)
  have "response_fits (operation_name a) (RSession x)" for x
    by (cases a) (simp_all add: operation_name_def)
  then show ?thesis
    by (rule idempotent_run [OF run advances_bodies(3) assms(2)])
       (auto simp: sound_def intro: transition_body_run)
qed

lemma join_session_run:
  "join_session idn i key v w d = (r, w', d') \<Longrightarrow> sound (w, d) \<Longrightarrow> pair_run (w, d) (w', d')"
  unfolding join_session_def by (rule transition_session_run)

lemma add_note_run:
  assumes "add_note idn i key b w d = (r, w', d')" and "sound (w, d)" and "known idn d"
  shows "pair_run (w, d) (w', d')"
proof (cases "id_pair idn")
  case None
  with assms(1) show ?thesis by (simp add: add_note_def raise_def)
next
  case (Some p)
  with assms(1) have run: "idempotent_tx (id_account idn) key ''session.note'' note_of RNote
      (note_body idn p i b) w d = (r, w', d')" by (simp add: add_note_def)
  show ?thesis
    by (rule idempotent_run [OF run advances_bodies(4) assms(2)])
       (auto simp: sound_def intro: note_body_run assms(3))
qed

lemma add_cheer_run:
  assumes "add_cheer idn i key w d = (r, w', d')" and "sound (w, d)"
  shows "pair_run (w, d) (w', d')"
proof (cases "id_pair idn")
  case None
  with assms(1) show ?thesis by (simp add: add_cheer_def raise_def)
next
  case (Some p)
  with assms(1) have run: "idempotent_tx (id_account idn) key ''session.cheer'' cheer_of RCheer
      (cheer_body idn p i) w d = (r, w', d')" by (simp add: add_cheer_def)
  show ?thesis
    by (rule idempotent_run [OF run advances_bodies(5) assms(2)])
       (auto simp: sound_def intro: cheer_body_run)
qed

lemma advances_current_body [adv_intros]: "advances (current_body p)"
  unfolding current_body_def
  by (intro adv_intros; rename_tac f; case_tac f) (auto intro!: adv_intros)

text \<open>After the two loops the answer is the newest active session, if there is one.\<close>

lemma current_body_effect:
  assumes "current_body p w d = (Inr out, w', d')"
  obtains w1 where "complete_elapsed_session p w d = (Inr (), w1, d')" and "advance w1 w'"
    and "out = Commit None \<and> active_ids p d' = [] \<or>
      (\<exists>i rest r. active_ids p d' = i # rest \<and> r \<in> set (sessions d') \<and> fs_id r = i \<and>
        out = Commit (Some (session_view d' r)))"
proof -
  obtain w1 d1 where c: "complete_elapsed_session p w d = (Inr (), w1, d1)"
    and rest: "(case active_ids p d1 of [] \<Rightarrow> commit None
      | i # _ \<Rightarrow> bind_tx (read_session i) (\<lambda>s. commit (Some s))) (tick w1) d1 = (Inr out, w', d')"
    using assms unfolding current_body_def by (auto simp: tx_simps)
  show thesis
  proof (cases "active_ids p d1")
    case Nil
    with rest c that show thesis by (auto simp: tx_simps)
  next
    case (Cons i rs)
    with rest obtain s where s: "read_session i (tick w1) d1 = (Inr s, w', d')" "out = Commit (Some s)"
      by (auto simp: tx_simps)
    from s(1) show thesis
      by (rule read_session_run)
        (use Cons s(2) c that [of w1] in \<open>auto intro: advance_trans [OF advance_tick]\<close>)
  qed
qed

lemma current_session_run:
  assumes "current_session idn w d = (r, w', d')" and "sound (w, d)"
  shows "pair_run (w, d) (w', d')"
proof (cases "id_pair idn")
  case None
  with assms show ?thesis by (simp add: current_session_def ret_def)
next
  case (Some p)
  with assms(1) have "transaction (current_body p) w d = (r, w', d')"
    by (simp add: current_session_def)
  then show ?thesis
    by (rule transaction_run [OF _ advances_current_body assms(2)])
       (auto simp: sound_def elim!: current_body_effect intro: run_idle_after complete_elapsed_run)
qed

section \<open>Pairing\<close>

lemma advances_invite_body [adv_intros]: "advances (invite_body a i h e)"
  unfolding invite_body_def by (intro adv_intros)

lemma advances_accept_body [adv_intros]: "advances (accept_body a h)"
  unfolding accept_body_def by (intro adv_intros)

lemma invite_body_run:
  assumes "invite_body a i h e w d = (Inr out, w', d')"
  shows "pair_run (w, d) (w', d')"
proof -
  let ?v = "\<lparr>iv_id = i, iv_created_by = a, iv_token_hash = h, iv_expires_at = micros e,
      iv_accepted_by = None, iv_accepted_at = None, iv_revoked_at = None\<rparr>"
  obtain t where m: "\<not> list_ex (\<lambda>m. pm_account m = a) (members d)"
    and ins: "insert_invite ?v (d\<lparr>invites := update_where (\<lambda>v. iv_created_by v = a \<and> live_invite v)
           (\<lambda>v. v\<lparr>iv_revoked_at := Some t\<rparr>) (invites d)\<rparr>) = Inr d'"
    and w': "w' = tick (tick (tick w))"
    using assms unfolding invite_body_def by (auto simp: tx_simps split: if_splits)
  have known: "account_exists d a" using ins by (simp add: insert_invite_def account_exists_def)
  have ids: "map iv_id (update_where (\<lambda>v. iv_created_by v = a \<and> live_invite v)
        (\<lambda>v. v\<lparr>iv_revoked_at := Some t\<rparr>) (invites d)) = map iv_id (invites d)"
    "map iv_token_hash (update_where (\<lambda>v. iv_created_by v = a \<and> live_invite v)
        (\<lambda>v. v\<lparr>iv_revoked_at := Some t\<rparr>) (invites d)) = map iv_token_hash (invites d)"
    by (simp_all add: update_where_def)
  have "pair_step (w, d) (w', d')"
    using pair_step.invite [of w w' a d ?v t] m ins known w' arg_cong [OF ids(1), of set]
      arg_cong [OF ids(2), of set]
    by (auto simp: insert_invite_def live_invite_def list_ex_iff advance_tickD)
  then show ?thesis ..
qed

lemma create_pair_invite_run:
  "create_pair_invite a i h e w d = (r, w', d') \<Longrightarrow> sound (w, d) \<Longrightarrow> pair_run (w, d) (w', d')"
  unfolding create_pair_invite_def
  by (erule transaction_run) (auto intro: adv_intros invite_body_run)

text \<open>
  What a committed acceptance does: a live invitation with that token, made by another account,
  neither of the two in a pair, becomes a pair of the two and is used up.
\<close>

lemma accept_body_effect:
  assumes "accept_body a h w d = (Inr out, w', d')"
  obtains x pid t0 t1 t2 c tc where "x \<in> set (invites d)" and "iv_token_hash x = h"
    and "live_invite x" and "iv_created_by x \<noteq> a"
    and "a \<notin> pm_account ` set (members d)" and "iv_created_by x \<notin> pm_account ` set (members d)"
    and "account_exists d a" and "account_exists d (iv_created_by x)" and "\<not> pair_exists d pid"
    and "draws w w' c"
    and "d' = add_event pid ''pair.created'' (Some pid) (Some a) (PPairCreated pid [iv_created_by x, a]) c tc
      (d\<lparr>pairs := pairs d @ [\<lparr>pr_id = pid, pr_created_at = t0, pr_dissolved_at = None\<rparr>],
         members := members d @ [\<lparr>pm_pair = pid, pm_account = iv_created_by x, pm_joined_at = t1\<rparr>,
           \<lparr>pm_pair = pid, pm_account = a, pm_joined_at = t1\<rparr>],
         invites := update_where (\<lambda>v. iv_id v = iv_id x)
           (\<lambda>v. v\<lparr>iv_accepted_by := Some a, iv_accepted_at := Some t2\<rparr>) (invites d)\<rparr>)"
proof -
  let ?t = "\<lambda>n. w_clock w (n + w_step w)"
  obtain x pid d3 d4 c u where
    f: "List.find (\<lambda>v. iv_token_hash v = h \<and> ?t 0 < iv_expires_at v \<and> live_invite v) (invites d) = Some x"
    and ne: "iv_created_by x \<noteq> a"
    and cnt: "count_where (\<lambda>m. pm_account m \<in> {iv_created_by x, a}) (members d) = 0"
    and ip: "insert_pair \<lparr>pr_id = pid, pr_created_at = ?t 4, pr_dissolved_at = None\<rparr> d = Inr d3"
    and im: "insert_members [\<lparr>pm_pair = pid, pm_account = iv_created_by x, pm_joined_at = ?t 5\<rparr>,
          \<lparr>pm_pair = pid, pm_account = a, pm_joined_at = ?t 5\<rparr>] d3 = Inr d4"
    and ae: "account_exists d4 a"
    and ev: "append_pair_event pid ''pair.created'' (Some pid) (Some a)
         (PPairCreated pid [iv_created_by x, a]) u
         (d4\<lparr>invites := update_where (\<lambda>v. iv_id v = iv_id x)
           (\<lambda>v. v\<lparr>iv_accepted_by := Some a, iv_accepted_at := Some (?t 6)\<rparr>)
           (invites d4)\<rparr>) = (Inr c, w', d')"
    and adv: "advance w u"
    using assms unfolding accept_body_def
    by (auto simp: tx_simps tick_simps advance_def numeral_eq_Suc
        split: if_splits sum.splits option.splits)
  have x: "x \<in> set (invites d)" "iv_token_hash x = h" "live_invite x"
    using f by (auto dest!: find_Some_in)
  have nm: "a \<notin> pm_account ` set (members d)" "iv_created_by x \<notin> pm_account ` set (members d)"
    using cnt by (auto simp: count_where_0_iff)
  obtain tc where tc: "draws u w' c"
    "d' = add_event pid ''pair.created'' (Some pid) (Some a) (PPairCreated pid [iv_created_by x, a]) c tc
      (d4\<lparr>invites := update_where (\<lambda>v. iv_id v = iv_id x)
           (\<lambda>v. v\<lparr>iv_accepted_by := Some a, iv_accepted_at := Some (?t 6)\<rparr>) (invites d4)\<rparr>)"
    using ev by (rule append_run)
  have dr: "draws w w' c" using adv tc(1) by (rule draws_before)
  have d4: "d4 = d\<lparr>pairs := pairs d @ [\<lparr>pr_id = pid, pr_created_at = ?t 4, pr_dissolved_at = None\<rparr>],
         members := members d @ [\<lparr>pm_pair = pid, pm_account = iv_created_by x, pm_joined_at = ?t 5\<rparr>,
           \<lparr>pm_pair = pid, pm_account = a, pm_joined_at = ?t 5\<rparr>]\<rparr>"
    "\<not> pair_exists d pid" "account_exists d a" "account_exists d (iv_created_by x)"
    using ip im by (auto simp: insert_pair_def insert_members_def pair_exists_def account_exists_def)
  show thesis
    using that [OF x ne nm d4(3,4,2) dr, of tc "?t 6" "?t 5" "?t 4"] tc(2) by (simp add: d4(1))
qed

lemma accept_body_run:
  assumes "accept_body a h w d = (Inr out, w', d')"
  shows "pair_run (w, d) (w', d')"
  using assms
proof (rule accept_body_effect)
  fix x pid t0 t1 t2 c tc
  assume *: "x \<in> set (invites d)" "live_invite x" "iv_created_by x \<noteq> a"
    "a \<notin> pm_account ` set (members d)" "iv_created_by x \<notin> pm_account ` set (members d)"
    "account_exists d a" "account_exists d (iv_created_by x)" "\<not> pair_exists d pid" "draws w w' c"
  let ?p = "\<lparr>pr_id = pid, pr_created_at = t0, pr_dissolved_at = None\<rparr>"
  assume d': "d' = add_event pid ''pair.created'' (Some pid) (Some a) (PPairCreated pid [iv_created_by x, a]) c tc
      (d\<lparr>pairs := pairs d @ [?p],
         members := members d @ [\<lparr>pm_pair = pid, pm_account = iv_created_by x, pm_joined_at = t1\<rparr>,
           \<lparr>pm_pair = pid, pm_account = a, pm_joined_at = t1\<rparr>],
         invites := update_where (\<lambda>v. iv_id v = iv_id x)
           (\<lambda>v. v\<lparr>iv_accepted_by := Some a, iv_accepted_at := Some t2\<rparr>) (invites d)\<rparr>)"
  have "pair_step (w, d) (w', d')"
    unfolding d' using pair_step.make_pair [OF *(9,1-7), of ?p _ t2 t1] *(8) by simp
  then show ?thesis ..
qed

lemma accept_pair_invite_run:
  "accept_pair_invite a h w d = (r, w', d') \<Longrightarrow> sound (w, d) \<Longrightarrow> pair_run (w, d) (w', d')"
  unfolding accept_pair_invite_def
  by (erule transaction_run) (auto intro: adv_intros accept_body_run)

section \<open>Reads\<close>

lemma map_each_unchanged:
  assumes "\<And>x w d r w' d'. f x w d = (r, w', d') \<Longrightarrow> d' = d"
  shows "map_each xs f w d = (r, w', d') \<Longrightarrow> d' = d"
proof (induction xs arbitrary: w r w')
  case Nil
  then show ?case by (simp add: ret_def)
next
  case (Cons x xs)
  then show ?case using assms
    by (auto simp: bind_tx_def ret_def split: prod.splits sum.splits) (metis)+
qed

lemma sql_unchanged: "select q w d = (r, w', d') \<Longrightarrow> d' = d"
  by (auto simp: select_def sql_def split: option.splits)

lemma read_session_unchanged: "read_session i w d = (r, w', d') \<Longrightarrow> d' = d"
  unfolding read_session_def
  by (auto simp: bind_tx_def ret_def raise_def dest!: sql_unchanged
      split: prod.splits sum.splits option.splits)

lemma map_each_read_unchanged: "map_each xs read_session w d = (r, w', d') \<Longrightarrow> d' = d"
  by (rule map_each_unchanged) (auto dest: read_session_unchanged)

lemma session_history_unchanged: "session_history idn b l w d = (r, w', d') \<Longrightarrow> d' = d"
  unfolding session_history_def
  by (auto simp: bind_tx_def ret_def go_now_def dest!: sql_unchanged
      map_each_read_unchanged split: prod.splits sum.splits option.splits)

lemma pair_events_unchanged: "pair_events idn c l w d = (r, w', d') \<Longrightarrow> d' = d"
  unfolding pair_events_def
  by (auto simp: bind_tx_def ret_def dest!: sql_unchanged split: prod.splits sum.splits option.splits)

lemma pair_unchanged: "pair a w d = (r, w', d') \<Longrightarrow> d' = d"
  unfolding pair_def
  by (auto simp: bind_tx_def ret_def raise_def dest!: sql_unchanged
      split: prod.splits sum.splits option.splits list.splits)

end
