(* ===== verification/Replay.thy ===== *)
theory Replay
  imports PairInvariants
begin

text \<open>
  What a device makes of the pair log. The reducer is \<open>_applyEvent\<close> of
  \<open>mobile/lib/core/sync/sync_engine.dart\<close> over the local session table of
  \<open>app_database.dart\<close>; here it is applied to the whole log of a pair, and the table it builds is
  shown to be the server's own view of the pair's sessions.
\<close>

section \<open>The reducer\<close>

text \<open>\<open>insertOnConflictUpdate\<close> and \<open>sessionById\<close> on the local table.\<close>

definition upsert_session :: "focus_session \<Rightarrow> focus_session list \<Rightarrow> focus_session list" where
  "upsert_session v local =
     (if list_ex (\<lambda>s. ses_id s = ses_id v) local
      then update_where (\<lambda>s. ses_id s = ses_id v) (\<lambda>_. v) local
      else local @ [v])"

definition session_by_id :: "uuid \<Rightarrow> focus_session list \<Rightarrow> focus_session option" where
  "session_by_id i local = List.find (\<lambda>s. ses_id s = i) local"

definition apply_event :: "pair_event \<Rightarrow> focus_session list \<Rightarrow> focus_session list" where
  "apply_event ev local = (case pe_payload ev of
       PSession s \<Rightarrow> upsert_session s local
     | PNote n \<Rightarrow>
         if pe_type ev \<noteq> ''session.note_added'' then local
         else (case pe_entity ev of
             None \<Rightarrow> local
           | Some i \<Rightarrow> (case session_by_id i local of
                 None \<Rightarrow> local
               | Some s \<Rightarrow> upsert_session (s\<lparr>ses_notes := ses_notes s @ [n]\<rparr>) local))
     | _ \<Rightarrow> local)"

definition replay :: "uuid \<Rightarrow> pair_event list \<Rightarrow> focus_session list" where
  "replay p evs = fold apply_event (filter (\<lambda>ev. pe_pair ev = p) evs) []"

text \<open>What the server would answer for each session of the pair.\<close>

definition server_sessions :: "uuid \<Rightarrow> db \<Rightarrow> focus_session list" where
  "server_sessions p d = map (session_view d) (filter (\<lambda>r. fs_pair r = p) (sessions d))"

section \<open>Views\<close>

lemma session_view_id [simp]: "ses_id (session_view d r) = fs_id r"
  by (simp add: session_view_def session_of_row_def)

lemma session_view_cong:
  assumes "filter (\<lambda>m. sm_session m = fs_id r) (session_members d')
      = filter (\<lambda>m. sm_session m = fs_id r) (session_members d)"
    and "filter (\<lambda>n. nt_session n = fs_id r) (session_notes d')
      = filter (\<lambda>n. nt_session n = fs_id r) (session_notes d)"
    and "accounts d' = accounts d"
  shows "session_view d' r = session_view d r"
  using assms by (simp add: session_view_def participants_of_def notes_of_def)

lemma replay_snoc:
  "replay p (evs @ [ev]) = (if pe_pair ev = p then apply_event ev (replay p evs) else replay p evs)"
  by (simp add: replay_def)

lemma upsert_new: "(\<And>s. s \<in> set l \<Longrightarrow> ses_id s \<noteq> ses_id v) \<Longrightarrow> upsert_session v l = l @ [v]"
  by (auto simp: upsert_session_def list_ex_iff)

lemma upsert_view:
  assumes "r \<in> set (sessions d)" and "ses_id v = fs_id r" and "fs_pair r = p"
    and u: "distinct (map fs_id (sessions d))"
    and sess: "sessions d' = map (\<lambda>s. if s = r then r' else s) (sessions d)" and "fs_pair r' = p"
    and "session_view d' r' = v"
    and other: "\<And>s. s \<in> set (sessions d) \<Longrightarrow> s \<noteq> r \<Longrightarrow> session_view d' s = session_view d s"
  shows "upsert_session v (server_sessions p d) = server_sessions p d'"
proof -
  have "list_ex (\<lambda>s. ses_id s = ses_id v) (server_sessions p d)"
    using assms(1-3) by (auto simp: list_ex_iff server_sessions_def)
  then have "upsert_session v (server_sessions p d)
      = map (\<lambda>s. if fs_id s = fs_id r then v else session_view d s) (filter (\<lambda>r. fs_pair r = p) (sessions d))"
    by (simp add: upsert_session_def server_sessions_def update_where_def assms(2) comp_def)
  also have "\<dots> = map (\<lambda>s. session_view d' (if s = r then r' else s)) (filter (\<lambda>r. fs_pair r = p) (sessions d))"
    using distinct_key_eq [OF u _ assms(1)] other assms(7) by auto
  also have "\<dots> = map (session_view d') (filter (\<lambda>r. fs_pair r = p) (sessions d'))"
  proof -
    have "filter (\<lambda>r. fs_pair r = p) (sessions d')
        = map (\<lambda>s. if s = r then r' else s) (filter (\<lambda>r. fs_pair r = p) (sessions d))"
      unfolding sess filter_map
      by (rule arg_cong [where f = "map _"], rule filter_cong) (use assms(3,6) in auto)
    then show ?thesis by (simp add: comp_def)
  qed
  finally show ?thesis by (simp add: server_sessions_def)
qed

section \<open>The reducer computes the server's view\<close>

text \<open>
  Two facts carry the notes: accounts have one row each, and a note is never older than the
  notes before it, since the database clock does not go backwards.
\<close>

definition accounts_inv :: "db \<Rightarrow> bool" where
  "accounts_inv d \<longleftrightarrow> distinct (map ac_id (accounts d))"

definition notes_past :: "world \<Rightarrow> db \<Rightarrow> bool" where
  "notes_past w d \<longleftrightarrow> mono (w_clock w) \<and>
     (\<forall>n \<in> set (session_notes d). nt_created_at n \<le> w_clock w (w_step w))"

lemma notes_past_advance: "notes_past w d \<Longrightarrow> advance w w' \<Longrightarrow> notes_past w' d"
  unfolding notes_past_def advance_def by (metis monoD order_trans)

lemma notes_past_reads:
  assumes "notes_past w d" and "reads w w' t" and "n \<in> set (session_notes d)"
  shows "nt_created_at n \<le> t"
proof -
  obtain k where "w_step w \<le> k" "t = w_clock w k" using assms(2) by (auto simp: reads_def)
  with assms(1,3) show ?thesis unfolding notes_past_def by (meson monoD order_trans)
qed

lemma notes_past_step:
  "pair_step s t \<Longrightarrow> notes_past (fst s) (snd s) \<Longrightarrow> notes_past (fst t) (snd t)"
proof (induction rule: pair_step.induct)
  case (leave_note w w' c t r d a n d1 actor tc)
  have adv: "advance w w'" using leave_note(1) by (simp add: draws_def)
  obtain k where k: "k < w_step w'" "t = w_clock w k" using leave_note(2) by (auto simp: reads_def)
  then have "t \<le> w_clock w (w_step w')"
    using leave_note by (auto simp: notes_past_def mono_def)
  then show ?case
    using notes_past_advance [of w d w'] leave_note adv
    by (auto simp: notes_past_def advance_def)
qed (use notes_past_advance in \<open>auto simp: notes_past_def draws_def advance_def put_session_def add_event_def
    dest: monoD\<close>)

lemma accounts_inv_step: "pair_step s t \<Longrightarrow> accounts_inv (snd s) \<Longrightarrow> accounts_inv (snd t)"
  by (induction rule: pair_step.induct) (auto simp: accounts_inv_def)

lemma filter_key_unique:
  "distinct (map k t) \<Longrightarrow> a \<in> set t \<Longrightarrow> k a = i \<Longrightarrow> filter (\<lambda>x. k x = i) t = [a]"
  by (induction t) (auto simp: image_iff filter_empty_conv)

lemma notes_of_append:
  assumes "accounts_inv d" and "a \<in> set (accounts d)" and "nt_account n = ac_id a"
    and "\<And>m. m \<in> set (session_notes d) \<Longrightarrow> nt_created_at m \<le> nt_created_at n"
  shows "notes_of (nt_session n) (d\<lparr>session_notes := session_notes d @ [n]\<rparr>)
    = notes_of (nt_session n) d @ [\<lparr>sn_id = nt_id n, sn_account = ac_id a,
        sn_display_name = ac_display_name a, sn_body = nt_body n, sn_created_at = nt_created_at n\<rparr>]"
proof -
  have "filter (\<lambda>x. ac_id x = ac_id a) (accounts d) = [a]"
    using assms(1,2) by (intro filter_key_unique) (auto simp: accounts_inv_def)
  moreover have "sort_key nt_created_at (filter (\<lambda>m. nt_session m = nt_session n) (session_notes d) @ [n])
      = sort_key nt_created_at (filter (\<lambda>m. nt_session m = nt_session n) (session_notes d)) @ [n]"
    by (rule sort_key_append_greatest) (use assms(4) in auto)
  ultimately show ?thesis by (simp add: notes_of_def assms(3))
qed

definition replay_ok :: "db \<Rightarrow> bool" where
  "replay_ok d \<longleftrightarrow> (\<forall>p. replay p (events d) = server_sessions p d)"

lemma replay_ok_frame:
  assumes "replay_ok d" and "events d' = events d" and "sessions d' = sessions d"
    and "session_members d' = session_members d" and "session_notes d' = session_notes d"
    and "accounts d' = accounts d"
  shows "replay_ok d'"
proof -
  have "session_view d' r = session_view d r" for r
    by (rule session_view_cong) (simp_all add: assms)
  then have "session_view d' = session_view d" by auto
  with assms(1) show ?thesis by (simp add: replay_ok_def server_sessions_def assms(2,3))
qed

text \<open>An event that carries no session leaves the table alone.\<close>

lemma replay_ok_silent:
  assumes "replay_ok d" and "events d' = events d @ [ev]"
    and "case pe_payload ev of PCheer _ \<Rightarrow> True | PPairCreated _ _ \<Rightarrow> True | _ \<Rightarrow> False"
    and "sessions d' = sessions d" and "session_members d' = session_members d"
    and "session_notes d' = session_notes d" and "accounts d' = accounts d"
  shows "replay_ok d'"
proof -
  have "apply_event ev l = l" for l
    using assms(3) by (simp add: apply_event_def split: event_payload.splits)
  moreover have "replay_ok (d'\<lparr>events := events d\<rparr>)"
    by (rule replay_ok_frame [OF assms(1)]) (simp_all add: assms)
  moreover have "session_view (d'\<lparr>events := events d\<rparr>) = session_view d'"
    by (intro ext session_view_cong) simp_all
  ultimately show ?thesis
    by (simp add: replay_ok_def replay_snoc assms(2) server_sessions_def)
qed

lemma replay_act:
  assumes ok: "replay_ok d" and u: "sessions_unique (sessions d)"
    and r: "r \<in> set (sessions d)" and st: "row_step r a u0 r'" and ms: "newcomers d r a ms"
    and d1: "d1 = put_session r' (d\<lparr>session_members := session_members d @ ms\<rparr>)"
  shows "replay_ok (add_event (fs_pair r) ty (Some (fs_id r)) actor (PSession (session_view d1 r')) c tc d1)"
    (is "replay_ok ?d")
  unfolding replay_ok_def
proof
  fix p
  have same: "fs_id r' = fs_id r" "fs_pair r' = fs_pair r"
    using st by (auto simp: row_step_def same_room_def)
  have dist: "distinct (map fs_id (sessions d))" using u by (simp add: sessions_unique_def)
  have sess: "sessions ?d = map (\<lambda>s. if s = r then r' else s) (sessions d)"
    using put_session_map [OF dist r same(1)] by (simp add: d1 put_session_def)
  have view: "session_view ?d r' = session_view d1 r'"
    by (rule session_view_cong) simp_all
  have mine: "\<forall>m \<in> set ms. sm_session m = fs_id r"
    using ms by (auto simp: newcomers_def split: if_splits)
  have other: "session_view ?d s = session_view d s" if "s \<in> set (sessions d)" "s \<noteq> r" for s
  proof (rule session_view_cong)
    have "fs_id s \<noteq> fs_id r" using distinct_key_eq [OF dist that(1) r] that(2) by blast
    with mine have "filter (\<lambda>m. sm_session m = fs_id s) ms = []" by (auto simp: filter_empty_conv)
    then show "filter (\<lambda>m. sm_session m = fs_id s) (session_members ?d)
        = filter (\<lambda>m. sm_session m = fs_id s) (session_members d)" by (simp add: d1)
  qed (simp_all add: d1)
  show "replay p (events ?d) = server_sessions p ?d"
  proof (cases "fs_pair r = p")
    case True
    have "upsert_session (session_view d1 r') (server_sessions p d) = server_sessions p ?d"
      by (rule upsert_view [OF r _ True dist sess _ view other]) (simp_all add: same True)
    with ok True show ?thesis by (simp add: replay_ok_def replay_snoc d1 apply_event_def)
  next
    case False
    have "filter (\<lambda>s. fs_pair s = p) (sessions ?d) = filter (\<lambda>s. fs_pair s = p) (sessions d)"
    proof -
      have "filter (\<lambda>s. fs_pair s = p) (map (\<lambda>s. if s = r then r' else s) t)
          = filter (\<lambda>s. fs_pair s = p) t" for t
        by (induction t) (use False same in auto)
      then show ?thesis unfolding sess .
    qed
    moreover have "session_view ?d s = session_view d s" if "s \<in> set (sessions d)" "fs_pair s = p" for s
      using other that False by blast
    ultimately have "server_sessions p ?d = server_sessions p d"
      by (simp add: server_sessions_def cong: map_cong)
    with ok False show ?thesis by (simp add: replay_ok_def replay_snoc d1)
  qed
qed

lemma replay_begin:
  assumes ok: "replay_ok d" and inv: "presence_inv d" "notes_inv d"
    and new: "\<not> session_exists d (fs_id r)"
    and d1: "d1 = d\<lparr>sessions := sessions d @ [r], session_members := session_members d @
      [\<lparr>sm_session = fs_id r, sm_account = fs_started_by r, sm_joined_at = fs_started_at r\<rparr>]\<rparr>"
  shows "replay_ok (add_event (fs_pair r) ty (Some (fs_id r)) actor (PSession (session_view d1 r)) c tc d1)"
    (is "replay_ok ?d")
  unfolding replay_ok_def
proof
  fix p
  have fresh: "fs_id s \<noteq> fs_id r" if "s \<in> set (sessions d)" for s
    using new imageI [OF that, of fs_id] by (auto simp: session_exists_def)
  have view: "session_view ?d r = session_view d1 r"
    by (rule session_view_cong) simp_all
  have other: "session_view ?d s = session_view d s" if "s \<in> set (sessions d)" for s
    by (rule session_view_cong) (use fresh [OF that] in \<open>simp_all add: d1\<close>)
  then have old: "map (session_view ?d) (filter (\<lambda>s. fs_pair s = p) (sessions d)) = server_sessions p d"
    by (simp add: server_sessions_def)
  have "upsert_session (session_view d1 r) (server_sessions p d)
      = server_sessions p d @ [session_view d1 r]"
    by (rule upsert_new) (use fresh in \<open>auto simp: server_sessions_def\<close>)
  moreover have "server_sessions p ?d
      = server_sessions p d @ (if fs_pair r = p then [session_view d1 r] else [])"
  proof -
    have "sessions ?d = sessions d @ [r]" by (simp add: d1)
    then have "server_sessions p ?d = map (session_view ?d) (filter (\<lambda>s. fs_pair s = p) (sessions d))
        @ (if fs_pair r = p then [session_view ?d r] else [])"
      by (simp only: server_sessions_def filter_append map_append) simp
    then show ?thesis by (simp only: old view)
  qed
  moreover have "events d1 = events d" by (simp add: d1)
  ultimately show "replay p (events ?d) = server_sessions p ?d"
    using ok by (simp add: replay_ok_def replay_snoc apply_event_def)
qed

lemma replay_note:
  assumes ok: "replay_ok d" and u: "sessions_unique (sessions d)" and acc: "accounts_inv d"
    and past: "\<And>m. m \<in> set (session_notes d) \<Longrightarrow> nt_created_at m \<le> nt_created_at n"
    and r: "r \<in> set (sessions d)" and a: "a \<in> set (accounts d)"
    and n: "nt_session n = fs_id r" "nt_account n = ac_id a"
    and d1: "d1 = d\<lparr>session_notes := session_notes d @ [n]\<rparr>"
  shows "replay_ok (add_event (fs_pair r) ''session.note_added'' (Some (fs_id r)) actor
    (PNote \<lparr>sn_id = nt_id n, sn_account = ac_id a, sn_display_name = ac_display_name a,
        sn_body = nt_body n, sn_created_at = nt_created_at n\<rparr>) c tc d1)"
    (is "replay_ok ?d")
  unfolding replay_ok_def
proof
  fix p
  let ?n = "\<lparr>sn_id = nt_id n, sn_account = ac_id a, sn_display_name = ac_display_name a,
        sn_body = nt_body n, sn_created_at = nt_created_at n\<rparr>"
  let ?v = "session_view d r" and ?v' = "(session_view d r)\<lparr>ses_notes := ses_notes (session_view d r) @ [?n]\<rparr>"
  have dist: "distinct (map fs_id (sessions d))" using u by (simp add: sessions_unique_def)
  have "notes_of (fs_id r) d1 = notes_of (fs_id r) d @ [?n]"
    using notes_of_append [OF acc a n(2) past] n(1) by (simp add: d1)
  moreover have "session_view ?d r = session_view d1 r"
    by (rule session_view_cong) simp_all
  ultimately have view: "session_view ?d r = ?v'"
    by (simp add: session_view_def session_of_row_def participants_of_def d1)
  have other: "session_view ?d s = session_view d s" if "s \<in> set (sessions d)" "s \<noteq> r" for s
    by (rule session_view_cong)
      (use distinct_key_eq [OF dist that(1) r] that(2) n(1) in \<open>auto simp: d1\<close>)
  show "replay p (events ?d) = server_sessions p ?d"
  proof (cases "fs_pair r = p")
    case True
    have "session_by_id (fs_id r) (server_sessions p d) = Some ?v"
      unfolding session_by_id_def
    proof (rule find_unique)
      show "?v \<in> set (server_sessions p d)" using r True by (auto simp: server_sessions_def)
      show "ses_id ?v = fs_id r" by simp
      show "s = ?v" if "s \<in> set (server_sessions p d)" "ses_id s = fs_id r" for s
      proof -
        from that obtain x where "x \<in> set (sessions d)" "s = session_view d x" "fs_id x = fs_id r"
          by (auto simp: server_sessions_def)
        with distinct_key_eq [OF dist _ r] show ?thesis by blast
      qed
    qed
    moreover have "upsert_session ?v' (server_sessions p d) = server_sessions p ?d"
      by (rule upsert_view [OF r _ True dist _ _ view other]) (simp_all add: True d1)
    ultimately show ?thesis using ok True
      by (simp add: replay_ok_def replay_snoc d1 apply_event_def)
  next
    case False
    have "session_view ?d s = session_view d s" if "s \<in> set (sessions d)" "fs_pair s = p" for s
      using other that False by blast
    then have "server_sessions p ?d = server_sessions p d"
      by (simp add: server_sessions_def d1 cong: map_cong)
    with ok False show ?thesis by (simp add: replay_ok_def replay_snoc d1)
  qed
qed

definition replay_inv :: "world \<Rightarrow> db \<Rightarrow> bool" where
  "replay_inv w d \<longleftrightarrow> replay_ok d \<and> accounts_inv d \<and> notes_past w d"

lemma replay_ok_step:
  assumes "pair_step s t" and "replay_inv (fst s) (snd s)" and "sessions_inv (snd s)"
    and "presence_inv (snd s)" and "notes_inv (snd s)"
  shows "replay_ok (snd t)"
  using assms
proof (induction rule: pair_step.induct)
  case (act w w' c r d a u r' ms d1 ty actor tc)
  then show ?case using replay_act [of d r a u r' ms d1]
    by (auto simp: replay_inv_def sessions_inv_def)
next
  case (begin_session w w' c r d d1 ty actor tc)
  then show ?case using replay_begin [of d r d1] by (auto simp: replay_inv_def)
next
  case (leave_note w w' c t r d a n d1 actor tc)
  have "nt_created_at m \<le> nt_created_at n" if "m \<in> set (session_notes d)" for m
    using notes_past_reads [of w d w' t m] leave_note that by (auto simp: replay_inv_def)
  then show ?case using leave_note replay_note [of d n r a d1 actor c tc]
    by (simp add: replay_inv_def sessions_inv_def)
next
  case (cheer w w' c r d x d1 ty actor q tc)
  have ok: "replay_ok d" using cheer(7) by (simp add: replay_inv_def)
  show ?case unfolding snd_conv
    by (rule replay_ok_silent [OF ok], simp add: cheer(6), simp_all add: cheer(6))
next
  case (make_pair w w' c v d a p d1 t2 t1 ty tc)
  have ok: "replay_ok d" using make_pair(12) by (simp add: replay_inv_def)
  show ?case unfolding snd_conv
    by (rule replay_ok_silent [OF ok], simp add: make_pair(11), simp_all add: make_pair(11))
qed (auto simp: replay_inv_def elim!: replay_ok_frame)

end
