(* ===== verification/System.thy ===== *)
theory System
  imports PairRefinement Replay
begin

text \<open>
  The shared part of the server as a transition system: at each step one request runs one store
  operation, or time passes. Every step keeps the invariants of \<open>PairInvariants\<close> and \<open>Replay\<close>,
  because each operation refines \<open>pair_step\<close>.
\<close>

section \<open>Steps\<close>

text \<open>The moment an operation leaves behind, whether it failed or not.\<close>

definition after_op :: "(db, 'a) tx \<Rightarrow> moment \<Rightarrow> moment" where
  "after_op m s = snd (m (fst s) (snd s))"

inductive served :: "moment \<Rightarrow> moment \<Rightarrow> bool" where
  wait: "advance (fst s) w \<Longrightarrow> served s (w, snd s)"
| create_invite: "served s (after_op (create_pair_invite a i h e) s)"
| accept_invite: "served s (after_op (accept_pair_invite a h) s)"
| read_pair: "served s (after_op (pair a) s)"
| start: "served s (after_op (start_session idn key i) s)"
| import_solo: "served s (after_op (import_solo_session idn key i st en) s)"
| join: "served s (after_op (join_session idn i key v) s)"
| transition: "served s (after_op (transition_session idn i key v a) s)"
| add_note: "known idn (snd s) \<Longrightarrow> served s (after_op (add_note idn i key b) s)"
| add_cheer: "served s (after_op (add_cheer idn i key) s)"
| read_current: "served s (after_op (current_session idn) s)"
| read_history: "served s (after_op (session_history idn before l) s)"
| read_events: "served s (after_op (pair_events idn c l) s)"

section \<open>Every request refines the specification\<close>

lemma after_op_run:
  assumes "\<And>w d r w' d'. m w d = (r, w', d') \<Longrightarrow> sound (w, d) \<Longrightarrow> pair_run (w, d) (w', d')"
    and "sound s"
  shows "pair_run s (after_op m s)"
  using assms unfolding after_op_def by (metis prod.collapse)

lemma after_read_run:
  assumes "\<And>w d r w' d'. m w d = (r, w', d') \<Longrightarrow> d' = d" and "advances m"
  shows "pair_run s (after_op m s)"
proof -
  obtain r w' d' where run: "m (fst s) (snd s) = (r, w', d')" by (cases "m (fst s) (snd s)") auto
  then have "d' = snd s" "advance (fst s) w'" using assms by (auto dest: advancesD)
  then show ?thesis using run_idle [of "fst s" w' "snd s"] by (simp add: after_op_def run)
qed

lemma advances_reads [adv_intros]:
  "advances (pair a)" "advances (pair_events idn c l)" "advances (session_history idn b l)"
proof -
  show "advances (pair a)" unfolding pair_def
    by (intro adv_intros; rename_tac rows; case_tac rows) (auto intro!: adv_intros)
qed (unfold pair_events_def session_history_def, (intro adv_intros)+)

lemma served_refines: "served s t \<Longrightarrow> sound s \<Longrightarrow> pair_run s t"
proof (induction rule: served.induct)
  case (wait s w)
  then show ?case using run_idle [of "fst s" w "snd s"] by simp
next
  case (add_note idn s i key b)
  then show ?case using add_note_run [of idn i key b "fst s" "snd s"]
    unfolding after_op_def by (metis prod.collapse)
next
  case (read_pair s a)
  show ?case by (rule after_read_run [OF pair_unchanged advances_reads(1)])
next
  case (read_history s idn before l)
  show ?case by (rule after_read_run [OF session_history_unchanged advances_reads(3)])
next
  case (read_events s idn c l)
  show ?case by (rule after_read_run [OF pair_events_unchanged advances_reads(2)])
qed (erule after_op_run [rotated],
    erule create_pair_invite_run accept_pair_invite_run start_session_run import_solo_session_run
      join_session_run transition_session_run add_cheer_run current_session_run, assumption)+

section \<open>Invariants\<close>

definition good :: "moment \<Rightarrow> bool" where
  "good s \<longleftrightarrow> sound s \<and> pairs_inv (snd s) \<and> presence_inv (snd s) \<and> log_inv (fst s) (snd s) \<and>
     keys_inv (snd s) \<and> notes_inv (snd s) \<and> cheers_spaced (snd s) \<and> invites_inv (snd s) \<and>
     replay_inv (fst s) (snd s)"

lemma goodD:
  assumes "good s"
  shows "sound s" "sessions_inv (snd s)" "pairs_inv (snd s)" "presence_inv (snd s)"
    "log_inv (fst s) (snd s)" "keys_inv (snd s)" "notes_inv (snd s)" "cheers_spaced (snd s)"
    "invites_inv (snd s)" "replay_inv (fst s) (snd s)" "clock_ok (fst s)"
  using assms by (simp_all add: good_def sound_def)

lemma replay_inv_step:
  assumes "pair_step s t" and "good s"
  shows "replay_inv (fst t) (snd t)"
proof -
  have "replay_inv (fst s) (snd s)" using assms(2) by (rule goodD)
  then have "accounts_inv (snd s)" "notes_past (fst s) (snd s)" by (auto simp: replay_inv_def)
  then have "accounts_inv (snd t)" "notes_past (fst t) (snd t)"
    using accounts_inv_step notes_past_step assms(1) by blast+
  moreover have "replay_ok (snd t)"
    by (rule replay_ok_step [OF assms(1)]) (rule goodD [OF assms(2)])+
  ultimately show ?thesis by (simp add: replay_inv_def)
qed

lemma good_step:
  assumes "pair_step s t" and "good s"
  shows "good t"
  unfolding good_def
  using sound_step [OF assms(1)] pairs_inv_step [OF assms(1)] presence_inv_step [OF assms(1)]
    log_inv_step [OF assms(1)] keys_inv_step [OF assms(1)] notes_inv_step [OF assms(1)]
    cheers_spaced_step [OF assms(1)] invites_inv_step [OF assms(1)] replay_inv_step [OF assms]
    goodD [OF assms(2)]
  by blast

lemma good_run: "pair_run s t \<Longrightarrow> good s \<Longrightarrow> good t"
  by (erule pair_run_inv [where I = good]) (auto intro: good_step)

lemma good_served: "served s t \<Longrightarrow> good s \<Longrightarrow> good t"
  using served_refines good_run goodD(1) by blast

section \<open>Runs of requests\<close>

lemma served_run: "served\<^sup>*\<^sup>* s t \<Longrightarrow> good s \<Longrightarrow> pair_run s t \<and> good t"
  by (induction rule: rtranclp_induct)
     (use served_refines good_served goodD(1) in \<open>blast intro: rtranclp_trans\<close>)+

lemma served_good:
  assumes "served\<^sup>*\<^sup>* s t" and "good s"
  shows "good t" and "pair_run s t"
  using served_run [OF assms] by simp_all

lemma served_op:
  "m w d = (r, w', d') \<Longrightarrow> served (w, d) (after_op m (w, d)) \<Longrightarrow> served\<^sup>*\<^sup>* (w, d) (w', d')"
  by (simp add: after_op_def)

lemma served_wait: "advance w w' \<Longrightarrow> served\<^sup>*\<^sup>* (w, d) (w', d)"
  using served.wait [of "(w, d)" w'] by auto

text \<open>Accounts are fixed while requests of the shared part are served.\<close>

lemma pair_step_accounts: "pair_step s t \<Longrightarrow> accounts (snd t) = accounts (snd s)"
  by (induction rule: pair_step.induct) (auto simp: add_event_def)

lemma pair_run_accounts: "pair_run s t \<Longrightarrow> accounts (snd t) = accounts (snd s)"
  by (induction rule: rtranclp_induct) (auto dest: pair_step_accounts)

end
