(* ===== verification/AuthStore.thy ===== *)
theory AuthStore
  imports Database
begin

text \<open>
  Accounts, passkeys, sign-in sessions and refresh tokens: \<open>internal/store/auth.go\<close>. First the
  statements that write the tables, with the constraints of \<open>server/migrations\<close>; then one
  definition per method of the store, in the order of the file.
\<close>

section \<open>Writing the tables\<close>

definition insert_account :: "account_row \<Rightarrow> db \<Rightarrow> go_error + db" where
  "insert_account a d =
     require (1 \<le> char_length (ac_display_name a) \<and> char_length (ac_display_name a) \<le> 80) ''23514''
      (require (ac_id a \<notin> ac_id ` set (accounts d) \<and> ac_handle a \<notin> ac_handle ` set (accounts d) \<and>
          ac_recovery_handle a \<notin> ac_recovery_handle ` set (accounts d)) ''23505''
        (Inr (d\<lparr>accounts := accounts d @ [a]\<rparr>)))"

definition insert_credential :: "credential_row \<Rightarrow> db \<Rightarrow> go_error + db" where
  "insert_credential c d =
     require (account_exists d (cr_account c)) ''23503''
      (require (1 \<le> char_length (cr_label c) \<and> char_length (cr_label c) \<le> 80) ''23514''
        (require (cr_id c \<notin> cr_id ` set (credentials d)) ''23505''
          (Inr (d\<lparr>credentials := credentials d @ [c]\<rparr>))))"

definition insert_challenge :: "challenge_row \<Rightarrow> db \<Rightarrow> go_error + db" where
  "insert_challenge c d =
     require (case ch_account c of None \<Rightarrow> True | Some a \<Rightarrow> account_exists d a) ''23503''
      (require (ch_purpose c \<in> {''register_account'', ''login'', ''add_passkey''}) ''23514''
        (require (ch_id c \<notin> ch_id ` set (challenges d)) ''23505''
          (Inr (d\<lparr>challenges := challenges d @ [c]\<rparr>))))"

definition recovery_id :: "recovery_row \<Rightarrow> uuid \<times> nat" where
  "recovery_id r = (rc_account r, rc_position r)"

definition insert_recovery :: "recovery_row \<Rightarrow> db \<Rightarrow> go_error + db" where
  "insert_recovery r d =
     require (account_exists d (rc_account r)) ''23503''
      (require (recovery_id r \<notin> recovery_id ` set (recovery_codes d)) ''23505''
        (Inr (d\<lparr>recovery_codes := recovery_codes d @ [r]\<rparr>)))"

definition install_key :: "install_row \<Rightarrow> uuid \<times> uuid" where
  "install_key v = (di_id v, di_account v)"

definition install_exists :: "db \<Rightarrow> uuid \<Rightarrow> uuid \<Rightarrow> bool" where
  "install_exists d i a \<longleftrightarrow> (i, a) \<in> install_key ` set (installs d)"

text \<open>
  \<open>INSERT INTO device_installs ... ON CONFLICT (id, account_id) DO UPDATE\<close>; the key is
  (id, account) since the second migration. A device that signs in again is no longer revoked.
\<close>

definition upsert_install :: "uuid \<Rightarrow> device_info \<Rightarrow> time \<Rightarrow> db \<Rightarrow> go_error + db" where
  "upsert_install account_id device clock d =
     require (account_exists d account_id) ''23503''
      (require (dv_platform device \<in> {''ios'', ''android''} \<and>
          1 \<le> char_length (dv_name device) \<and> char_length (dv_name device) \<le> 120) ''23514''
        (Inr (d\<lparr>installs :=
          (if install_exists d (dv_id device) account_id
           then update_where (\<lambda>v. install_key v = (dv_id device, account_id))
             (\<lambda>v. v\<lparr>di_platform := dv_platform device, di_name := dv_name device,
               di_last_seen_at := clock, di_revoked_at := None\<rparr>) (installs d)
           else installs d @
             [\<lparr>di_id = dv_id device, di_account = account_id, di_platform = dv_platform device,
               di_name = dv_name device, di_created_at = clock, di_last_seen_at = clock,
               di_revoked_at = None\<rparr>])\<rparr>)))"

definition insert_auth_session :: "auth_session_row \<Rightarrow> db \<Rightarrow> go_error + db" where
  "insert_auth_session s d =
     require (account_exists d (as_account s) \<and> install_exists d (as_install s) (as_account s) \<and>
         (case as_credential s of None \<Rightarrow> True | Some c \<Rightarrow> c \<in> cr_id ` set (credentials d))) ''23503''
      (require (as_id s \<notin> as_id ` set (auth_sessions d)) ''23505''
        (Inr (d\<lparr>auth_sessions := auth_sessions d @ [s]\<rparr>)))"

definition insert_refresh :: "refresh_row \<Rightarrow> db \<Rightarrow> go_error + db" where
  "insert_refresh r d =
     require (rt_session r \<in> as_id ` set (auth_sessions d) \<and>
         (case rt_parent r of None \<Rightarrow> True | Some i \<Rightarrow> i \<in> rt_id ` set (refresh_tokens d))) ''23503''
      (require (rt_id r \<notin> rt_id ` set (refresh_tokens d)) ''23505''
        (Inr (d\<lparr>refresh_tokens := refresh_tokens d @ [r]\<rparr>)))"

lemmas auth_write_defs = insert_account_def insert_credential_def insert_challenge_def
  insert_recovery_def upsert_install_def insert_auth_session_def insert_refresh_def

text \<open>
  Deleting an account deletes what references it with \<open>ON DELETE CASCADE\<close>, and fails while
  anything else does.
\<close>

definition account_referenced :: "uuid \<Rightarrow> db \<Rightarrow> bool" where
  "account_referenced a d \<longleftrightarrow> a \<in> fs_started_by ` set (sessions d) \<or>
     a \<in> sm_account ` set (session_members d) \<or> a \<in> nt_account ` set (session_notes d) \<or>
     a \<in> rx_account ` set (reactions d) \<or> Some a \<in> pe_actor ` set (events d) \<or>
     Some a \<in> iv_accepted_by ` {v \<in> set (invites d). iv_created_by v \<noteq> a}"

definition cascade_account :: "uuid \<Rightarrow> db \<Rightarrow> db" where
  "cascade_account a d =
     (let gone = as_id ` {s \<in> set (auth_sessions d). as_account s = a};
          dev = pd_id ` {v \<in> set (push_devices d). pd_account v = a}
      in d\<lparr>accounts := filter (\<lambda>r. ac_id r \<noteq> a) (accounts d),
       credentials := filter (\<lambda>r. cr_account r \<noteq> a) (credentials d),
       challenges := filter (\<lambda>r. ch_account r \<noteq> Some a) (challenges d),
       recovery_codes := filter (\<lambda>r. rc_account r \<noteq> a) (recovery_codes d),
       installs := filter (\<lambda>r. di_account r \<noteq> a) (installs d),
       auth_sessions := filter (\<lambda>r. as_account r \<noteq> a) (auth_sessions d),
       refresh_tokens := filter (\<lambda>r. rt_session r \<notin> gone) (refresh_tokens d),
       members := filter (\<lambda>r. pm_account r \<noteq> a) (members d),
       invites := filter (\<lambda>r. iv_created_by r \<noteq> a) (invites d),
       idempotency := filter (\<lambda>r. ik_account r \<noteq> a) (idempotency d),
       push_devices := filter (\<lambda>r. pd_account r \<noteq> a) (push_devices d),
       jobs := filter (\<lambda>r. jb_recipient r \<noteq> a \<and> jb_device r \<notin> dev) (jobs d)\<rparr>)"

section \<open>Answers\<close>

text \<open>\<open>domain.Account\<close>, and the records of \<open>auth.go\<close>.\<close>

record account =
  acc_id :: uuid
  acc_display_name :: string
  acc_recovery_handle :: string
  acc_webauthn_user :: bytes
  acc_status :: account_status
  acc_created_at :: time
  acc_pair :: "uuid option"
  acc_partner_name :: string
  acc_credential_count :: int
  acc_installation :: "uuid option"

record webauthn_account =
  wa_account :: account
  wa_credentials :: "bytes list"

record challenge =
  cg_id :: uuid
  cg_account :: "uuid option"
  cg_purpose :: string
  cg_session_data :: bytes

record recovery_code_record =
  rr_position :: nat
  rr_hash :: string

record credential_record =
  ce_id :: bytes
  ce_label :: string
  ce_created_at :: time
  ce_last_used_at :: "time option"

record auth_session_record =
  ar_id :: uuid
  ar_installation :: uuid
  ar_installation_name :: string
  ar_platform :: string
  ar_created_at :: time
  ar_last_seen_at :: time
  ar_current :: bool

record installation_record =
  ir_id :: uuid
  ir_name :: string
  ir_platform :: string
  ir_created_at :: time
  ir_last_seen_at :: time

definition account_of_row :: "account_row \<Rightarrow> account" where
  "account_of_row r = \<lparr>acc_id = ac_id r, acc_display_name = ac_display_name r,
     acc_recovery_handle = ac_recovery_handle r, acc_webauthn_user = ac_handle r,
     acc_status = ac_status r, acc_created_at = ac_created_at r, acc_pair = None,
     acc_partner_name = [], acc_credential_count = 0, acc_installation = None\<rparr>"

text \<open>A query for one row: \<open>pgx.ErrNoRows\<close> becomes the error the method gives.\<close>

definition query_row :: "store_error \<Rightarrow> (sql_env \<Rightarrow> db \<Rightarrow> 'a option) \<Rightarrow> (db, 'a) tx" where
  "query_row err q = bind_tx (select q) (\<lambda>row.
     case row of None \<Rightarrow> raise (Sentinel err) | Some v \<Rightarrow> ret v)"

text \<open>A writing statement whose number of affected rows has to be one.\<close>

definition exec_one ::
  "store_error \<Rightarrow> (sql_env \<Rightarrow> db \<Rightarrow> nat) \<Rightarrow> (sql_env \<Rightarrow> db \<Rightarrow> db) \<Rightarrow> (db, unit) tx" where
  "exec_one err n f = bind_tx (sql (\<lambda>e d. Inr (n e d, f e d))) (\<lambda>rows.
     if rows \<noteq> 1 then raise (Sentinel err) else ret ())"

text \<open>\<open>fmt.Errorf("...: %w", err)\<close> around whatever the statement failed with.\<close>

definition wrap_error :: "string \<Rightarrow> ('d, 'a) tx \<Rightarrow> ('d, 'a) tx" where
  "wrap_error message m w d = (case m w d of
       (Inl e, w', d') \<Rightarrow> (Inl (Wrapped message e), w', d')
     | (Inr v, w', d') \<Rightarrow> (Inr v, w', d'))"

section \<open>Registration and challenges\<close>

definition create_pending_account ::
  "uuid \<Rightarrow> bytes \<Rightarrow> string \<Rightarrow> string \<Rightarrow> (db, account) tx" where
  "create_pending_account account_id user_handle display_name recovery_handle =
     wrap_error ''create pending account'' (sql (\<lambda>e d.
       let row = \<lparr>ac_id = account_id, ac_handle = user_handle, ac_display_name = display_name,
         ac_recovery_handle = recovery_handle, ac_status = AccountPending,
         ac_created_at = e_clock e, ac_activated_at = None\<rparr>
       in case insert_account row d of
           Inl err \<Rightarrow> Inl err
         | Inr d' \<Rightarrow> Inr (account_of_row row, d')))"

definition delete_pending_account :: "uuid \<Rightarrow> (db, unit) tx" where
  "delete_pending_account account_id = exec (\<lambda>_ d.
     if \<not> list_ex (\<lambda>r. ac_id r = account_id \<and> ac_status r = AccountPending) (accounts d) then Inr d
     else require (\<not> account_referenced account_id d) ''23503'' (Inr (cascade_account account_id d)))"

definition create_challenge ::
  "uuid \<Rightarrow> uuid option \<Rightarrow> string \<Rightarrow> bytes \<Rightarrow> time \<Rightarrow> (db, unit) tx" where
  "create_challenge i account_id purpose session_data expires_at = exec (\<lambda>_. insert_challenge
     \<lparr>ch_id = i, ch_account = account_id, ch_purpose = purpose, ch_session_data = session_data,
      ch_expires_at = micros expires_at, ch_consumed_at = None\<rparr>)"

definition consumable :: "uuid \<Rightarrow> string \<Rightarrow> time \<Rightarrow> challenge_row \<Rightarrow> bool" where
  "consumable i purpose clock c \<longleftrightarrow> ch_id c = i \<and> ch_purpose c = purpose \<and>
     ch_consumed_at c = None \<and> clock < ch_expires_at c"

definition consume_challenge :: "uuid \<Rightarrow> string \<Rightarrow> (db, challenge) tx" where
  "consume_challenge i purpose =
     bind_tx (sql (\<lambda>e d. Inr (List.find (consumable i purpose (e_clock e)) (challenges d),
       d\<lparr>challenges := update_where (consumable i purpose (e_clock e))
         (\<lambda>c. c\<lparr>ch_consumed_at := Some (e_clock e)\<rparr>) (challenges d)\<rparr>))) (\<lambda>row.
     case row of
       None \<Rightarrow> raise (Sentinel ErrNotFound)
     | Some c \<Rightarrow> ret \<lparr>cg_id = ch_id c, cg_account = ch_account c, cg_purpose = ch_purpose c,
         cg_session_data = ch_session_data c\<rparr>)"

text \<open>\<open>getWebAuthnAccount\<close> with either of its two predicates.\<close>

definition get_webauthn_account :: "(account_row \<Rightarrow> bool) \<Rightarrow> (db, webauthn_account) tx" where
  "get_webauthn_account pred = query_row ErrNotFound (\<lambda>_ d.
     map_option (\<lambda>a. \<lparr>wa_account = account_of_row a,
       wa_credentials = map cr_credential (sort_key cr_created_at
         (filter (\<lambda>c. cr_account c = ac_id a \<and> cr_revoked_at c = None) (credentials d)))\<rparr>)
     (List.find (\<lambda>a. pred a \<and> ac_status a \<in> {AccountPending, AccountActive}) (accounts d)))"

definition get_webauthn_account_by_id :: "uuid \<Rightarrow> (db, webauthn_account) tx" where
  "get_webauthn_account_by_id account_id = get_webauthn_account (\<lambda>a. ac_id a = account_id)"

definition get_webauthn_account_by_handle :: "bytes \<Rightarrow> (db, webauthn_account) tx" where
  "get_webauthn_account_by_handle handle = get_webauthn_account (\<lambda>a. ac_handle a = handle)"

section \<open>Sessions\<close>

text \<open>The values a new session is made of, as the service draws them.\<close>

record session_grant =
  sg_device :: device_info
  sg_session :: uuid
  sg_session_expires :: time
  sg_refresh :: uuid
  sg_refresh_hash :: bytes
  sg_refresh_expires :: time

definition nullable_bytes :: "bytes \<Rightarrow> bytes option" where
  "nullable_bytes value = (if length value = 0 then None else Some value)"

definition create_session :: "uuid \<Rightarrow> bytes \<Rightarrow> session_grant \<Rightarrow> (db, unit) tx" where
  "create_session account_id credential_id g =
     bind_tx (exec (\<lambda>e. upsert_install account_id (sg_device g) (e_clock e))) (\<lambda>_.
     bind_tx (exec (\<lambda>e. insert_auth_session
         \<lparr>as_id = sg_session g, as_account = account_id, as_install = dv_id (sg_device g),
          as_credential = nullable_bytes credential_id, as_created_at = e_clock e,
          as_expires_at = micros (sg_session_expires g), as_last_seen_at = e_clock e,
          as_revoked_at = None, as_revoke_reason = None\<rparr>)) (\<lambda>_.
     exec (\<lambda>_. insert_refresh
         \<lparr>rt_id = sg_refresh g, rt_family = sg_refresh g, rt_session = sg_session g,
          rt_parent = None, rt_hash = sg_refresh_hash g,
          rt_expires_at = micros (sg_refresh_expires g), rt_consumed_at = None,
          rt_replacement = None, rt_revoked_at = None\<rparr>)))"

definition granted :: "uuid \<Rightarrow> session_grant \<Rightarrow> auth_identity" where
  "granted account_id g = \<lparr>id_account = account_id, id_session = sg_session g,
     id_installation = dv_id (sg_device g), id_pair = None, id_display_name = []\<rparr>"

definition insert_recovery_codes :: "uuid \<Rightarrow> string list \<Rightarrow> (db, unit) tx" where
  "insert_recovery_codes account_id hashes =
     for_each (List.enumerate 0 hashes) (\<lambda>(position, hash). exec (\<lambda>_. insert_recovery
       \<lparr>rc_account = account_id, rc_position = position, rc_hash = hash, rc_used_at = None\<rparr>))"

definition activate_body ::
  "uuid \<Rightarrow> bytes \<Rightarrow> bytes \<Rightarrow> string \<Rightarrow> string list \<Rightarrow> session_grant \<Rightarrow>
   (db, auth_identity outcome) tx" where
  "activate_body account_id credential_id credential_json label hashes g =
     bind_tx (exec_one ErrConflict
       (\<lambda>_ d. count_where (\<lambda>a. ac_id a = account_id \<and> ac_status a = AccountPending) (accounts d))
       (\<lambda>e d. d\<lparr>accounts := update_where (\<lambda>a. ac_id a = account_id \<and> ac_status a = AccountPending)
         (\<lambda>a. a\<lparr>ac_status := AccountActive, ac_activated_at := Some (e_clock e)\<rparr>) (accounts d)\<rparr>)) (\<lambda>_.
     bind_tx (exec (\<lambda>e. insert_credential
         \<lparr>cr_id = credential_id, cr_account = account_id, cr_credential = credential_json,
          cr_label = label, cr_created_at = e_clock e, cr_last_used_at = None,
          cr_revoked_at = None\<rparr>)) (\<lambda>_.
     bind_tx (insert_recovery_codes account_id hashes) (\<lambda>_.
     bind_tx (create_session account_id credential_id g) (\<lambda>_.
     commit (granted account_id g)))))"

definition activate_account ::
  "uuid \<Rightarrow> bytes \<Rightarrow> bytes \<Rightarrow> string \<Rightarrow> string list \<Rightarrow> session_grant \<Rightarrow> (db, auth_identity) tx" where
  "activate_account account_id credential_id credential_json label hashes g =
     transaction (activate_body account_id credential_id credential_json label hashes g)"

definition live_credential :: "uuid \<Rightarrow> bytes \<Rightarrow> credential_row \<Rightarrow> bool" where
  "live_credential account_id credential_id c \<longleftrightarrow> cr_id c = credential_id \<and>
     cr_account c = account_id \<and> cr_revoked_at c = None"

definition login_body ::
  "uuid \<Rightarrow> bytes \<Rightarrow> bytes \<Rightarrow> session_grant \<Rightarrow> (db, auth_identity outcome) tx" where
  "login_body account_id credential_id credential_json g =
     bind_tx (exec_one ErrNotFound
       (\<lambda>_ d. count_where (live_credential account_id credential_id) (credentials d))
       (\<lambda>e d. d\<lparr>credentials := update_where (live_credential account_id credential_id)
         (\<lambda>c. c\<lparr>cr_credential := credential_json, cr_last_used_at := Some (e_clock e)\<rparr>)
         (credentials d)\<rparr>)) (\<lambda>_.
     bind_tx (create_session account_id credential_id g) (\<lambda>_.
     commit (granted account_id g)))"

definition create_login_session ::
  "uuid \<Rightarrow> bytes \<Rightarrow> bytes \<Rightarrow> session_grant \<Rightarrow> (db, auth_identity) tx" where
  "create_login_session account_id credential_id credential_json g =
     transaction (login_body account_id credential_id credential_json g)"

definition add_credential :: "uuid \<Rightarrow> bytes \<Rightarrow> bytes \<Rightarrow> string \<Rightarrow> (db, unit) tx" where
  "add_credential account_id credential_id credential_json label =
     exec (\<lambda>e. insert_credential
       \<lparr>cr_id = credential_id, cr_account = account_id, cr_credential = credential_json,
        cr_label = label, cr_created_at = e_clock e, cr_last_used_at = None,
        cr_revoked_at = None\<rparr>)"

section \<open>Recovery\<close>

definition recovery_codes_of :: "string \<Rightarrow> (db, account \<times> recovery_code_record list) tx" where
  "recovery_codes_of recovery_handle =
     bind_tx (query_row ErrNotFound (\<lambda>_ d. List.find (\<lambda>a. ac_recovery_handle a = recovery_handle \<and>
       ac_status a = AccountActive) (accounts d))) (\<lambda>a.
     bind_tx (select (\<lambda>_ d. map (\<lambda>r. \<lparr>rr_position = rc_position r, rr_hash = rc_hash r\<rparr>)
       (sort_key rc_position (filter (\<lambda>r. rc_account r = ac_id a \<and> rc_used_at r = None)
         (recovery_codes d))))) (\<lambda>codes.
     ret (account_of_row a, codes)))"

definition unused_code :: "uuid \<Rightarrow> nat \<Rightarrow> recovery_row \<Rightarrow> bool" where
  "unused_code account_id position r \<longleftrightarrow> rc_account r = account_id \<and> rc_position r = position \<and>
     rc_used_at r = None"

definition use_recovery_body ::
  "uuid \<Rightarrow> nat \<Rightarrow> session_grant \<Rightarrow> (db, auth_identity outcome) tx" where
  "use_recovery_body account_id position g =
     bind_tx (exec_one ErrConflict
       (\<lambda>_ d. count_where (unused_code account_id position) (recovery_codes d))
       (\<lambda>e d. d\<lparr>recovery_codes := update_where (unused_code account_id position)
         (\<lambda>r. r\<lparr>rc_used_at := Some (e_clock e)\<rparr>) (recovery_codes d)\<rparr>)) (\<lambda>_.
     bind_tx (create_session account_id [] g) (\<lambda>_.
     commit (granted account_id g)))"

definition use_recovery_code :: "uuid \<Rightarrow> nat \<Rightarrow> session_grant \<Rightarrow> (db, auth_identity) tx" where
  "use_recovery_code account_id position g = transaction (use_recovery_body account_id position g)"

definition replace_recovery_codes :: "uuid \<Rightarrow> string list \<Rightarrow> (db, unit) tx" where
  "replace_recovery_codes account_id hashes = transaction (
     bind_tx (exec (\<lambda>_ d. Inr (d\<lparr>recovery_codes :=
         filter (\<lambda>r. rc_account r \<noteq> account_id) (recovery_codes d)\<rparr>))) (\<lambda>_.
     bind_tx (insert_recovery_codes account_id hashes) (\<lambda>_.
     commit ())))"

section \<open>Refresh tokens\<close>

text \<open>The row of the locking query: a token, its session, the installation; an active account.\<close>

definition refresh_join :: "uuid \<Rightarrow> db \<Rightarrow> (refresh_row \<times> auth_session_row \<times> install_row) list" where
  "refresh_join i d = [(r, s, v).
     r \<leftarrow> refresh_tokens d, rt_id r = i,
     s \<leftarrow> auth_sessions d, as_id s = rt_session r,
     v \<leftarrow> installs d, di_id v = as_install s \<and> di_account v = as_account s,
     a \<leftarrow> accounts d, ac_id a = as_account s \<and> ac_status a = AccountActive]"

definition first_row :: "'a list \<Rightarrow> 'a option" where
  "first_row rows = (case rows of [] \<Rightarrow> None | row # _ \<Rightarrow> Some row)"

text \<open>
  A token that was already exchanged is presented again: the whole family and the session are
  revoked, and that is committed before the error is returned.
\<close>

definition revoke_family :: "uuid \<Rightarrow> uuid \<Rightarrow> time \<Rightarrow> (db, unit) tx" where
  "revoke_family family_id session_id now =
     bind_tx (exec (\<lambda>_ d. Inr (d\<lparr>refresh_tokens := update_where (\<lambda>r. rt_family r = family_id)
       (\<lambda>r. r\<lparr>rt_revoked_at := (case rt_revoked_at r of None \<Rightarrow> Some (micros now) | t \<Rightarrow> t)\<rparr>)
       (refresh_tokens d)\<rparr>))) (\<lambda>_.
     exec (\<lambda>_ d. Inr (d\<lparr>auth_sessions := update_where (\<lambda>s. as_id s = session_id)
       (\<lambda>s. s\<lparr>as_revoked_at := (case as_revoked_at s of None \<Rightarrow> Some (micros now) | t \<Rightarrow> t),
         as_revoke_reason := Some ''refresh_reuse''\<rparr>) (auth_sessions d)\<rparr>)))"

definition exchange_token ::
  "refresh_row \<Rightarrow> auth_session_row \<Rightarrow> uuid \<Rightarrow> bytes \<Rightarrow> time \<Rightarrow> time \<Rightarrow> (db, unit) tx" where
  "exchange_token r s new_id new_hash new_expires now =
     bind_tx (exec_one ErrInvalidRefresh
       (\<lambda>_ d. count_where (\<lambda>x. rt_id x = rt_id r \<and> rt_consumed_at x = None) (refresh_tokens d))
       (\<lambda>_ d. d\<lparr>refresh_tokens := update_where (\<lambda>x. rt_id x = rt_id r \<and> rt_consumed_at x = None)
         (\<lambda>x. x\<lparr>rt_consumed_at := Some (micros now), rt_replacement := Some new_id\<rparr>)
         (refresh_tokens d)\<rparr>)) (\<lambda>_.
     bind_tx (exec (\<lambda>_. insert_refresh
         \<lparr>rt_id = new_id, rt_family = rt_family r, rt_session = rt_session r,
          rt_parent = Some (rt_id r), rt_hash = new_hash, rt_expires_at = micros new_expires,
          rt_consumed_at = None, rt_replacement = None, rt_revoked_at = None\<rparr>)) (\<lambda>_.
     bind_tx (exec (\<lambda>_ d. Inr (d\<lparr>auth_sessions := update_where (\<lambda>x. as_id x = as_id s)
         (\<lambda>x. x\<lparr>as_last_seen_at := micros now\<rparr>) (auth_sessions d)\<rparr>))) (\<lambda>_.
     exec (\<lambda>_ d. Inr (d\<lparr>installs :=
         update_where (\<lambda>v. install_key v = (as_install s, as_account s))
           (\<lambda>v. v\<lparr>di_last_seen_at := micros now\<rparr>) (installs d)\<rparr>)))))"

definition rotate_body ::
  "uuid \<Rightarrow> bytes \<Rightarrow> uuid \<Rightarrow> bytes \<Rightarrow> time \<Rightarrow> (db, (store_error + auth_identity) outcome) tx" where
  "rotate_body old_id old_hash new_id new_hash new_expires =
     bind_tx (query_row ErrInvalidRefresh (\<lambda>_ d. first_row (refresh_join old_id d))) (\<lambda>(r, s, v).
     bind_tx go_now (\<lambda>now.
     if rt_hash r \<noteq> old_hash then raise (Sentinel ErrInvalidRefresh)
     else if rt_consumed_at r \<noteq> None then
       bind_tx (revoke_family (rt_family r) (rt_session r) now) (\<lambda>_.
       commit (Inl ErrRefreshReuse))
     else if rt_revoked_at r \<noteq> None \<or> as_revoked_at s \<noteq> None \<or> di_revoked_at v \<noteq> None \<or>
         rt_expires_at r < now \<or> as_expires_at s < now
     then raise (Sentinel ErrInvalidRefresh)
     else
       bind_tx (exchange_token r s new_id new_hash new_expires now) (\<lambda>_.
       commit (Inr \<lparr>id_account = as_account s, id_session = rt_session r,
         id_installation = as_install s, id_pair = None, id_display_name = []\<rparr>))))"

definition rotate_refresh ::
  "uuid \<Rightarrow> bytes \<Rightarrow> uuid \<Rightarrow> bytes \<Rightarrow> time \<Rightarrow> (db, auth_identity) tx" where
  "rotate_refresh old_id old_hash new_id new_hash new_expires =
     bind_tx (transaction (rotate_body old_id old_hash new_id new_hash new_expires)) (\<lambda>result.
     case result of Inl e \<Rightarrow> raise (Sentinel e) | Inr idn \<Rightarrow> ret idn)"

section \<open>Who a request is from\<close>

text \<open>A missing passkey row (the left join) counts as not revoked.\<close>

definition credential_live :: "db \<Rightarrow> bytes option \<Rightarrow> bool" where
  "credential_live d c = (case c of None \<Rightarrow> True
     | Some i \<Rightarrow> (case List.find (\<lambda>x. cr_id x = i) (credentials d) of
           None \<Rightarrow> True | Some x \<Rightarrow> cr_revoked_at x = None))"

definition pair_of :: "db \<Rightarrow> uuid \<Rightarrow> uuid option" where
  "pair_of d a = map_option pm_pair (List.find (\<lambda>m. pm_account m = a) (members d))"

definition valid_session :: "auth_identity \<Rightarrow> time \<Rightarrow> db \<Rightarrow> (string \<times> uuid option) list" where
  "valid_session claimed clock d = [(ac_display_name a, pair_of d (ac_id a)).
     s \<leftarrow> auth_sessions d,
     as_id s = id_session claimed \<and> as_account s = id_account claimed \<and>
       as_install s = id_installation claimed \<and> as_revoked_at s = None \<and> clock < as_expires_at s \<and>
       credential_live d (as_credential s),
     a \<leftarrow> accounts d, ac_id a = as_account s \<and> ac_status a = AccountActive,
     v \<leftarrow> installs d, di_id v = as_install s \<and> di_account v = as_account s \<and> di_revoked_at v = None]"

definition validate_auth_session :: "auth_identity \<Rightarrow> (db, auth_identity) tx" where
  "validate_auth_session claimed =
     bind_tx (query_row ErrNotFound (\<lambda>e d. first_row (valid_session claimed (e_clock e) d)))
       (\<lambda>(name, pair_id).
     ret (claimed\<lparr>id_display_name := name, id_pair := pair_id\<rparr>))"

section \<open>The account and its lists\<close>

definition partner_name :: "db \<Rightarrow> uuid \<Rightarrow> string" where
  "partner_name d a = (case pair_of d a of None \<Rightarrow> []
     | Some p \<Rightarrow> (case List.find (\<lambda>m. pm_pair m = p \<and> pm_account m \<noteq> a) (members d) of
           None \<Rightarrow> []
         | Some m \<Rightarrow> (case List.find (\<lambda>r. ac_id r = pm_account m) (accounts d) of
               None \<Rightarrow> [] | Some r \<Rightarrow> ac_display_name r)))"

definition get_account :: "uuid \<Rightarrow> (db, account) tx" where
  "get_account account_id = query_row ErrNotFound (\<lambda>_ d.
     map_option (\<lambda>a. (account_of_row a)\<lparr>acc_pair := pair_of d account_id,
       acc_partner_name := partner_name d account_id,
       acc_credential_count := int (count_where
         (\<lambda>c. cr_account c = account_id \<and> cr_revoked_at c = None) (credentials d))\<rparr>)
     (List.find (\<lambda>a. ac_id a = account_id \<and> ac_status a = AccountActive) (accounts d)))"

text \<open>\<open>ORDER BY ... DESC\<close>.\<close>

definition sort_desc :: "('r \<Rightarrow> time) \<Rightarrow> 'r list \<Rightarrow> 'r list" where
  "sort_desc k rows = rev (sort_key k rows)"

definition list_credentials :: "uuid \<Rightarrow> (db, credential_record list) tx" where
  "list_credentials account_id = select (\<lambda>_ d.
     map (\<lambda>c. \<lparr>ce_id = cr_id c, ce_label = cr_label c, ce_created_at = cr_created_at c,
       ce_last_used_at = cr_last_used_at c\<rparr>)
     (sort_desc cr_created_at (filter (\<lambda>c. cr_account c = account_id \<and> cr_revoked_at c = None)
       (credentials d))))"

definition list_sessions :: "uuid \<Rightarrow> uuid \<Rightarrow> (db, auth_session_record list) tx" where
  "list_sessions account_id current_id = select (\<lambda>e d.
     [\<lparr>ar_id = as_id s, ar_installation = as_install s, ar_installation_name = di_name v,
       ar_platform = di_platform v, ar_created_at = as_created_at s,
       ar_last_seen_at = as_last_seen_at s, ar_current = (as_id s = current_id)\<rparr>.
       s \<leftarrow> sort_desc as_last_seen_at (filter (\<lambda>s. as_account s = account_id \<and>
         as_revoked_at s = None \<and> e_clock e < as_expires_at s) (auth_sessions d)),
       v \<leftarrow> installs d, di_id v = as_install s \<and> di_account v = as_account s])"

definition list_installations :: "uuid \<Rightarrow> (db, installation_record list) tx" where
  "list_installations account_id = select (\<lambda>_ d.
     map (\<lambda>v. \<lparr>ir_id = di_id v, ir_name = di_name v, ir_platform = di_platform v,
       ir_created_at = di_created_at v, ir_last_seen_at = di_last_seen_at v\<rparr>)
     (sort_desc di_last_seen_at (filter (\<lambda>v. di_account v = account_id \<and> di_revoked_at v = None)
       (installs d))))"

section \<open>Revocation\<close>

text \<open>\<open>COALESCE(revoked_at, clock_timestamp())\<close> with a new reason, also for revoked sessions.\<close>

definition revoke_sessions ::
  "(auth_session_row \<Rightarrow> bool) \<Rightarrow> string \<Rightarrow> time \<Rightarrow> db \<Rightarrow> db" where
  "revoke_sessions P reason clock d = d\<lparr>auth_sessions := update_where P
     (\<lambda>s. s\<lparr>as_revoked_at := (case as_revoked_at s of None \<Rightarrow> Some clock | t \<Rightarrow> t),
       as_revoke_reason := Some reason\<rparr>) (auth_sessions d)\<rparr>"

definition revoke_credential :: "uuid \<Rightarrow> bytes \<Rightarrow> (db, unit) tx" where
  "revoke_credential account_id credential_id = transaction (
     bind_tx (exec_one ErrNotFound
       (\<lambda>_ d. count_where (live_credential account_id credential_id) (credentials d))
       (\<lambda>e d. d\<lparr>credentials := update_where (live_credential account_id credential_id)
         (\<lambda>c. c\<lparr>cr_revoked_at := Some (e_clock e)\<rparr>) (credentials d)\<rparr>)) (\<lambda>_.
     bind_tx (exec (\<lambda>e d. Inr (revoke_sessions (\<lambda>s. as_account s = account_id \<and>
         as_credential s = Some credential_id) ''passkey_revoked'' (e_clock e) d))) (\<lambda>_.
     commit ())))"

definition revoke_session :: "uuid \<Rightarrow> uuid \<Rightarrow> string \<Rightarrow> (db, unit) tx" where
  "revoke_session account_id session_id reason =
     exec_one ErrNotFound
       (\<lambda>_ d. count_where (\<lambda>s. as_id s = session_id \<and> as_account s = account_id \<and>
         as_revoked_at s = None) (auth_sessions d))
       (\<lambda>e d. d\<lparr>auth_sessions := update_where (\<lambda>s. as_id s = session_id \<and>
           as_account s = account_id \<and> as_revoked_at s = None)
         (\<lambda>s. s\<lparr>as_revoked_at := Some (e_clock e), as_revoke_reason := Some reason\<rparr>)
         (auth_sessions d)\<rparr>)"

definition live_install :: "uuid \<Rightarrow> uuid \<Rightarrow> install_row \<Rightarrow> bool" where
  "live_install account_id installation_id v \<longleftrightarrow> di_id v = installation_id \<and>
     di_account v = account_id \<and> di_revoked_at v = None"

definition revoke_installation :: "uuid \<Rightarrow> uuid \<Rightarrow> (db, unit) tx" where
  "revoke_installation account_id installation_id = transaction (
     bind_tx (exec_one ErrNotFound
       (\<lambda>_ d. count_where (live_install account_id installation_id) (installs d))
       (\<lambda>e d. d\<lparr>installs := update_where (live_install account_id installation_id)
         (\<lambda>v. v\<lparr>di_revoked_at := Some (e_clock e)\<rparr>) (installs d)\<rparr>)) (\<lambda>_.
     bind_tx (exec (\<lambda>e d. Inr (revoke_sessions (\<lambda>s. as_account s = account_id \<and>
         as_install s = installation_id) ''installation_revoked'' (e_clock e) d))) (\<lambda>_.
     bind_tx (exec (\<lambda>e d. Inr (d\<lparr>push_devices := update_where
         (\<lambda>v. pd_account v = account_id \<and> pd_install v = installation_id)
         (\<lambda>v. v\<lparr>pd_revoked_at := (case pd_revoked_at v of None \<Rightarrow> Some (e_clock e) | t \<Rightarrow> t)\<rparr>)
         (push_devices d)\<rparr>))) (\<lambda>_.
     commit ()))))"

end
