(* ===== verification/AuthInvariants.thy ===== *)
theory AuthInvariants
  imports AuthStore
begin

text \<open>
  The invariant of the tables behind sign-in, and what no operation of \<open>AuthStore\<close> takes back:
  a revoked session, a spent refresh token, a revoked passkey, a consumed challenge stay so.
\<close>

section \<open>The invariant\<close>

definition unspent :: "refresh_row \<Rightarrow> bool" where
  "unspent r \<longleftrightarrow> rt_consumed_at r = None"

text \<open>
  Keys are unique; every token belongs to a session; a family is named after its first token,
  lives in one session, and has at most one token that is not spent.
\<close>

definition tokens_inv :: "uuid set \<Rightarrow> refresh_row list \<Rightarrow> bool" where
  "tokens_inv ss t \<longleftrightarrow> distinct (map rt_id t) \<and> rt_session ` set t \<subseteq> ss \<and>
     (\<forall>r \<in> set t. \<exists>x \<in> set t. rt_id x = rt_family r \<and> rt_session x = rt_session r \<and>
        rt_family x = rt_family r) \<and>
     distinct (map rt_family (filter unspent t))"

definition auth_inv :: "db \<Rightarrow> bool" where
  "auth_inv d \<longleftrightarrow> distinct (map ac_id (accounts d)) \<and> distinct (map cr_id (credentials d)) \<and>
     distinct (map ch_id (challenges d)) \<and> distinct (map recovery_id (recovery_codes d)) \<and>
     distinct (map install_key (installs d)) \<and> distinct (map as_id (auth_sessions d)) \<and>
     tokens_inv (as_id ` set (auth_sessions d)) (refresh_tokens d)"

lemma tokens_inv_sessions: "tokens_inv ss t \<Longrightarrow> ss \<subseteq> ss' \<Longrightarrow> tokens_inv ss' t"
  by (auto simp: tokens_inv_def)

lemma family_session:
  assumes "tokens_inv ss t" and "r \<in> set t" and "r' \<in> set t" and "rt_family r = rt_family r'"
  shows "rt_session r = rt_session r'"
proof -
  obtain x where x: "x \<in> set t" "rt_id x = rt_family r" "rt_session x = rt_session r"
    using assms(1,2) unfolding tokens_inv_def by blast
  obtain y where y: "y \<in> set t" "rt_id y = rt_family r'" "rt_session y = rt_session r'"
    using assms(1,3) unfolding tokens_inv_def by blast
  have "x = y" using assms(1,4) x(1,2) y(1,2) by (auto simp: tokens_inv_def dest: distinct_key_eq)
  with x y show ?thesis by simp
qed

text \<open>A new session starts a family of its own.\<close>

lemma tokens_inv_root:
  assumes "tokens_inv ss t" and "rt_id r \<notin> rt_id ` set t" and "rt_family r = rt_id r"
    and "rt_session r \<in> ss"
  shows "tokens_inv ss (t @ [r])"
proof -
  have "rt_family r \<notin> rt_family ` set t"
  proof
    assume "rt_family r \<in> rt_family ` set t"
    then obtain x where "x \<in> set t" "rt_id x = rt_family r" using assms(1) by (auto simp: tokens_inv_def)
    with assms(2,3) show False by (metis imageI)
  qed
  then show ?thesis using assms by (auto simp: tokens_inv_def)
qed

text \<open>Tokens that change neither identity, family, session nor become unspent.\<close>

definition token_step :: "refresh_row \<Rightarrow> refresh_row \<Rightarrow> bool" where
  "token_step r r' \<longleftrightarrow> rt_id r' = rt_id r \<and> rt_family r' = rt_family r \<and>
     rt_session r' = rt_session r \<and> rt_hash r' = rt_hash r \<and>
     (rt_consumed_at r \<noteq> None \<longrightarrow> rt_consumed_at r' \<noteq> None) \<and>
     (rt_revoked_at r \<noteq> None \<longrightarrow> rt_revoked_at r' \<noteq> None)"

lemma token_step_refl [simp]: "token_step r r"
  by (simp add: token_step_def)

lemma map_filter_update_where:
  assumes "\<And>r. P r \<Longrightarrow> k (f r) = k r" and "\<And>r. P r \<Longrightarrow> Q (f r) \<Longrightarrow> Q r"
  shows "distinct (map k (filter Q xs)) \<Longrightarrow> distinct (map k (filter Q (update_where P f xs)))"
proof (induction xs)
  case (Cons x xs)
  have sub: "k ` set (filter Q (update_where P f xs)) \<subseteq> k ` set (filter Q xs)"
    using assms by (force simp: set_update_where)
  show ?case
  proof (cases "Q x")
    case True
    then show ?thesis using Cons sub assms(1) [of x] by auto
  next
    case False
    then show ?thesis using Cons assms(2) [of x] by auto
  qed
qed simp

lemma tokens_inv_update:
  assumes "tokens_inv ss t" and step: "\<And>r. P r \<Longrightarrow> token_step r (f r)"
  shows "tokens_inv ss (update_where P f t)"
  unfolding tokens_inv_def
proof (intro conjI ballI)
  have keys: "map rt_id (update_where P f t) = map rt_id t" "map rt_session (update_where P f t) = map rt_session t"
    using step by (auto simp: token_step_def intro!: map_update_where)
  show "distinct (map rt_id (update_where P f t))" using assms(1) by (simp add: keys tokens_inv_def)
  show "rt_session ` set (update_where P f t) \<subseteq> ss"
    using assms(1) arg_cong [OF keys(2), of set] by (simp add: tokens_inv_def)
  show "distinct (map rt_family (filter unspent (update_where P f t)))"
  proof (rule map_filter_update_where)
    show "distinct (map rt_family (filter unspent t))" using assms(1) by (simp add: tokens_inv_def)
    show "rt_family (f r) = rt_family r" if "P r" for r using step [OF that] by (simp add: token_step_def)
    show "unspent r" if "P r" "unspent (f r)" for r
      using step [OF that(1)] that(2) unfolding token_step_def unspent_def by blast
  qed
  fix r
  assume "r \<in> set (update_where P f t)"
  then obtain r0 where r0: "r0 \<in> set t" "r = (if P r0 then f r0 else r0)"
    by (auto simp: update_where_def)
  obtain x where x: "x \<in> set t" "rt_id x = rt_family r0" "rt_session x = rt_session r0" "rt_family x = rt_family r0"
    using assms(1) r0(1) unfolding tokens_inv_def by blast
  have "(if P x then f x else x) \<in> set (update_where P f t)" using x(1) by (simp add: update_where_def)
  then show "\<exists>x \<in> set (update_where P f t). rt_id x = rt_family r \<and> rt_session x = rt_session r \<and>
      rt_family x = rt_family r"
    using x r0(2) step by (intro bexI [of _ "if P x then f x else x"]) (auto simp: token_step_def)
qed

section \<open>What is never taken back\<close>

definition kept :: "('r \<Rightarrow> 'r \<Rightarrow> bool) \<Rightarrow> 'r list \<Rightarrow> 'r list \<Rightarrow> bool" where
  "kept R xs ys \<longleftrightarrow> (\<forall>x \<in> set xs. \<exists>y \<in> set ys. R x y)"

lemma keptD: "kept R xs ys \<Longrightarrow> x \<in> set xs \<Longrightarrow> \<exists>y \<in> set ys. R x y"
  by (simp add: kept_def)

lemma kept_refl: "(\<And>x. R x x) \<Longrightarrow> kept R xs xs"
  by (auto simp: kept_def)

lemma kept_append: "(\<And>x. R x x) \<Longrightarrow> kept R xs (xs @ ys)"
  by (auto simp: kept_def)

lemma kept_update: "(\<And>x. R x x) \<Longrightarrow> (\<And>x. P x \<Longrightarrow> R x (f x)) \<Longrightarrow> kept R xs (update_where P f xs)"
  unfolding kept_def
proof
  fix x
  assume "\<And>x. R x x" and "\<And>x. P x \<Longrightarrow> R x (f x)" and "x \<in> set xs"
  then show "\<exists>y \<in> set (update_where P f xs). R x y"
    by (intro bexI [of _ "if P x then f x else x"]) (auto simp: update_where_def)
qed

lemma kept_trans: "kept R xs ys \<Longrightarrow> kept R ys zs \<Longrightarrow> (\<And>x y z. R x y \<Longrightarrow> R y z \<Longrightarrow> R x z) \<Longrightarrow> kept R xs zs"
  unfolding kept_def by blast

definition account_step :: "account_row \<Rightarrow> account_row \<Rightarrow> bool" where
  "account_step a b \<longleftrightarrow> ac_id b = ac_id a \<and> ac_display_name b = ac_display_name a \<and>
     (ac_status a = AccountActive \<longrightarrow> ac_status b = AccountActive)"

definition session_step :: "auth_session_row \<Rightarrow> auth_session_row \<Rightarrow> bool" where
  "session_step s r \<longleftrightarrow> as_id r = as_id s \<and> as_account r = as_account s \<and>
     as_install r = as_install s \<and> as_credential r = as_credential s \<and>
     as_expires_at r = as_expires_at s \<and> (as_revoked_at s \<noteq> None \<longrightarrow> as_revoked_at r \<noteq> None)"

definition credential_step :: "credential_row \<Rightarrow> credential_row \<Rightarrow> bool" where
  "credential_step c r \<longleftrightarrow> cr_id r = cr_id c \<and> cr_account r = cr_account c \<and>
     (cr_revoked_at c \<noteq> None \<longrightarrow> cr_revoked_at r \<noteq> None)"

definition challenge_step :: "challenge_row \<Rightarrow> challenge_row \<Rightarrow> bool" where
  "challenge_step c r \<longleftrightarrow> ch_id r = ch_id c \<and> ch_account r = ch_account c \<and>
     (ch_consumed_at c \<noteq> None \<longrightarrow> ch_consumed_at r \<noteq> None)"

lemmas row_step_defs = account_step_def session_step_def credential_step_def challenge_step_def
  token_step_def

text \<open>Only a pending account is ever deleted, so the rows of an active one are kept.\<close>

definition active_account :: "db \<Rightarrow> uuid \<Rightarrow> bool" where
  "active_account d a \<longleftrightarrow> (\<exists>r \<in> set (accounts d). ac_id r = a \<and> ac_status r = AccountActive)"

definition held_sessions :: "db \<Rightarrow> auth_session_row list" where
  "held_sessions d = filter (\<lambda>s. active_account d (as_account s)) (auth_sessions d)"

definition held_tokens :: "db \<Rightarrow> refresh_row list" where
  "held_tokens d = filter (\<lambda>r. rt_session r \<in> as_id ` set (held_sessions d)) (refresh_tokens d)"

definition held_credentials :: "db \<Rightarrow> credential_row list" where
  "held_credentials d = filter (\<lambda>c. active_account d (cr_account c)) (credentials d)"

definition held_challenges :: "db \<Rightarrow> challenge_row list" where
  "held_challenges d = filter (\<lambda>c. case ch_account c of None \<Rightarrow> True | Some a \<Rightarrow> active_account d a)
     (challenges d)"

definition auth_mono :: "db \<Rightarrow> db \<Rightarrow> bool" where
  "auth_mono d d' \<longleftrightarrow> (\<forall>a. active_account d a \<longrightarrow> active_account d' a) \<and>
     kept session_step (held_sessions d) (held_sessions d') \<and>
     kept token_step (held_tokens d) (held_tokens d') \<and>
     kept credential_step (held_credentials d) (held_credentials d') \<and>
     kept challenge_step (held_challenges d) (held_challenges d')"

lemma auth_mono_refl [simp]: "auth_mono d d"
  by (auto simp: auth_mono_def row_step_defs intro: kept_refl)

lemma auth_mono_trans: "auth_mono d d' \<Longrightarrow> auth_mono d' d'' \<Longrightarrow> auth_mono d d''"
  unfolding auth_mono_def
  by (elim conjE, intro conjI; (blast | rule kept_trans, assumption, assumption, force simp: row_step_defs))

lemma auth_mono_frame:
  assumes act: "\<And>a. active_account d a \<Longrightarrow> active_account d' a"
    and s: "kept session_step (auth_sessions d) (auth_sessions d')"
    and tk: "kept token_step (refresh_tokens d) (refresh_tokens d')"
    and c: "kept credential_step (credentials d) (credentials d')"
    and h: "kept challenge_step (challenges d) (challenges d')"
  shows "auth_mono d d'"
proof -
  have ses: "kept session_step (held_sessions d) (held_sessions d')"
    using s act unfolding kept_def held_sessions_def session_step_def by fastforce
  have "\<exists>y \<in> set (held_tokens d'). token_step x y" if x: "x \<in> set (held_tokens d)" for x
  proof -
    obtain v where v: "v \<in> set (held_sessions d)" "as_id v = rt_session x"
      using x by (auto simp: held_tokens_def)
    obtain u where u: "u \<in> set (held_sessions d')" "as_id u = rt_session x"
      using keptD [OF ses v(1)] v(2) by (auto simp: session_step_def)
    obtain y where y: "y \<in> set (refresh_tokens d')" "token_step x y"
      using keptD [OF tk, of x] x by (auto simp: held_tokens_def)
    then have "y \<in> set (held_tokens d')" using u by (auto simp: held_tokens_def token_step_def intro!: image_eqI [of _ _ u])
    with y show ?thesis by blast
  qed
  moreover have "kept credential_step (held_credentials d) (held_credentials d')"
    using c act unfolding kept_def held_credentials_def credential_step_def by fastforce
  moreover have "\<exists>y \<in> set (held_challenges d'). challenge_step x y" if x: "x \<in> set (held_challenges d)" for x
  proof -
    obtain y where y: "y \<in> set (challenges d')" "challenge_step x y"
      using keptD [OF h, of x] x by (auto simp: held_challenges_def)
    then have "y \<in> set (held_challenges d')" using x act
      by (auto simp: held_challenges_def challenge_step_def split: option.splits)
    with y show ?thesis by blast
  qed
  ultimately show ?thesis using act ses by (auto simp: auth_mono_def kept_def)
qed

section \<open>Every operation keeps both\<close>

definition auth_ok :: "db \<Rightarrow> db \<Rightarrow> bool" where
  "auth_ok d0 d \<longleftrightarrow> auth_inv d \<and> auth_mono d0 d"

named_theorems auth_intros \<open>programs that keep the sign-in invariant and its history\<close>

lemma auth_okI: "auth_ok d0 d \<Longrightarrow> auth_inv d' \<Longrightarrow> auth_mono d d' \<Longrightarrow> auth_ok d0 d'"
  by (auto simp: auth_ok_def intro: auth_mono_trans)

lemma auth_exec:
  assumes "\<And>e d d'. auth_inv d \<Longrightarrow> q e d = Inr d' \<Longrightarrow> auth_inv d' \<and> auth_mono d d'"
  shows "preserves (\<lambda>_. auth_ok d0) (exec q)"
  by (rule preserves_exec) (use assms in \<open>auto simp: auth_ok_def intro: auth_mono_trans\<close>)

lemma auth_sql:
  assumes "\<And>e d v d'. auth_inv d \<Longrightarrow> q e d = Inr (v, d') \<Longrightarrow> auth_inv d' \<and> auth_mono d d'"
  shows "preserves (\<lambda>_. auth_ok d0) (sql q)"
  by (rule preserves_sql) (use assms in \<open>auto simp: auth_ok_def intro: auth_mono_trans\<close>)

lemma auth_exec_one:
  assumes "\<And>e d. auth_inv d \<Longrightarrow> auth_inv (f e d) \<and> auth_mono d (f e d)"
  shows "preserves (\<lambda>_. auth_ok d0) (exec_one err n f)"
  unfolding exec_one_def
  by (intro inv_intros auth_sql) (use assms in auto)

lemma auth_query_row [auth_intros]: "preserves (\<lambda>_. auth_ok d0) (query_row err q)"
  unfolding query_row_def by (intro inv_intros stable_db)

lemma auth_wrap_error: "preserves I m \<Longrightarrow> preserves I (wrap_error msg m)"
  by (auto simp: preserves_def wrap_error_def split: prod.splits sum.splits)

lemmas kept_intros = kept_refl kept_append kept_update

lemma active_account_cong: "accounts d' = accounts d \<Longrightarrow> active_account d' = active_account d"
  by (simp add: active_account_def fun_eq_iff)

lemma active_account_append: "accounts d' = accounts d @ [r] \<Longrightarrow> active_account d a \<Longrightarrow> active_account d' a"
  by (auto simp: active_account_def)

lemma refl_steps [simp]: "session_step s s" "credential_step c c" "challenge_step h h" "account_step a a"
  by (simp_all add: row_step_defs)

lemma auth_insert_account:
  "auth_inv d \<Longrightarrow> insert_account r d = Inr d' \<Longrightarrow> auth_inv d' \<and> auth_mono d d'"
  by (auto simp: insert_account_def auth_inv_def active_account_def intro!: auth_mono_frame kept_intros)

lemma auth_insert_credential:
  "auth_inv d \<Longrightarrow> insert_credential r d = Inr d' \<Longrightarrow> auth_inv d' \<and> auth_mono d d'"
  by (auto simp: insert_credential_def auth_inv_def active_account_def intro!: auth_mono_frame kept_intros)

lemma auth_insert_challenge:
  "auth_inv d \<Longrightarrow> insert_challenge r d = Inr d' \<Longrightarrow> auth_inv d' \<and> auth_mono d d'"
  by (auto simp: insert_challenge_def auth_inv_def active_account_def intro!: auth_mono_frame kept_intros)

lemma auth_insert_recovery:
  "auth_inv d \<Longrightarrow> insert_recovery r d = Inr d' \<Longrightarrow> auth_inv d' \<and> auth_mono d d'"
  by (auto simp: insert_recovery_def auth_inv_def active_account_def intro!: auth_mono_frame kept_intros)

lemma auth_upsert_install:
  assumes "auth_inv d" and "upsert_install a v c d = Inr d'"
  shows "auth_inv d' \<and> auth_mono d d'"
proof -
  have "map install_key (update_where (\<lambda>u. install_key u = (dv_id v, a))
      (\<lambda>u. u\<lparr>di_platform := dv_platform v, di_name := dv_name v, di_last_seen_at := c,
        di_revoked_at := None\<rparr>) (installs d)) = map install_key (installs d)"
    by (rule map_update_where) (simp add: install_key_def)
  then show ?thesis using assms
    by (auto simp: upsert_install_def auth_inv_def active_account_def install_exists_def install_key_def
        intro!: auth_mono_frame kept_intros)
qed

lemma auth_insert_session:
  "auth_inv d \<Longrightarrow> insert_auth_session r d = Inr d' \<Longrightarrow> auth_inv d' \<and> auth_mono d d'"
  by (auto simp: insert_auth_session_def auth_inv_def active_account_def
      intro!: auth_mono_frame kept_intros tokens_inv_sessions [OF _ subset_insertI])

lemma auth_insert_root:
  "auth_inv d \<Longrightarrow> insert_refresh r d = Inr d' \<Longrightarrow> rt_family r = rt_id r \<Longrightarrow> auth_inv d' \<and> auth_mono d d'"
  by (auto simp: insert_refresh_def auth_inv_def active_account_def
      intro!: auth_mono_frame kept_intros tokens_inv_root)

text \<open>Updates of rows by the steps above.\<close>

lemma auth_update_sessions:
  assumes "auth_inv d" and step: "\<And>s. P s \<Longrightarrow> session_step s (f s)"
  shows "auth_inv (d\<lparr>auth_sessions := update_where P f (auth_sessions d)\<rparr>) \<and>
    auth_mono d (d\<lparr>auth_sessions := update_where P f (auth_sessions d)\<rparr>)"
proof -
  have "map as_id (update_where P f (auth_sessions d)) = map as_id (auth_sessions d)"
    by (rule map_update_where) (use step in \<open>simp add: session_step_def\<close>)
  then show ?thesis using assms arg_cong [of "map as_id _" "map as_id _" set]
    by (auto simp: auth_inv_def active_account_def simp flip: set_map intro!: auth_mono_frame kept_intros)
qed

lemma auth_update_credentials:
  assumes "auth_inv d" and step: "\<And>s. P s \<Longrightarrow> credential_step s (f s)"
  shows "auth_inv (d\<lparr>credentials := update_where P f (credentials d)\<rparr>) \<and>
    auth_mono d (d\<lparr>credentials := update_where P f (credentials d)\<rparr>)"
proof -
  have "map cr_id (update_where P f (credentials d)) = map cr_id (credentials d)"
    by (rule map_update_where) (use step in \<open>simp add: credential_step_def\<close>)
  then show ?thesis using assms
    by (auto simp: auth_inv_def active_account_def intro!: auth_mono_frame kept_intros)
qed

lemma auth_update_challenges:
  assumes "auth_inv d" and step: "\<And>s. P s \<Longrightarrow> challenge_step s (f s)"
  shows "auth_inv (d\<lparr>challenges := update_where P f (challenges d)\<rparr>) \<and>
    auth_mono d (d\<lparr>challenges := update_where P f (challenges d)\<rparr>)"
proof -
  have "map ch_id (update_where P f (challenges d)) = map ch_id (challenges d)"
    by (rule map_update_where) (use step in \<open>simp add: challenge_step_def\<close>)
  then show ?thesis using assms
    by (auto simp: auth_inv_def active_account_def intro!: auth_mono_frame kept_intros)
qed

lemma auth_update_tokens:
  assumes "auth_inv d" and step: "\<And>s. P s \<Longrightarrow> token_step s (f s)"
  shows "auth_inv (d\<lparr>refresh_tokens := update_where P f (refresh_tokens d)\<rparr>) \<and>
    auth_mono d (d\<lparr>refresh_tokens := update_where P f (refresh_tokens d)\<rparr>)"
  using assms
  by (auto simp: auth_inv_def active_account_def intro!: auth_mono_frame kept_intros tokens_inv_update)

lemma auth_update_recovery:
  assumes "auth_inv d" and step: "\<And>s. P s \<Longrightarrow> recovery_id (f s) = recovery_id s"
  shows "auth_inv (d\<lparr>recovery_codes := update_where P f (recovery_codes d)\<rparr>) \<and>
    auth_mono d (d\<lparr>recovery_codes := update_where P f (recovery_codes d)\<rparr>)"
  using assms map_update_where [of P recovery_id f "recovery_codes d"]
  by (auto simp: auth_inv_def active_account_def intro!: auth_mono_frame kept_intros)

lemma auth_update_installs:
  assumes "auth_inv d" and step: "\<And>s. P s \<Longrightarrow> install_key (f s) = install_key s"
  shows "auth_inv (d\<lparr>installs := update_where P f (installs d)\<rparr>) \<and>
    auth_mono d (d\<lparr>installs := update_where P f (installs d)\<rparr>)"
  using assms map_update_where [of P install_key f "installs d"]
  by (auto simp: auth_inv_def active_account_def intro!: auth_mono_frame kept_intros)

lemma auth_update_accounts:
  assumes "auth_inv d" and step: "\<And>s. P s \<Longrightarrow> account_step s (f s)"
  shows "auth_inv (d\<lparr>accounts := update_where P f (accounts d)\<rparr>) \<and>
    auth_mono d (d\<lparr>accounts := update_where P f (accounts d)\<rparr>)"
proof -
  have ids: "map ac_id (update_where P f (accounts d)) = map ac_id (accounts d)"
    by (rule map_update_where) (use step in \<open>simp add: account_step_def\<close>)
  have act: "active_account (d\<lparr>accounts := update_where P f (accounts d)\<rparr>) a" if a: "active_account d a" for a
  proof -
    obtain r where r: "r \<in> set (accounts d)" "ac_id r = a" "ac_status r = AccountActive"
      using a by (auto simp: active_account_def)
    then show ?thesis using step [of r] unfolding active_account_def
      by (intro bexI [of _ "if P r then f r else r"]) (auto simp: account_step_def update_where_def)
  qed
  then show ?thesis using assms ids by (auto simp: auth_inv_def intro!: auth_mono_frame kept_intros)
qed

section \<open>The operations\<close>

lemma auth_create_session [auth_intros]: "preserves (\<lambda>_. auth_ok d0) (create_session a c g)"
  unfolding create_session_def
  by (intro inv_intros auth_exec) (auto dest: auth_upsert_install auth_insert_session auth_insert_root)

lemma auth_insert_codes [auth_intros]: "preserves (\<lambda>_. auth_ok d0) (insert_recovery_codes a hs)"
  unfolding insert_recovery_codes_def
  by (intro inv_intros auth_exec) (auto dest: auth_insert_recovery)

lemma auth_create_pending: "preserves (\<lambda>_. auth_ok d0) (create_pending_account a h n r)"
  unfolding create_pending_account_def Let_def
  by (intro auth_wrap_error auth_sql) (auto split: sum.splits dest: auth_insert_account)

lemma auth_create_challenge: "preserves (\<lambda>_. auth_ok d0) (create_challenge i a p s e)"
  unfolding create_challenge_def by (intro auth_exec) (auto dest: auth_insert_challenge)

lemma auth_consume: "preserves (\<lambda>_. auth_ok d0) (consume_challenge i p)"
  unfolding consume_challenge_def
proof (intro inv_intros auth_sql)
  fix e :: sql_env and d v d'
  assume "auth_inv d" and "Inr (List.find (consumable i p (e_clock e)) (challenges d),
       d\<lparr>challenges := update_where (consumable i p (e_clock e))
         (\<lambda>c. c\<lparr>ch_consumed_at := Some (e_clock e)\<rparr>) (challenges d)\<rparr>) = Inr (v, d')"
  then show "auth_inv d' \<and> auth_mono d d'"
    using auth_update_challenges [of d "consumable i p (e_clock e)"
        "\<lambda>c. c\<lparr>ch_consumed_at := Some (e_clock e)\<rparr>"] by (auto simp: challenge_step_def)
qed

lemma auth_activate: "preserves (\<lambda>_. auth_ok d0) (activate_body a c j l hs g)"
  unfolding activate_body_def
  by (intro inv_intros auth_intros auth_exec auth_exec_one)
     (auto intro!: auth_update_accounts simp: account_step_def dest: auth_insert_credential)

lemma auth_login: "preserves (\<lambda>_. auth_ok d0) (login_body a c j g)"
  unfolding login_body_def
  by (intro inv_intros auth_intros auth_exec_one)
     (auto intro!: auth_update_credentials simp: credential_step_def)

lemma auth_add_credential: "preserves (\<lambda>_. auth_ok d0) (add_credential a c j l)"
  unfolding add_credential_def by (intro auth_exec) (auto dest: auth_insert_credential)

lemma auth_use_recovery: "preserves (\<lambda>_. auth_ok d0) (use_recovery_body a n g)"
  unfolding use_recovery_body_def
  by (intro inv_intros auth_intros auth_exec_one)
     (auto intro!: auth_update_recovery simp: recovery_id_def)

lemma auth_delete_codes:
  "auth_inv d \<Longrightarrow> auth_inv (d\<lparr>recovery_codes := filter P (recovery_codes d)\<rparr>) \<and>
   auth_mono d (d\<lparr>recovery_codes := filter P (recovery_codes d)\<rparr>)"
  by (auto simp: auth_inv_def active_account_def distinct_map_filter intro!: auth_mono_frame kept_intros)

lemma auth_revoke_sessions:
  "auth_inv d \<Longrightarrow> auth_inv (revoke_sessions P re c d) \<and> auth_mono d (revoke_sessions P re c d)"
  unfolding revoke_sessions_def by (rule auth_update_sessions) (auto simp: session_step_def split: option.splits)

lemma auth_revoke_session: "preserves (\<lambda>_. auth_ok d0) (revoke_session a i r)"
  unfolding revoke_session_def
  by (intro auth_exec_one auth_update_sessions) (auto simp: session_step_def)

lemma auth_push:
  "auth_inv d \<Longrightarrow> auth_inv (d\<lparr>push_devices := t\<rparr>) \<and> auth_mono d (d\<lparr>push_devices := t\<rparr>)"
  by (auto simp: auth_inv_def active_account_def intro!: auth_mono_frame kept_intros)

lemma auth_queue:
  "auth_inv d \<Longrightarrow> auth_inv (d\<lparr>jobs := js, push_devices := t\<rparr>) \<and> auth_mono d (d\<lparr>jobs := js, push_devices := t\<rparr>)"
  by (auto simp: auth_inv_def active_account_def intro!: auth_mono_frame kept_intros)

text \<open>Deleting a pending account takes nothing from an active one.\<close>

lemma tokens_inv_filter:
  assumes "tokens_inv ss t"
  shows "tokens_inv (ss - gone) (filter (\<lambda>r. rt_session r \<notin> gone) t)"
  unfolding tokens_inv_def
proof (intro conjI ballI)
  let ?u = "filter (\<lambda>r. rt_session r \<notin> gone) t"
  show "distinct (map rt_id ?u)" using assms by (simp add: tokens_inv_def distinct_map_filter)
  show "rt_session ` set ?u \<subseteq> ss - gone" using assms by (auto simp: tokens_inv_def)
  have "filter unspent ?u = filter (\<lambda>r. rt_session r \<notin> gone) (filter unspent t)"
    by (simp add: conj_commute)
  then show "distinct (map rt_family (filter unspent ?u))"
    using assms by (simp add: tokens_inv_def distinct_map_filter del: filter_filter)
  fix r
  assume r: "r \<in> set ?u"
  then obtain x where "x \<in> set t" "rt_id x = rt_family r" "rt_session x = rt_session r" "rt_family x = rt_family r"
    using assms unfolding tokens_inv_def by fastforce
  with r show "\<exists>x \<in> set ?u. rt_id x = rt_family r \<and> rt_session x = rt_session r \<and> rt_family x = rt_family r"
    by (intro bexI [of _ x]) auto
qed

lemma keys_left:
  assumes "distinct (map k xs)"
  shows "k ` set (filter (\<lambda>s. \<not> P s) xs) = k ` set xs - k ` {s \<in> set xs. P s}"
proof -
  have "inj_on k (set xs)" using assms by (simp add: distinct_map)
  then have "k ` (set xs - {s \<in> set xs. P s}) = k ` set xs - k ` {s \<in> set xs. P s}"
    by (rule inj_on_image_set_diff) auto
  moreover have "set (filter (\<lambda>s. \<not> P s) xs) = set xs - {s \<in> set xs. P s}" by auto
  ultimately show ?thesis by simp
qed

lemma kept_subset: "(\<And>x. R x x) \<Longrightarrow> (\<And>x. x \<in> set xs \<Longrightarrow> x \<in> set ys) \<Longrightarrow> kept R xs ys"
  by (auto simp: kept_def)

lemma auth_cascade:
  assumes inv: "auth_inv d" and p: "list_ex (\<lambda>r. ac_id r = a \<and> ac_status r = AccountPending) (accounts d)"
  shows "auth_inv (cascade_account a d) \<and> auth_mono d (cascade_account a d)"
proof -
  let ?d = "cascade_account a d"
  let ?gone = "as_id ` {s \<in> set (auth_sessions d). as_account s = a}"
  obtain r where r: "r \<in> set (accounts d)" "ac_id r = a" "ac_status r = AccountPending"
    using p by (auto simp: list_ex_iff)
  have ids: "distinct (map as_id (auth_sessions d))" "distinct (map ac_id (accounts d))"
    using inv by (simp_all add: auth_inv_def)
  have na: "b \<noteq> a" if "active_account d b" for b
    using that r distinct_key_eq [OF ids(2) _ r(1)] by (fastforce simp: active_account_def)
  have act: "active_account ?d b" if "active_account d b" for b
    using that na [OF that] by (auto simp: active_account_def cascade_account_def Let_def)
  have rows: "auth_sessions ?d = filter (\<lambda>s. as_account s \<noteq> a) (auth_sessions d)"
    "refresh_tokens ?d = filter (\<lambda>x. rt_session x \<notin> ?gone) (refresh_tokens d)"
    "credentials ?d = filter (\<lambda>c. cr_account c \<noteq> a) (credentials d)"
    "challenges ?d = filter (\<lambda>c. ch_account c \<noteq> Some a) (challenges d)"
    by (simp_all add: cascade_account_def Let_def)
  have left: "as_id ` set (auth_sessions ?d) = as_id ` set (auth_sessions d) - ?gone"
    unfolding rows(1) by (rule keys_left [OF ids(1)])
  have "tokens_inv (as_id ` set (auth_sessions ?d)) (refresh_tokens ?d)"
    unfolding left rows(2) by (rule tokens_inv_filter) (use inv in \<open>simp add: auth_inv_def\<close>)
  then have inv': "auth_inv ?d" using inv
    by (simp add: auth_inv_def rows) (simp add: cascade_account_def Let_def distinct_map_filter)
  have held: "x \<in> set (held_sessions ?d)" if "x \<in> set (held_sessions d)" for x
    using that na [of "as_account x"] act [of "as_account x"] by (auto simp: held_sessions_def rows)
  have tok: "x \<in> set (held_tokens ?d)" if x: "x \<in> set (held_tokens d)" for x
  proof -
    obtain s where s: "s \<in> set (held_sessions d)" "as_id s = rt_session x"
      using x by (auto simp: held_tokens_def)
    have "rt_session x \<notin> ?gone"
    proof
      assume "rt_session x \<in> ?gone"
      then obtain v where v: "v \<in> set (auth_sessions d)" "as_account v = a" "as_id v = as_id s"
        using s(2) by auto
      have "s \<in> set (auth_sessions d)" using s(1) by (simp add: held_sessions_def)
      then have "v = s" using v(1,3) distinct_key_eq [OF ids(1)] by blast
      then show False using s(1) na [of a] v(2) by (simp add: held_sessions_def)
    qed
    moreover have "rt_session x \<in> as_id ` set (held_sessions ?d)" using held [OF s(1)] s(2) by force
    ultimately show ?thesis using x by (simp add: held_tokens_def rows)
  qed
  have cred: "x \<in> set (held_credentials ?d)" if "x \<in> set (held_credentials d)" for x
    using that na [of "cr_account x"] act [of "cr_account x"] by (auto simp: held_credentials_def rows)
  have chal: "x \<in> set (held_challenges ?d)" if "x \<in> set (held_challenges d)" for x
    using that na act by (auto simp: held_challenges_def rows split: option.splits)
  have "auth_mono d ?d" unfolding auth_mono_def
    by (intro conjI allI impI act kept_subset refl_steps token_step_refl held tok cred chal)
  with inv' show ?thesis ..
qed

lemma auth_delete_pending: "preserves (\<lambda>_. auth_ok d0) (delete_pending_account a)"
  unfolding delete_pending_account_def
  by (rule auth_exec) (auto dest: auth_cascade split: if_splits)

section \<open>Rotation\<close>

lemma run_query_row [tx_simps]:
  "query_row err q w d = (Inr v, w', d') \<longleftrightarrow>
   w_fault w (w_step w) = None \<and> w' = tick w \<and> q (env_of w) d = Some v \<and> d' = d"
  by (auto simp: query_row_def tx_simps split: option.splits)

lemma run_exec_one [tx_simps]:
  "exec_one err n f w d = (Inr v, w', d') \<longleftrightarrow>
   w_fault w (w_step w) = None \<and> w' = tick w \<and> n (env_of w) d = 1 \<and> d' = f (env_of w) d"
  by (auto simp: exec_one_def tx_simps split: if_splits)

lemma refresh_join_first:
  assumes "first_row (refresh_join i d) = Some (r, s, v)"
  shows "r \<in> set (refresh_tokens d)" "rt_id r = i" "s \<in> set (auth_sessions d)" "as_id s = rt_session r"
    "v \<in> set (installs d)" "install_key v = (as_install s, as_account s)" "active_account d (as_account s)"
proof -
  have "(r, s, v) \<in> set (refresh_join i d)"
    using assms by (cases "refresh_join i d") (auto simp: first_row_def)
  then show "r \<in> set (refresh_tokens d)" "rt_id r = i" "s \<in> set (auth_sessions d)" "as_id s = rt_session r"
    "v \<in> set (installs d)" "install_key v = (as_install s, as_account s)" "active_account d (as_account s)"
    by (auto simp: refresh_join_def install_key_def active_account_def split: if_splits)
qed

text \<open>The two ways in which an exchange commits.\<close>

definition spend_token :: "refresh_row \<Rightarrow> uuid \<Rightarrow> time \<Rightarrow> db \<Rightarrow> db" where
  "spend_token r new_id now d = d\<lparr>refresh_tokens :=
     update_where (\<lambda>x. rt_id x = rt_id r \<and> rt_consumed_at x = None)
       (\<lambda>x. x\<lparr>rt_consumed_at := Some (micros now), rt_replacement := Some new_id\<rparr>) (refresh_tokens d)\<rparr>"

definition successor :: "refresh_row \<Rightarrow> uuid \<Rightarrow> bytes \<Rightarrow> time \<Rightarrow> refresh_row" where
  "successor r new_id new_hash new_expires =
     \<lparr>rt_id = new_id, rt_family = rt_family r, rt_session = rt_session r, rt_parent = Some (rt_id r),
      rt_hash = new_hash, rt_expires_at = micros new_expires, rt_consumed_at = None,
      rt_replacement = None, rt_revoked_at = None\<rparr>"

lemma rotate_body_effect:
  assumes "rotate_body i h n nh ne w d = (Inr out, w', d')"
  obtains (reuse) r s v now where "first_row (refresh_join i d) = Some (r, s, v)" and "rt_hash r = h"
      and "rt_consumed_at r \<noteq> None" and "out = Commit (Inl ErrRefreshReuse)"
      and "d' = d\<lparr>refresh_tokens := update_where (\<lambda>x. rt_family x = rt_family r)
          (\<lambda>x. x\<lparr>rt_revoked_at := (case rt_revoked_at x of None \<Rightarrow> Some (micros now) | t \<Rightarrow> t)\<rparr>) (refresh_tokens d),
        auth_sessions := update_where (\<lambda>x. as_id x = rt_session r)
          (\<lambda>x. x\<lparr>as_revoked_at := (case as_revoked_at x of None \<Rightarrow> Some (micros now) | t \<Rightarrow> t),
            as_revoke_reason := Some ''refresh_reuse''\<rparr>) (auth_sessions d)\<rparr>"
  | (exchange) r s v now where "first_row (refresh_join i d) = Some (r, s, v)" and "rt_hash r = h"
      and "rt_consumed_at r = None" and "rt_revoked_at r = None" and "as_revoked_at s = None"
      and "di_revoked_at v = None" and "now \<le> rt_expires_at r" and "now \<le> as_expires_at s"
      and "out = Commit (Inr \<lparr>id_account = as_account s, id_session = rt_session r,
         id_installation = as_install s, id_pair = None, id_display_name = []\<rparr>)"
      and "n \<notin> rt_id ` set (refresh_tokens d)"
      and "d' = (spend_token r n now d)\<lparr>refresh_tokens := refresh_tokens (spend_token r n now d) @ [successor r n nh ne],
        auth_sessions := update_where (\<lambda>x. as_id x = as_id s) (\<lambda>x. x\<lparr>as_last_seen_at := micros now\<rparr>) (auth_sessions d),
        installs := update_where (\<lambda>v. install_key v = (as_install s, as_account s))
           (\<lambda>v. v\<lparr>di_last_seen_at := micros now\<rparr>) (installs d)\<rparr>"
proof -
  obtain r s v where j: "first_row (refresh_join i d) = Some (r, s, v)" and ok: "rt_hash r = h"
    and rest: "(if rt_consumed_at r \<noteq> None then
       bind_tx (revoke_family (rt_family r) (rt_session r) (w_now w (Suc (w_step w)))) (\<lambda>_. commit (Inl ErrRefreshReuse))
     else if rt_revoked_at r \<noteq> None \<or> as_revoked_at s \<noteq> None \<or> di_revoked_at v \<noteq> None \<or>
         rt_expires_at r < w_now w (Suc (w_step w)) \<or> as_expires_at s < w_now w (Suc (w_step w))
     then raise (Sentinel ErrInvalidRefresh)
     else bind_tx (exchange_token r s n nh ne (w_now w (Suc (w_step w)))) (\<lambda>_. commit (Inr
         \<lparr>id_account = as_account s, id_session = rt_session r, id_installation = as_install s,
          id_pair = None, id_display_name = []\<rparr>))) (tick (tick w)) d = (Inr out, w', d')"
    using assms unfolding rotate_body_def
    by (auto simp: tx_simps tick_def split: if_splits)
  let ?now = "w_now w (Suc (w_step w))"
  show thesis
  proof (cases "rt_consumed_at r = None")
    case False
    with rest show thesis
      by (intro reuse [OF j ok False]) (auto simp: tx_simps revoke_family_def)
  next
    case True
    then have live: "\<not> (rt_revoked_at r \<noteq> None \<or> as_revoked_at s \<noteq> None \<or> di_revoked_at v \<noteq> None \<or>
         rt_expires_at r < ?now \<or> as_expires_at s < ?now)"
      using rest by (auto simp: raise_def split: if_splits)
    with True rest have out: "out = Commit (Inr \<lparr>id_account = as_account s, id_session = rt_session r,
         id_installation = as_install s, id_pair = None, id_display_name = []\<rparr>)"
      and ex: "\<exists>w1. exchange_token r s n nh ne ?now (tick (tick w)) d = (Inr (), w1, d')"
      by (auto simp: tx_simps)
    obtain d1 where new: "n \<notin> rt_id ` set (refresh_tokens d)"
      and ins: "insert_refresh (successor r n nh ne) (spend_token r n ?now d) = Inr d1"
      and d': "d' = d1\<lparr>auth_sessions := update_where (\<lambda>x. as_id x = as_id s) (\<lambda>x. x\<lparr>as_last_seen_at := micros ?now\<rparr>) (auth_sessions d1),
        installs := update_where (\<lambda>v. install_key v = (as_install s, as_account s))
           (\<lambda>v. v\<lparr>di_last_seen_at := micros ?now\<rparr>) (installs d1)\<rparr>"
    proof -
      have ids: "rt_id ` set (refresh_tokens (spend_token r n ?now d)) = rt_id ` set (refresh_tokens d)"
      proof -
        have "map rt_id (refresh_tokens (spend_token r n ?now d)) = map rt_id (refresh_tokens d)"
          by (simp add: spend_token_def map_update_where)
        then show ?thesis by (metis set_map)
      qed
      show thesis
        using ex that ids unfolding exchange_token_def
        by (auto simp: tx_simps spend_token_def successor_def insert_refresh_def)
    qed
    have "d1 = (spend_token r n ?now d)\<lparr>refresh_tokens := refresh_tokens (spend_token r n ?now d) @ [successor r n nh ne]\<rparr>"
      using ins by (auto simp: insert_refresh_def)
    then show thesis
      using live d' new out by (intro exchange [OF j ok True]) (auto simp: spend_token_def not_less)
  qed
qed

lemma no_unspent_sibling:
  assumes "tokens_inv ss t" and "r \<in> set t" and "rt_consumed_at r = None" and "x \<in> set t"
    and "rt_family x = rt_family r" and "rt_consumed_at x = None"
  shows "x = r"
  using assms distinct_key_eq [of rt_family "filter unspent t" x r]
  by (simp add: tokens_inv_def unspent_def)

lemma tokens_inv_successor:
  assumes inv: "tokens_inv ss t" and r: "r \<in> set t" and new: "n \<notin> rt_id ` set t"
    and spent: "\<And>x. x \<in> set t \<Longrightarrow> rt_family x = rt_family r \<Longrightarrow> rt_consumed_at x \<noteq> None"
  shows "tokens_inv ss (t @ [successor r n nh ne])"
  unfolding tokens_inv_def
proof (intro conjI ballI)
  let ?s = "successor r n nh ne"
  show "distinct (map rt_id (t @ [?s]))" using inv new by (simp add: tokens_inv_def successor_def)
  show "rt_session ` set (t @ [?s]) \<subseteq> ss" using inv r by (auto simp: tokens_inv_def successor_def)
  have "rt_family r \<notin> rt_family ` set (filter unspent t)" using spent by (force simp: unspent_def)
  then show "distinct (map rt_family (filter unspent (t @ [?s])))"
    using inv by (simp add: tokens_inv_def successor_def)
  fix x
  assume "x \<in> set (t @ [?s])"
  then obtain y where y: "y \<in> set t" "rt_family y = rt_family x" "rt_session y = rt_session x"
    using r by (auto simp: successor_def)
  then obtain z where "z \<in> set t" "rt_id z = rt_family x" "rt_session z = rt_session x" "rt_family z = rt_family x"
    using inv unfolding tokens_inv_def by fastforce
  then show "\<exists>z \<in> set (t @ [?s]). rt_id z = rt_family x \<and> rt_session z = rt_session x \<and> rt_family z = rt_family x"
    by (intro bexI [of _ z]) auto
qed

lemma auth_then:
  "auth_inv b \<and> auth_mono a b \<Longrightarrow> auth_inv c \<and> auth_mono b c \<Longrightarrow> auth_inv c \<and> auth_mono a c"
  by (blast intro: auth_mono_trans)

lemma auth_rotate_body:
  assumes run: "rotate_body i h n nh ne w d = (Inr out, w', d')" and inv: "auth_inv d"
  shows "auth_inv d' \<and> auth_mono d d'"
  using run
proof (cases rule: rotate_body_effect)
  case (reuse r s v now)
  let ?P = "\<lambda>x. rt_family x = rt_family r" and ?Q = "\<lambda>x. as_id x = rt_session r"
  let ?f = "\<lambda>x. x\<lparr>rt_revoked_at := (case rt_revoked_at x of None \<Rightarrow> Some (micros now) | t \<Rightarrow> t)\<rparr>"
  let ?g = "\<lambda>x. x\<lparr>as_revoked_at := (case as_revoked_at x of None \<Rightarrow> Some (micros now) | t \<Rightarrow> t),
    as_revoke_reason := Some ''refresh_reuse''\<rparr>"
  let ?d1 = "d\<lparr>refresh_tokens := update_where ?P ?f (refresh_tokens d)\<rparr>"
  have 1: "auth_inv ?d1 \<and> auth_mono d ?d1"
    by (rule auth_update_tokens [OF inv]) (simp add: token_step_def split: option.split)
  have 2: "auth_inv (?d1\<lparr>auth_sessions := update_where ?Q ?g (auth_sessions ?d1)\<rparr>) \<and>
    auth_mono ?d1 (?d1\<lparr>auth_sessions := update_where ?Q ?g (auth_sessions ?d1)\<rparr>)"
    by (rule auth_update_sessions) (use 1 in \<open>auto simp: session_step_def split: option.split\<close>)
  have "d' = ?d1\<lparr>auth_sessions := update_where ?Q ?g (auth_sessions ?d1)\<rparr>" using reuse(5) by simp
  then show ?thesis by (simp only: auth_then [OF 1 2])
next
  case (exchange r s v now)
  let ?d1 = "spend_token r n now d"
  note r = refresh_join_first [OF exchange(1)]
  have 1: "auth_inv ?d1 \<and> auth_mono d ?d1"
    unfolding spend_token_def by (rule auth_update_tokens [OF inv]) (simp add: token_step_def)
  have keys: "map rt_id (refresh_tokens ?d1) = map rt_id (refresh_tokens d)"
    by (simp add: spend_token_def map_update_where)
  let ?r = "r\<lparr>rt_consumed_at := Some (micros now), rt_replacement := Some n\<rparr>"
  have "?r \<in> set (refresh_tokens ?d1)"
    using r(1) exchange(3) by (auto simp: spend_token_def set_update_where)
  moreover have "rt_consumed_at x \<noteq> None" if "x \<in> set (refresh_tokens ?d1)" "rt_family x = rt_family r" for x
  proof
    assume c: "rt_consumed_at x = None"
    then have x: "x \<in> set (refresh_tokens d)" "rt_id x \<noteq> rt_id r"
      using that(1) by (auto simp: spend_token_def set_update_where)
    have "x = r"
      using inv no_unspent_sibling [OF _ r(1) exchange(3) x(1) that(2) c] by (auto simp: auth_inv_def)
    with x(2) show False by simp
  qed
  moreover have "n \<notin> rt_id ` set (refresh_tokens ?d1)" using exchange(10) keys by (metis set_map)
  moreover have "successor ?r n nh ne = successor r n nh ne" by (simp add: successor_def)
  ultimately have tok: "tokens_inv (as_id ` set (auth_sessions ?d1)) (refresh_tokens ?d1 @ [successor r n nh ne])"
    using 1 tokens_inv_successor [of "as_id ` set (auth_sessions ?d1)" "refresh_tokens ?d1" ?r n nh ne]
    by (simp add: auth_inv_def)
  let ?d2 = "?d1\<lparr>refresh_tokens := refresh_tokens ?d1 @ [successor r n nh ne]\<rparr>"
  have 2: "auth_inv ?d2 \<and> auth_mono ?d1 ?d2"
    using 1 tok by (auto simp: auth_inv_def active_account_def intro!: auth_mono_frame kept_intros)
  let ?f = "\<lambda>x. x\<lparr>as_last_seen_at := micros now\<rparr>" and ?Q = "\<lambda>x. as_id x = as_id s"
  let ?d3 = "?d2\<lparr>auth_sessions := update_where ?Q ?f (auth_sessions ?d2)\<rparr>"
  have 3: "auth_inv ?d3 \<and> auth_mono ?d2 ?d3"
    by (rule auth_update_sessions) (use 2 in \<open>auto simp: session_step_def\<close>)
  let ?R = "\<lambda>v. install_key v = (as_install s, as_account s)" and ?g = "\<lambda>v. v\<lparr>di_last_seen_at := micros now\<rparr>"
  let ?d4 = "?d3\<lparr>installs := update_where ?R ?g (installs ?d3)\<rparr>"
  have 4: "auth_inv ?d4 \<and> auth_mono ?d3 ?d4"
    by (rule auth_update_installs) (use 3 in \<open>auto simp: install_key_def\<close>)
  have "d' = ?d4" using exchange(11) by (simp add: spend_token_def)
  then show ?thesis by (simp only: auth_then [OF auth_then [OF auth_then [OF 1 2] 3] 4])
qed

end
