(* ===== verification/PushStore.thy ===== *)
theory PushStore
  imports AuthStore "HOL-Library.Product_Lexorder"
begin

text \<open>
  The notification queue: \<open>internal/store/push.go\<close>. A job is claimed for a while by a lock in
  the row, and settled by marking it sent, by failing it, or by putting it back for later.

  The claiming statement reads the clock several times; here it reads it once. Rows another
  transaction has locked are skipped by the code (\<open>SKIP LOCKED\<close>); transactions are atomic here,
  so none is locked. The rows come back in the order they were claimed in.
\<close>

section \<open>Devices\<close>

text \<open>\<open>crypto/sha256\<close> is a parameter: the store only compares the sums.\<close>

text \<open>\<open>INSERT ... SELECT ... WHERE EXISTS ... ON CONFLICT (token_hash) DO UPDATE\<close>.\<close>

definition upsert_push_device ::
  "uuid \<Rightarrow> uuid \<Rightarrow> uuid \<Rightarrow> bytes \<Rightarrow> bytes \<Rightarrow> string \<Rightarrow> string \<Rightarrow> time \<Rightarrow> db \<Rightarrow>
   go_error + nat \<times> db" where
  "upsert_push_device i account_id installation_id hash cipher environment topic clock d =
     (if \<not> list_ex (live_install account_id installation_id) (installs d) then Inr (0, d)
      else require (environment \<in> {''sandbox'', ''production''}) ''23514''
       (if hash \<in> pd_token_hash ` set (push_devices d)
        then Inr (1, d\<lparr>push_devices := update_where (\<lambda>v. pd_token_hash v = hash)
          (\<lambda>v. v\<lparr>pd_account := account_id, pd_install := installation_id, pd_token_cipher := cipher,
            pd_environment := environment, pd_topic := topic, pd_revoked_at := None\<rparr>)
          (push_devices d)\<rparr>)
        else require (i \<notin> pd_id ` set (push_devices d)) ''23505''
          (Inr (1, d\<lparr>push_devices := push_devices d @
            [\<lparr>pd_id = i, pd_account = account_id, pd_install = installation_id,
              pd_token_hash = hash, pd_token_cipher = cipher, pd_environment = environment,
              pd_topic = topic, pd_created_at = clock, pd_revoked_at = None\<rparr>]\<rparr>))))"

definition register_push_device ::
  "(bytes \<Rightarrow> bytes) \<Rightarrow> uuid \<Rightarrow> uuid \<Rightarrow> string \<Rightarrow> bytes \<Rightarrow> string \<Rightarrow> string \<Rightarrow> (db, unit) tx" where
  "register_push_device sha256 account_id installation_id token token_cipher environment topic =
     bind_tx new_uuid (\<lambda>i.
     bind_tx (sql (\<lambda>e. upsert_push_device i account_id installation_id (sha256 token)
         token_cipher environment topic (e_clock e))) (\<lambda>rows.
     if rows = 0 then raise (Sentinel ErrNotFound) else ret ()))"

text \<open>\<open>COALESCE(revoked_at, clock_timestamp())\<close>.\<close>

definition revoke_device_row :: "time \<Rightarrow> push_device_row \<Rightarrow> push_device_row" where
  "revoke_device_row clock v = v\<lparr>pd_revoked_at :=
     (case pd_revoked_at v of None \<Rightarrow> Some clock | Some t \<Rightarrow> Some t)\<rparr>"

definition revoke_push_device :: "uuid \<Rightarrow> uuid \<Rightarrow> (db, unit) tx" where
  "revoke_push_device account_id installation_id = exec (\<lambda>e d. Inr (d\<lparr>push_devices :=
     update_where (\<lambda>v. pd_account v = account_id \<and> pd_install v = installation_id)
       (revoke_device_row (e_clock e)) (push_devices d)\<rparr>))"

section \<open>Claiming\<close>

record push_job =
  pj_id :: uuid
  pj_device :: uuid
  pj_token_cipher :: bytes
  pj_environment :: string
  pj_topic :: string
  pj_payload :: push_payload
  pj_attempts :: int

definition claimable :: "time \<Rightarrow> job_row \<Rightarrow> bool" where
  "claimable clock j \<longleftrightarrow> unfinished j \<and> jb_available_at j \<le> clock \<and>
     (case jb_locked_until j of None \<Rightarrow> True | Some t \<Rightarrow> t < clock)"

definition claim_candidates :: "time \<Rightarrow> db \<Rightarrow> (job_row \<times> push_device_row) list" where
  "claim_candidates clock d = sort_key (\<lambda>(j, v). (jb_created_at j, pd_created_at v))
     [(j, v). j \<leftarrow> filter (claimable clock) (jobs d),
       v \<leftarrow> filter (\<lambda>v. pd_id v = jb_device j \<and> pd_revoked_at v = None) (push_devices d)]"

definition push_job_of :: "job_row \<times> push_device_row \<Rightarrow> push_job" where
  "push_job_of = (\<lambda>(j, v). \<lparr>pj_id = jb_id j, pj_device = pd_id v, pj_token_cipher = pd_token_cipher v,
     pj_environment = pd_environment v, pj_topic = pd_topic v, pj_payload = jb_payload j,
     pj_attempts = jb_attempts j\<rparr>)"

text \<open>\<open>int(lockFor.Seconds())\<close>: whole seconds, towards zero.\<close>

definition whole_seconds :: "duration \<Rightarrow> int" where
  "whole_seconds t = (if 0 \<le> t then t div second else - ((- t) div second))"

definition lock_jobs :: "uuid list \<Rightarrow> time \<Rightarrow> db \<Rightarrow> db" where
  "lock_jobs ids until d = d\<lparr>jobs := update_where (\<lambda>j. jb_id j \<in> set ids)
     (\<lambda>j. j\<lparr>jb_locked_until := Some until\<rparr>) (jobs d)\<rparr>"

definition claim_rows :: "int \<Rightarrow> duration \<Rightarrow> time \<Rightarrow> db \<Rightarrow> go_error + push_job list \<times> db" where
  "claim_rows limit lock_for clock d = require (0 \<le> limit) ''2201W''
     (let claimed = map push_job_of (take (nat limit) (claim_candidates clock d))
      in Inr (claimed, lock_jobs (map pj_id claimed) (clock + whole_seconds lock_for * second) d))"

definition claim_push_jobs :: "int \<Rightarrow> duration \<Rightarrow> (db, push_job list) tx" where
  "claim_push_jobs limit lock_for = transaction (
     bind_tx (sql (\<lambda>e. claim_rows limit lock_for (e_clock e))) (\<lambda>claimed.
     commit claimed))"

section \<open>Settling\<close>

definition update_job :: "uuid \<Rightarrow> (time \<Rightarrow> job_row \<Rightarrow> job_row) \<Rightarrow> (db, unit) tx" where
  "update_job i f = exec (\<lambda>e d. Inr (d\<lparr>jobs :=
     update_where (\<lambda>j. jb_id j = i) (f (e_clock e)) (jobs d)\<rparr>))"

definition sent_row :: "time \<Rightarrow> job_row \<Rightarrow> job_row" where
  "sent_row clock j = j\<lparr>jb_sent_at := Some clock, jb_locked_until := None, jb_last_error := None\<rparr>"

definition retry_row :: "time \<Rightarrow> string \<Rightarrow> job_row \<Rightarrow> job_row" where
  "retry_row available_at reason j = j\<lparr>jb_attempts := jb_attempts j + 1,
     jb_available_at := micros available_at, jb_locked_until := None, jb_last_error := Some reason\<rparr>"

definition failed_row :: "string \<Rightarrow> time \<Rightarrow> job_row \<Rightarrow> job_row" where
  "failed_row reason clock j = j\<lparr>jb_attempts := jb_attempts j + 1, jb_failed_at := Some clock,
     jb_locked_until := None, jb_last_error := Some reason\<rparr>"

definition mark_push_sent :: "uuid \<Rightarrow> (db, unit) tx" where
  "mark_push_sent i = update_job i sent_row"

definition retry_push :: "uuid \<Rightarrow> time \<Rightarrow> string \<Rightarrow> (db, unit) tx" where
  "retry_push i available_at reason = update_job i (\<lambda>_. retry_row available_at reason)"

definition fail_push :: "uuid \<Rightarrow> string \<Rightarrow> (db, unit) tx" where
  "fail_push i reason = update_job i (failed_row reason)"

definition fail_device_jobs :: "uuid \<Rightarrow> string \<Rightarrow> time \<Rightarrow> db \<Rightarrow> db" where
  "fail_device_jobs device_id reason clock d = d\<lparr>jobs :=
     update_where (\<lambda>j. jb_device j = device_id \<and> unfinished j)
       (\<lambda>j. j\<lparr>jb_failed_at := (case jb_failed_at j of None \<Rightarrow> Some clock | Some t \<Rightarrow> Some t),
         jb_locked_until := None, jb_last_error := Some reason\<rparr>) (jobs d)\<rparr>"

definition revoke_push_token :: "uuid \<Rightarrow> string \<Rightarrow> (db, unit) tx" where
  "revoke_push_token device_id reason = transaction (
     bind_tx (sql (\<lambda>e d. Inr (count_where (\<lambda>v. pd_id v = device_id) (push_devices d),
         d\<lparr>push_devices := update_where (\<lambda>v. pd_id v = device_id)
           (revoke_device_row (e_clock e)) (push_devices d)\<rparr>))) (\<lambda>rows.
     if rows = 0 then raise (Sentinel ErrNotFound)
     else
     bind_tx (exec (\<lambda>e d. Inr (fail_device_jobs device_id reason (e_clock e) d))) (\<lambda>_.
     commit ())))"

section \<open>The queue in order\<close>

text \<open>
  Jobs and devices have their own identifiers and every payload is small. Requests keep that, and
  do no more to the jobs than queue fresh ones or delete some with their account.
\<close>

definition queue_ok :: "db \<Rightarrow> bool" where
  "queue_ok d \<longleftrightarrow> distinct (map jb_id (jobs d)) \<and> distinct (map pd_id (push_devices d)) \<and>
     (\<forall>j \<in> set (jobs d). small_push (jb_payload j))"

definition queue_frame :: "db \<Rightarrow> db \<Rightarrow> bool" where
  "queue_frame d d' \<longleftrightarrow> (queue_ok d \<longrightarrow> queue_ok d') \<and>
     (\<forall>j \<in> set (jobs d'). j \<in> set (jobs d) \<or> fresh_job j)"

lemma queue_frame_refl [simp]: "queue_frame d d"
  by (simp add: queue_frame_def)

lemma queue_frame_trans: "queue_frame d d' \<Longrightarrow> queue_frame d' d'' \<Longrightarrow> queue_frame d d''"
  unfolding queue_frame_def by blast

lemma queue_frame_same:
  "jobs d' = jobs d \<Longrightarrow> push_devices d' = push_devices d \<Longrightarrow> queue_frame d d'"
  by (simp add: queue_frame_def queue_ok_def)

lemma queue_frame_append:
  assumes "jobs_unique (jobs d @ js)" and "\<forall>j \<in> set js. fresh_job j"
  shows "queue_frame d (d\<lparr>jobs := jobs d @ js\<rparr>)"
  using assms by (auto simp: queue_frame_def queue_ok_def jobs_unique_def fresh_job_def)

lemma queue_frame_devices:
  assumes "\<And>v. P v \<Longrightarrow> pd_id (f v) = pd_id v"
  shows "queue_frame d (d\<lparr>push_devices := update_where P f (push_devices d)\<rparr>)"
  using assms by (simp add: queue_frame_def queue_ok_def map_update_where)

end
