(* ===== verification/GoStrings.thy ===== *)
theory GoStrings
  imports Database
begin

text \<open>
  The string functions of Go's standard library the server uses: the UTF-8 decoder behind
  \<open>[]rune(s)\<close>, \<open>strings.TrimSpace\<close>, \<open>strings.ToLower\<close> on ASCII and \<open>strings.Cut\<close>. A Go string is a
  string of bytes that need not be valid UTF-8: an invalid byte decodes to U+FFFD and takes one
  byte.
\<close>

section \<open>Decoding UTF-8\<close>

definition byte_of :: "char \<Rightarrow> nat" where
  "byte_of c = of_char c"

definition between :: "nat \<Rightarrow> nat \<Rightarrow> nat \<Rightarrow> bool" where
  "between lo hi n \<longleftrightarrow> lo \<le> n \<and> n \<le> hi"

text \<open>The range of the second byte, by the first byte of a sequence of three or four.\<close>

definition second_range :: "nat \<Rightarrow> nat \<times> nat" where
  "second_range b =
     (if b = 224 then (160, 191) else if b = 237 then (128, 159)
      else if b = 240 then (144, 191) else if b = 244 then (128, 143) else (128, 191))"

text \<open>\<open>utf8.DecodeRuneInString\<close>: the rune and how many bytes it takes; \<open>None\<close> is invalid.\<close>

definition decode_rune :: "string \<Rightarrow> (nat \<times> nat) option" where
  "decode_rune s = (case s of
       [] \<Rightarrow> None
     | c0 # r0 \<Rightarrow>
       let b0 = byte_of c0 in
       if b0 < 128 then Some (b0, 1)
       else if b0 < 194 \<or> 244 < b0 then None
       else (case r0 of
           [] \<Rightarrow> None
         | c1 # r1 \<Rightarrow>
           let b1 = byte_of c1; (lo, hi) = second_range b0 in
           if \<not> between lo hi b1 then None
           else if b0 < 224 then Some ((b0 - 192) * 64 + (b1 - 128), 2)
           else (case r1 of
               [] \<Rightarrow> None
             | c2 # r2 \<Rightarrow>
               let b2 = byte_of c2 in
               if \<not> between 128 191 b2 then None
               else if b0 < 240 then Some (((b0 - 224) * 64 + (b1 - 128)) * 64 + (b2 - 128), 3)
               else (case r2 of
                   [] \<Rightarrow> None
                 | c3 # _ \<Rightarrow>
                   let b3 = byte_of c3 in
                   if \<not> between 128 191 b3 then None
                   else Some ((((b0 - 240) * 64 + (b1 - 128)) * 64 + (b2 - 128)) * 64
                     + (b3 - 128), 4)))))"

definition rune_error :: nat where "rune_error = 65533"

definition rune_width :: "string \<Rightarrow> nat" where
  "rune_width s = (case decode_rune s of None \<Rightarrow> 1 | Some (_, n) \<Rightarrow> n)"

definition rune_value :: "string \<Rightarrow> nat" where
  "rune_value s = (case decode_rune s of None \<Rightarrow> rune_error | Some (r, _) \<Rightarrow> r)"

lemma decode_rune_width: "decode_rune s = Some (r, n) \<Longrightarrow> 0 < n \<and> n \<le> length s"
  by (auto simp: decode_rune_def Let_def split: list.splits if_splits prod.splits)

lemma rune_width_pos [simp]: "0 < rune_width s"
  by (auto simp: rune_width_def dest: decode_rune_width split: option.split)

text \<open>The runes of a string, each with the bytes it was read from: \<open>range s\<close> and \<open>[]rune(s)\<close>.\<close>

function runes :: "string \<Rightarrow> (nat \<times> string) list" where
  "runes [] = []"
| "runes (c # s) = (rune_value (c # s), take (rune_width (c # s)) (c # s)) #
     runes (drop (rune_width (c # s)) (c # s))"
  by pat_completeness auto
termination
  by (relation "measure length") auto

definition rune_count :: "string \<Rightarrow> nat" where
  "rune_count s = length (runes s)"

text \<open>Valid UTF-8: every step of the decoder succeeds.\<close>

function valid_utf8 :: "string \<Rightarrow> bool" where
  "valid_utf8 [] = True"
| "valid_utf8 (c # s) = (case decode_rune (c # s) of
     None \<Rightarrow> False | Some (_, n) \<Rightarrow> 0 < n \<and> valid_utf8 (drop n (c # s)))"
  by pat_completeness auto
termination
  by (relation "measure length") (auto dest: decode_rune_width)

lemma concat_runes: "concat (map snd (runes s)) = s"
  by (induction s rule: runes.induct) auto

text \<open>
  A decoded rune starts with a byte that is not a continuation byte and goes on with
  continuation bytes, so PostgreSQL's \<open>char_length\<close> counts it once.
\<close>

lemma second_range_continuation:
  "second_range b = (lo, hi) \<Longrightarrow> between lo hi (byte_of c) \<Longrightarrow> continuation_byte c"
  by (auto simp: second_range_def between_def continuation_byte_def byte_of_def split: if_splits)

lemma later_continuation: "between 128 191 (byte_of c) \<Longrightarrow> continuation_byte c"
  by (simp add: between_def continuation_byte_def byte_of_def)

lemma first_not_continuation:
  "byte_of c < 128 \<or> \<not> byte_of c < 194 \<Longrightarrow> \<not> continuation_byte c"
  by (auto simp: continuation_byte_def byte_of_def)

lemma char_length_Cons:
  "char_length (c # s) = (if continuation_byte c then char_length s else Suc (char_length s))"
  by (simp add: char_length_def)

lemma char_length_Nil [simp]: "char_length [] = 0"
  by (simp add: char_length_def)

lemma char_length_rune:
  assumes "decode_rune s = Some (r, n)"
  shows "char_length (take n s) = 1"
proof -
  obtain c0 r0 where s: "s = c0 # r0" using assms by (cases s) (auto simp: decode_rune_def)
  show ?thesis
  proof (cases "byte_of c0 < 128")
    case True
    then show ?thesis using assms first_not_continuation [of c0]
      by (auto simp: s decode_rune_def Let_def char_length_Cons)
  next
    case ge: False
    then have c0: "\<not> continuation_byte c0"
      using assms by (intro first_not_continuation) (auto simp: s decode_rune_def Let_def split: if_splits)
    obtain lo hi where sr: "second_range (byte_of c0) = (lo, hi)" by fastforce
    obtain c1 r1 where r0: "r0 = c1 # r1" and b1: "between lo hi (byte_of c1)"
      using assms ge by (auto simp: s sr decode_rune_def Let_def split: if_splits list.splits)
    have c1: "continuation_byte c1" using sr b1 by (rule second_range_continuation)
    consider "n = 2" | c2 r2 where "n = 3" "r1 = c2 # r2" "continuation_byte c2"
      | c2 c3 r3 where "n = 4" "r1 = c2 # c3 # r3" "continuation_byte c2" "continuation_byte c3"
      using assms ge b1
      by (auto simp: s sr r0 decode_rune_def Let_def split: if_splits list.splits
          dest: later_continuation)
    then show ?thesis using c0 c1 by cases (simp_all add: s r0 char_length_Cons)
  qed
qed

lemma char_length_append [simp]: "char_length (s @ t) = char_length s + char_length t"
  by (simp add: char_length_def)

lemma rune_count_char_length: "valid_utf8 s \<Longrightarrow> rune_count s = char_length s"
proof (induction s rule: valid_utf8.induct)
  case 1
  then show ?case by (simp add: rune_count_def char_length_def)
next
  case (2 c s)
  then obtain r n where d: "decode_rune (c # s) = Some (r, n)" "valid_utf8 (drop n (c # s))"
    by (auto split: option.splits)
  have "rune_count (c # s) = Suc (rune_count (drop n (c # s)))"
    using d(1) by (simp add: rune_count_def rune_width_def)
  also have "\<dots> = char_length (take n (c # s)) + char_length (drop n (c # s))"
    using 2 d char_length_rune [OF d(1)] by auto
  also have "\<dots> = char_length (c # s)"
    by (simp flip: char_length_append)
  finally show ?case .
qed

section \<open>\<open>strings.TrimSpace\<close>\<close>

text \<open>\<open>unicode.IsSpace\<close>.\<close>

definition is_space :: "nat \<Rightarrow> bool" where
  "is_space r \<longleftrightarrow> r \<in> {9, 10, 11, 12, 13, 32, 133, 160, 5760, 8232, 8233, 8239, 8287, 12288} \<or>
     between 8192 8202 r"

definition trim_space :: "string \<Rightarrow> string" where
  "trim_space s = concat (map snd
     (rev (dropWhile (\<lambda>r. is_space (fst r)) (rev (dropWhile (\<lambda>r. is_space (fst r)) (runes s))))))"

text \<open>\<open>strings.ToLower\<close> on the ASCII letters; \<open>strings.Cut\<close> at a byte.\<close>

definition lower_ascii :: "char \<Rightarrow> char" where
  "lower_ascii c = (if between 65 90 (byte_of c) then char_of (byte_of c + 32) else c)"

fun cut_at :: "char \<Rightarrow> string \<Rightarrow> (string \<times> string) option" where
  "cut_at sep [] = None"
| "cut_at sep (c # s) =
     (if c = sep then Some ([], s)
      else map_option (\<lambda>(a, b). (c # a, b)) (cut_at sep s))"

lemma cut_at_SomeD: "cut_at sep s = Some (a, b) \<Longrightarrow> s = a @ sep # b \<and> sep \<notin> set a"
  by (induction s arbitrary: a) (auto split: if_splits)

lemma cut_at_append: "sep \<notin> set a \<Longrightarrow> cut_at sep (a @ sep # b) = Some (a, b)"
  by (induction a) auto

lemma cut_at_None: "cut_at sep s = None \<longleftrightarrow> sep \<notin> set s"
  by (induction s) auto

end
