(* ===== verification/GoNumbers.thy ===== *)
theory GoNumbers
  imports GoStrings "HOL-Library.Word"
begin

text \<open>
  Numbers in Go's standard library: the wrap-around of \<open>int64\<close>, \<open>%d\<close>, \<open>strconv.Atoi\<close>, and
  hexadecimal digits.
\<close>

lemma runes_ascii: "\<forall>c \<in> set s. byte_of c < 128 \<Longrightarrow> runes s = map (\<lambda>c. (byte_of c, [c])) s"
proof (induction s)
  case (Cons c s)
  then have "decode_rune (c # s) = Some (byte_of c, 1)" by (simp add: decode_rune_def)
  with Cons show ?case by (simp add: rune_value_def rune_width_def)
qed simp

section \<open>Wrap-around\<close>

text \<open>The value a 64-bit signed integer keeps of an exact result.\<close>

definition wrap64 :: "int \<Rightarrow> int" where
  "wrap64 n = sint (word_of_int n :: 64 word)"

lemma wrap64_range: "- (2 ^ 63) \<le> wrap64 n \<and> wrap64 n < 2 ^ 63"
  using sint_range_size [of "word_of_int n :: 64 word"] by (simp add: wrap64_def word_size)

lemma wrap64_id: "- (2 ^ 63) \<le> n \<Longrightarrow> n < 2 ^ 63 \<Longrightarrow> wrap64 n = n"
  unfolding wrap64_def by transfer (simp add: signed_take_bit_int_eq_self)

section \<open>Decimal numbers\<close>

definition digit_char :: "nat \<Rightarrow> char" where
  "digit_char n = char_of (48 + n)"

definition digit_value :: "char \<Rightarrow> nat option" where
  "digit_value c = (if between 48 57 (byte_of c) then Some (byte_of c - 48) else None)"

fun show_nat :: "nat \<Rightarrow> string" where
  "show_nat n = (if n < 10 then [digit_char n] else show_nat (n div 10) @ [digit_char (n mod 10)])"

declare show_nat.simps [simp del]

definition show_int :: "int \<Rightarrow> string" where
  "show_int n = (if n < 0 then CHR ''-'' # show_nat (nat (- n)) else show_nat (nat n))"

text \<open>The digits of a number, read from the left; \<open>None\<close> when another character occurs.\<close>

definition add_digit :: "nat option \<Rightarrow> char \<Rightarrow> nat option" where
  "add_digit acc c = (case (acc, digit_value c) of (Some n, Some k) \<Rightarrow> Some (10 * n + k) | _ \<Rightarrow> None)"

definition digits_value :: "string \<Rightarrow> nat option" where
  "digits_value s = (if s = [] then None else foldl add_digit (Some 0) s)"

text \<open>\<open>strconv.Atoi\<close>: an optional sign, digits, and the range of \<open>int\<close>.\<close>

definition atoi :: "string \<Rightarrow> int option" where
  "atoi s =
     (let (negative, digits) = (case s of
          [] \<Rightarrow> (False, [])
        | c # r \<Rightarrow> if c = CHR ''-'' then (True, r) else if c = CHR ''+'' then (False, r) else (False, s))
      in case digits_value digits of
          None \<Rightarrow> None
        | Some n \<Rightarrow> (let v = (if negative then - int n else int n)
            in if - (2 ^ 63) \<le> v \<and> v < 2 ^ 63 then Some v else None))"

lemma digit_value_char: "n < 10 \<Longrightarrow> digit_value (digit_char n) = Some n"
  by (simp add: digit_value_def digit_char_def between_def byte_of_def)

lemma add_digit_char: "k < 10 \<Longrightarrow> add_digit (Some n) (digit_char k) = Some (10 * n + k)"
  by (simp add: add_digit_def digit_value_char)

lemma show_nat_nonempty [simp]: "show_nat n \<noteq> []"
  by (subst show_nat.simps) simp

lemma foldl_show_nat: "foldl add_digit (Some 0) (show_nat n) = Some n"
proof (induction n rule: show_nat.induct)
  case (1 n)
  show ?case
  proof (cases "n < 10")
    case True
    then show ?thesis by (subst show_nat.simps) (simp add: add_digit_char)
  next
    case False
    then show ?thesis using 1
      by (subst show_nat.simps) (simp add: add_digit_char)
  qed
qed

lemma digits_show_nat: "digits_value (show_nat n) = Some n"
  by (simp add: digits_value_def foldl_show_nat)

lemma show_nat_digits: "c \<in> set (show_nat n) \<Longrightarrow> between 48 57 (byte_of c)"
proof (induction n rule: show_nat.induct)
  case (1 n)
  have d: "between 48 57 (byte_of (digit_char k))" if "k < 10" for k
    using that by (simp add: digit_char_def between_def byte_of_def)
  show ?case
  proof (cases "n < 10")
    case True
    then show ?thesis using 1(2) d by (subst (asm) show_nat.simps) simp
  next
    case False
    then show ?thesis using 1 d [of "n mod 10"] by (subst (asm) (2) show_nat.simps) auto
  qed
qed

lemma atoi_show_int:
  assumes "- (2 ^ 63) \<le> n" and "n < 2 ^ 63"
  shows "atoi (show_int n) = Some n"
proof -
  obtain c r where s: "show_nat (nat n) = c # r" by (cases "show_nat (nat n)") auto
  then have "between 48 57 (byte_of c)" using show_nat_digits [of c "nat n"] by simp
  then have "c \<noteq> CHR ''-''" "c \<noteq> CHR ''+''" by (auto simp: between_def byte_of_def)
  then show ?thesis using assms digits_show_nat [of "nat n"] digits_show_nat [of "nat (- n)"]
    by (auto simp: atoi_def show_int_def s)
qed

section \<open>Hexadecimal digits\<close>

definition hex_digit :: "nat \<Rightarrow> char" where
  "hex_digit n = (if n < 10 then char_of (48 + n) else char_of (87 + n))"

definition upper_hex_digit :: "nat \<Rightarrow> char" where
  "upper_hex_digit n = (if n < 10 then char_of (48 + n) else char_of (55 + n))"

definition hex_value :: "char \<Rightarrow> nat option" where
  "hex_value c = (let b = byte_of c in
     if between 48 57 b then Some (b - 48)
     else if between 97 102 b then Some (b - 87)
     else if between 65 70 b then Some (b - 55) else None)"

text \<open>\<open>hex.DecodeString\<close> and \<open>hex.EncodeToString\<close>.\<close>

fun hex_decode :: "string \<Rightarrow> bytes option" where
  "hex_decode [] = Some []"
| "hex_decode [c] = None"
| "hex_decode (a # b # s) = (case (hex_value a, hex_value b, hex_decode s) of
     (Some x, Some y, Some r) \<Rightarrow> Some (char_of (16 * x + y) # r) | _ \<Rightarrow> None)"

definition hex_encode :: "bytes \<Rightarrow> string" where
  "hex_encode s = concat (map (\<lambda>c. [hex_digit (byte_of c div 16), hex_digit (byte_of c mod 16)]) s)"

lemma hex_value_digit: "n < 16 \<Longrightarrow> hex_value (hex_digit n) = Some n"
  by (simp add: hex_value_def hex_digit_def between_def byte_of_def)

lemma byte_of_less [simp]: "byte_of c < 256"
  by (simp add: byte_of_def)

lemma char_of_byte_of [simp]: "char_of (byte_of c) = c"
  by (simp add: byte_of_def)

lemma hex_decode_encode: "hex_decode (hex_encode s) = Some s"
proof (induction s)
  case (Cons c s)
  have "byte_of c div 16 < 16" using byte_of_less [of c] by (simp add: less_mult_imp_div_less)
  with Cons show ?case by (simp add: hex_encode_def hex_value_digit)
qed (simp add: hex_encode_def)

lemma hex_decode_length: "hex_decode s = Some r \<Longrightarrow> length s = 2 * length r"
  by (induction s arbitrary: r rule: hex_decode.induct) (auto split: option.splits)

end
