(* ===== verification/ApnsClient.thy ===== *)
theory ApnsClient
  imports PushStore GoNumbers
begin

text \<open>
  Sending one notification: the \<open>Client\<close> of \<open>internal/apns/client.go\<close>. What the client uses of
  other packages is the record \<open>apns_env\<close>: the cipher of the device tokens, the signature of the
  provider token, the HTTP exchange with Apple and the random source. The HTTP exchange and the
  random source are read at a step of the world, so two calls never have to agree.
\<close>

section \<open>The provider token\<close>

record token_provider =
  tp_token :: string
  tp_issued :: time

text \<open>\<open>tokenProvider.get\<close>: a token is reused for 50 minutes.\<close>

definition provider_get ::
  "(time \<Rightarrow> go_error + string) \<Rightarrow> time \<Rightarrow> token_provider \<Rightarrow> (go_error + string) \<times> token_provider" where
  "provider_get sign now p =
     (if tp_token p \<noteq> [] \<and> time_sub now (tp_issued p) < 50 * minute then (Inr (tp_token p), p)
      else (case sign now of
          Inl e \<Rightarrow> (Inl e, p)
        | Inr token \<Rightarrow> (Inr token, \<lparr>tp_token = token, tp_issued = now\<rparr>)))"

section \<open>The payload\<close>

text \<open>\<open>encoding/json\<close> writes a string with its control characters, quotes and the characters
  of HTML escaped; a byte that is not UTF-8 becomes \<open>\ufffd\<close>.\<close>

definition json_hex :: "nat \<Rightarrow> string" where
  "json_hex n = [CHR 0x5C, CHR ''u''] @ [hex_digit (n div 4096 mod 16), hex_digit (n div 256 mod 16),
     hex_digit (n div 16 mod 16), hex_digit (n mod 16)]"

definition json_rune :: "nat \<times> string \<Rightarrow> string" where
  "json_rune = (\<lambda>(r, raw).
     if r = 34 then CHR 0x5C # raw
     else if r = 92 then [CHR 0x5C, CHR 0x5C]
     else if r = 8 then [CHR 0x5C, CHR ''b''] else if r = 12 then [CHR 0x5C, CHR ''f''] else if r = 10 then [CHR 0x5C, CHR ''n'']
     else if r = 13 then [CHR 0x5C, CHR ''r''] else if r = 9 then [CHR 0x5C, CHR ''t'']
     else if r < 32 \<or> r \<in> {38, 60, 62, 8232, 8233} \<or> r = rune_error \<and> length raw = 1 then json_hex r
     else raw)"

definition json_string :: "string \<Rightarrow> string" where
  "json_string s = [CHR 0x22] @ concat (map json_rune (runes s)) @ [CHR 0x22]"

text \<open>\<open>json.Marshal\<close> of the nested maps, whose keys it sorts.\<close>

definition json_pair :: "string \<times> string \<Rightarrow> string" where
  "json_pair = (\<lambda>(k, v). json_string k @ '':'' @ v)"

fun json_join :: "string list \<Rightarrow> string" where
  "json_join [] = []"
| "json_join [x] = x"
| "json_join (x # y # xs) = x @ '','' @ json_join (y # xs)"

definition json_object :: "(string \<times> string) list \<Rightarrow> string" where
  "json_object entries = ''{'' @ json_join (map json_pair entries) @ ''}''"

definition apns_document :: "push_payload \<Rightarrow> string" where
  "apns_document p = json_object
     [(''aps'', json_object
        [(''alert'', json_object [(''body'', json_string (pp_body p)), (''title'', json_string (pp_title p))]),
         (''sound'', json_string ''default'')]),
      (''deep_link'', json_string (pp_deep_link p)), (''resync'', ''true'')]"

definition apns_payload :: "push_payload \<Rightarrow> go_error + string" where
  "apns_payload p =
     (if 4096 < length (apns_document p) then Inl (Plain ''APNs payload exceeds 4 KiB'')
      else Inr (apns_document p))"

section \<open>The request and the answer\<close>

text \<open>\<open>url.PathEscape\<close>.\<close>

definition path_unreserved :: "char \<Rightarrow> bool" where
  "path_unreserved c \<longleftrightarrow> between 97 122 (byte_of c) \<or> between 65 90 (byte_of c) \<or> between 48 57 (byte_of c) \<or>
     c \<in> set ''-_.~$&+:=@''"

definition path_escape :: "string \<Rightarrow> string" where
  "path_escape s = concat (map (\<lambda>c. if path_unreserved c then [c]
     else [CHR ''%'', upper_hex_digit (byte_of c div 16), upper_hex_digit (byte_of c mod 16)]) s)"

record apns_request =
  rq_url :: string
  rq_authorization :: string
  rq_topic :: string
  rq_payload :: string

text \<open>The answer: its status, the \<open>reason\<close> of its JSON body, if any, and its \<open>Retry-After\<close>.\<close>

record apns_response =
  rp_status :: int
  rp_reason :: "string option"
  rp_retry_after :: string

record apns_result =
  re_status :: int
  re_reason :: string
  re_retry_after :: duration

record apns_env =
  ax_decrypt :: "bytes \<Rightarrow> go_error + bytes"
  ax_sign :: "time \<Rightarrow> go_error + string"
  ax_http :: "nat \<Rightarrow> apns_request \<Rightarrow> go_error + apns_response"
  ax_random :: "nat \<Rightarrow> nat option"
  ax_batch_size :: int

definition apns_host :: "string \<Rightarrow> string" where
  "apns_host environment = (if environment = ''production'' then ''https://api.push.apple.com''
     else ''https://api.sandbox.push.apple.com'')"

text \<open>\<open>time.Duration(seconds) * time.Second\<close> wraps around like any product of \<open>int64\<close>.\<close>

definition retry_after_of :: "string \<Rightarrow> duration" where
  "retry_after_of header = (case atoi header of
       None \<Rightarrow> 0
     | Some seconds \<Rightarrow> if 0 < seconds then wrap64 (seconds * second) else 0)"

definition result_of :: "apns_response \<Rightarrow> apns_result" where
  "result_of r = \<lparr>re_status = rp_status r,
     re_reason = (case rp_reason r of None \<Rightarrow> [] | Some x \<Rightarrow> x),
     re_retry_after = retry_after_of (rp_retry_after r)\<rparr>"

text \<open>A reading of the outside at the present step.\<close>

definition observe :: "(nat \<Rightarrow> 'a) \<Rightarrow> ('d, 'a) tx" where
  "observe f w d = (Inr (f (w_step w)), tick w, d)"

definition send_with ::
  "apns_env \<Rightarrow> push_job \<Rightarrow> bytes \<Rightarrow> string \<Rightarrow> ('d, go_error + apns_result) tx" where
  "send_with env job token auth = (case apns_payload (pj_payload job) of
       Inl e \<Rightarrow> ret (Inl e)
     | Inr payload \<Rightarrow>
         bind_tx (observe (\<lambda>n. ax_http env n
           \<lparr>rq_url = apns_host (pj_environment job) @ ''/3/device/'' @ path_escape token,
            rq_authorization = ''bearer '' @ auth, rq_topic = pj_topic job, rq_payload = payload\<rparr>))
         (\<lambda>answer. ret (map_sum id result_of answer)))"

definition send ::
  "apns_env \<Rightarrow> push_job \<Rightarrow> token_provider \<Rightarrow>
   ('d, token_provider \<times> (go_error + apns_result)) tx" where
  "send env job p = (case ax_decrypt env (pj_token_cipher job) of
       Inl e \<Rightarrow> ret (p, Inl (Wrapped ''decrypt device token'' e))
     | Inr token \<Rightarrow>
         if token = [] \<or> set token \<inter> {CHR ''/'', CHR ''?'', CHR ''#''} \<noteq> {}
         then ret (p, Inl (Plain ''invalid device token''))
         else bind_tx go_now (\<lambda>now.
           let (auth, p') = provider_get (ax_sign env) now p
           in case auth of
               Inl e \<Rightarrow> ret (p', Inl (Wrapped ''sign APNs provider token'' e))
             | Inr t \<Rightarrow> bind_tx (send_with env job token t) (\<lambda>r. ret (p', r))))"

section \<open>Facts\<close>

lemma provider_reuse:
  assumes "provider_get sign now p = (Inr t, p')"
  shows "t = tp_token p' \<and> (p' = p \<and> t \<noteq> [] \<and> time_sub now (tp_issued p) < 50 * minute
    \<or> sign now = Inr t \<and> tp_issued p' = now)"
  using assms by (auto simp: provider_get_def split: if_splits sum.splits)

text \<open>The length of an escaped string is at most six times that of the string.\<close>

lemma rune_raw_nonempty: "x \<in> set (runes s) \<Longrightarrow> snd x \<noteq> []"
proof (induction s rule: runes.induct)
  case (2 c s)
  then consider "x = (rune_value (c # s), take (rune_width (c # s)) (c # s))"
    | "x \<in> set (runes (drop (rune_width (c # s)) (c # s)))" by auto
  then show ?case using 2(1) rune_width_pos [of "c # s"] by cases auto
qed simp

lemma json_rune_length: "raw \<noteq> [] \<Longrightarrow> length (json_rune (r, raw)) \<le> 6 * length raw"
  by (cases raw) (simp_all add: json_rune_def json_hex_def)

lemma length_concat_map_le:
  assumes "\<And>x. x \<in> set xs \<Longrightarrow> length (f x) \<le> k * length (g x)"
  shows "length (concat (map f xs)) \<le> k * length (concat (map g xs))"
  using assms by (induction xs) (simp_all add: algebra_simps add_mono)

lemma json_string_length: "length (json_string s) \<le> 6 * length s + 2"
proof -
  have "length (concat (map json_rune (runes s))) \<le> 6 * length (concat (map snd (runes s)))"
  proof (rule length_concat_map_le)
    fix x assume "x \<in> set (runes s)"
    then show "length (json_rune x) \<le> 6 * length (snd x)"
      using rune_raw_nonempty json_rune_length [of "snd x" "fst x"] by simp
  qed
  then show ?thesis by (simp add: json_string_def concat_runes)
qed

definition plain_char :: "char \<Rightarrow> bool" where
  "plain_char c \<longleftrightarrow> between 32 127 (byte_of c) \<and> byte_of c \<notin> {34, 38, 60, 62, 92}"

lemma json_plain:
  assumes "list_all plain_char s"
  shows "json_string s = [CHR 0x22] @ s @ [CHR 0x22]"
proof -
  have c: "json_rune (byte_of c, [c]) = [c]" "byte_of c < 128" if "c \<in> set s" for c
    using assms that by (auto simp: list_all_iff plain_char_def between_def json_rune_def rune_error_def)
  then have "runes s = map (\<lambda>c. (byte_of c, [c])) s" by (intro runes_ascii) simp
  moreover have "concat (map (\<lambda>c. json_rune (byte_of c, [c])) s) = concat (map (\<lambda>c. [c]) s)"
    using c by (intro arg_cong [where f = concat] map_cong) simp_all
  ultimately show ?thesis by (simp add: json_string_def comp_def)
qed

lemma json_keys:
  "length (json_string ''aps'') = 5" "length (json_string ''alert'') = 7"
  "length (json_string ''body'') = 6" "length (json_string ''title'') = 7"
  "length (json_string ''sound'') = 7" "length (json_string ''default'') = 9"
  "length (json_string ''deep_link'') = 11" "length (json_string ''resync'') = 8"
  by (simp_all add: json_plain plain_char_def between_def byte_of_def)

lemma apns_document_length:
  "length (apns_document p) = 81 +
     length (json_string (pp_body p)) + length (json_string (pp_title p)) + length (json_string (pp_deep_link p))"
  by (simp add: apns_document_def json_object_def json_pair_def json_keys)

end
