(* ===== verification/ApnsWorker.thy ===== *)
theory ApnsWorker
  imports ApnsClient
begin

text \<open>
  The worker of \<open>internal/apns/client.go\<close>: it claims a batch of jobs, sends each one, and settles
  it by Apple's answer. An error of one job is logged and the next one runs.

  The worker uses five operations of the store. They are the fields of a record here, as they are
  reached through the \<open>store\<close> field of the Go struct; \<open>store_queue\<close> fills it with the operations
  of \<open>PushStore\<close>. The locale \<open>push_queue\<close> is the contract between the two: what it assumes of the
  operations is discharged for \<open>store_queue\<close>, and what it proves of the worker, that no job is
  tried more than eleven times, holds for it by the interpretation.
\<close>

section \<open>The worker\<close>

record 'd queue =
  q_claim :: "int \<Rightarrow> duration \<Rightarrow> ('d, push_job list) tx"
  q_sent :: "uuid \<Rightarrow> ('d, unit) tx"
  q_retry :: "uuid \<Rightarrow> time \<Rightarrow> string \<Rightarrow> ('d, unit) tx"
  q_fail :: "uuid \<Rightarrow> string \<Rightarrow> ('d, unit) tx"
  q_revoke :: "uuid \<Rightarrow> string \<Rightarrow> ('d, unit) tx"

definition store_queue :: "db queue" where
  "store_queue = \<lparr>q_claim = claim_push_jobs, q_sent = mark_push_sent, q_retry = retry_push,
     q_fail = fail_push, q_revoke = revoke_push_token\<rparr>"

text \<open>The delay before the next attempt; \<open>None\<close> is a random source that failed.\<close>

definition backoff :: "int \<Rightarrow> nat option \<Rightarrow> duration" where
  "backoff attempts random = second * 2 ^ nat (min attempts 10) +
     (case random of None \<Rightarrow> 0 | Some n \<Rightarrow> int (n mod 1000) * millisecond)"

definition retry_job ::
  "'d queue \<Rightarrow> apns_env \<Rightarrow> push_job \<Rightarrow> string \<Rightarrow> duration \<Rightarrow> ('d, unit) tx" where
  "retry_job q env job reason retry_after =
     (if 10 \<le> pj_attempts job then q_fail q (pj_id job) (''retry_limit: '' @ reason)
      else
      bind_tx (if retry_after \<le> 0
        then bind_tx (observe (ax_random env)) (\<lambda>random. ret (backoff (pj_attempts job) random))
        else ret retry_after) (\<lambda>delay.
      bind_tx go_now (\<lambda>now.
      q_retry q (pj_id job) (now + min delay hour) reason)))"

definition settle ::
  "'d queue \<Rightarrow> apns_env \<Rightarrow> push_job \<Rightarrow> go_error + apns_result \<Rightarrow> ('d, unit) tx" where
  "settle q env job answer = (case answer of
       Inl _ \<Rightarrow> retry_job q env job ''transport_error'' 0
     | Inr r \<Rightarrow>
         if re_status r = 200 then q_sent q (pj_id job)
         else if re_status r = 410 \<or> re_status r = 400 \<and>
             re_reason r \<in> {''BadDeviceToken'', ''DeviceTokenNotForTopic''}
         then q_revoke q (pj_device job) (re_reason r)
         else if re_status r = 429 \<or> 500 \<le> re_status r
         then retry_job q env job (re_reason r) (re_retry_after r)
         else q_fail q (pj_id job)
           (if re_reason r = [] then ''apns_status_'' @ show_int (re_status r) else re_reason r))"

text \<open>\<open>process\<close>, whose error the batch only logs; the provider token it leaves is kept.\<close>

definition logged :: "('d, unit) tx \<Rightarrow> ('d, unit) tx" where
  "logged m w d = (case m w d of (_, w', d') \<Rightarrow> (Inr (), w', d'))"

definition process_job ::
  "'d queue \<Rightarrow> apns_env \<Rightarrow> push_job \<Rightarrow> token_provider \<Rightarrow> ('d, token_provider) tx" where
  "process_job q env job p =
     bind_tx (send env job p) (\<lambda>(p', answer).
     bind_tx (logged (settle q env job answer)) (\<lambda>_.
     ret p'))"

primrec process_jobs ::
  "'d queue \<Rightarrow> apns_env \<Rightarrow> push_job list \<Rightarrow> token_provider \<Rightarrow> ('d, token_provider) tx" where
  "process_jobs q env [] p = ret p"
| "process_jobs q env (job # rest) p = bind_tx (process_job q env job p) (process_jobs q env rest)"

definition process_batch ::
  "'d queue \<Rightarrow> apns_env \<Rightarrow> token_provider \<Rightarrow> ('d, token_provider) tx" where
  "process_batch q env p =
     bind_tx (q_claim q (ax_batch_size env) minute) (\<lambda>claimed. process_jobs q env claimed p)"

section \<open>The backoff is bounded\<close>

lemma backoff_window:
  assumes "attempts < 10"
  shows "second * 2 ^ nat attempts \<le> backoff attempts random"
    and "backoff attempts random < second * 2 ^ nat attempts + second"
proof -
  have "0 \<le> (case random of None \<Rightarrow> 0 | Some k \<Rightarrow> int (k mod 1000) * millisecond)"
    by (simp split: option.split)
  moreover have "(case random of None \<Rightarrow> 0 | Some k \<Rightarrow> int (k mod 1000) * millisecond) < second"
    by (auto split: option.split)
  moreover have "min attempts 10 = attempts" using assms by simp
  ultimately show "second * 2 ^ nat attempts \<le> backoff attempts random"
    "backoff attempts random < second * 2 ^ nat attempts + second"
    unfolding backoff_def by simp_all
qed

section \<open>Runs\<close>

lemma send_run:
  assumes "send env job p w d = (r, w', d')"
  shows "d' = d \<and> (\<exists>v. r = Inr v)"
  using assms unfolding send_def send_with_def
  by (auto simp: bind_tx_def observe_def ret_def go_now_def Let_def split: sum.splits if_splits prod.splits)

lemma settle_cases:
  assumes "settle q env job answer w d = (r, w', d')"
  obtains (retried) reason after where "retry_job q env job reason after w d = (r, w', d')"
    | (sent) "q_sent q (pj_id job) w d = (r, w', d')"
    | (revoked) reason where "q_revoke q (pj_device job) reason w d = (r, w', d')"
    | (failed) reason where "q_fail q (pj_id job) reason w d = (r, w', d')"
proof (cases answer)
  case (Inl e)
  then show thesis using assms retried by (simp add: settle_def)
next
  case (Inr a)
  show thesis
  proof (cases "re_status a = 200")
    case True
    then show thesis using assms Inr sent by (simp add: settle_def)
  next
    case other: False
    show thesis
    proof (cases "re_status a = 410 \<or> re_status a = 400 \<and> re_reason a \<in> {''BadDeviceToken'', ''DeviceTokenNotForTopic''}")
      case True
      then show thesis using assms Inr other revoked unfolding settle_def by (simp only: sum.case if_False if_True)
    next
      case False
      then show thesis using assms Inr other retried failed unfolding settle_def
        by (cases "re_status a = 429 \<or> 500 \<le> re_status a") (simp_all only: sum.case if_False if_True)
    qed
  qed
qed

lemma process_job_run:
  assumes "process_job q env job p w d = (r, w', d')"
  obtains answer w1 r1 w2 p' where "settle q env job answer w1 d = (r1, w2, d')"
    and "w' = w2" and "r = Inr p'"
proof -
  obtain s w1 d1 where s: "send env job p w d = (s, w1, d1)" by (cases "send env job p w d" rule: prod_cases3)
  from send_run [OF this] obtain v where v: "s = Inr v" "d1 = d" by blast
  obtain r1 w2 d2 where "settle q env job (snd v) w1 d = (r1, w2, d2)"
    by (cases "settle q env job (snd v) w1 d" rule: prod_cases3)
  then show thesis using assms s v that [of "snd v" w1 r1 w2 "fst v"]
    by (simp add: process_job_def bind_tx_def logged_def ret_def split: prod.splits)
qed

lemma preserves_observe [inv_intros]: "stable I \<Longrightarrow> preserves I (observe f)"
  by (auto simp: preserves_def observe_def intro: stable_tick)

lemma advances_observe [adv_intros]: "advances (observe f)"
  by (simp add: advances_def observe_def)

lemma logged_intros [inv_intros, adv_intros]:
  "preserves I m \<Longrightarrow> preserves I (logged m)" "advances m \<Longrightarrow> advances (logged m)"
  by (auto simp: preserves_def advances_def logged_def split: prod.splits)
     (metis fst_conv snd_conv)+

lemma send_advances: "advances (send env job p)"
  unfolding send_def send_with_def Let_def by (intro adv_intros)

lemma settle_preserves:
  assumes I: "stable I" and q: "\<And>i. preserves I (q_sent q i)" "\<And>i t r. preserves I (q_retry q i t r)"
    "\<And>i r. preserves I (q_fail q i r)" "\<And>i r. preserves I (q_revoke q i r)"
  shows "preserves I (settle q env job answer)"
  unfolding settle_def retry_job_def by (intro inv_intros I q)

lemma settle_advances:
  assumes q: "\<And>i. advances (q_sent q i)" "\<And>i t r. advances (q_retry q i t r)"
    "\<And>i r. advances (q_fail q i r)" "\<And>i r. advances (q_revoke q i r)"
  shows "advances (settle q env job answer)"
  unfolding settle_def retry_job_def by (intro adv_intros q)

section \<open>The contract of the queue\<close>

text \<open>
  What the worker needs of the five operations, seen through three observers: whether the queue is
  in order, how often a job was tried, and whether it is still open. A failing operation changes
  nothing; a claimed job is open and carries the number of its attempts.
\<close>

locale push_queue =
  fixes q :: "'d queue" and valid :: "'d \<Rightarrow> bool" and tried :: "'d \<Rightarrow> uuid \<Rightarrow> int option"
    and is_open :: "'d \<Rightarrow> uuid \<Rightarrow> bool"
  assumes failure: "q_sent q i w d = (Inl e, w', d') \<Longrightarrow> d' = d"
      "q_retry q i t r w d = (Inl e, w', d') \<Longrightarrow> d' = d" "q_fail q i r w d = (Inl e, w', d') \<Longrightarrow> d' = d"
      "q_revoke q i r w d = (Inl e, w', d') \<Longrightarrow> d' = d" "q_claim q n l w d = (Inl e, w', d') \<Longrightarrow> d' = d"
    and claim: "q_claim q n l w d = (Inr js, w', d') \<Longrightarrow> valid d \<Longrightarrow>
      valid d' \<and> tried d' = tried d \<and> is_open d' = is_open d \<and> distinct (map pj_id js) \<and>
      (\<forall>j \<in> set js. is_open d (pj_id j) \<and> tried d (pj_id j) = Some (pj_attempts j))"
    and sent: "q_sent q i w d = (Inr u, w', d') \<Longrightarrow> valid d \<Longrightarrow>
      valid d' \<and> tried d' = tried d \<and> (\<forall>k. is_open d' k \<longrightarrow> is_open d k)"
    and revoke: "q_revoke q i r w d = (Inr u, w', d') \<Longrightarrow> valid d \<Longrightarrow>
      valid d' \<and> tried d' = tried d \<and> (\<forall>k. is_open d' k \<longrightarrow> is_open d k)"
    and retry: "q_retry q i t r w d = (Inr u, w', d') \<Longrightarrow> valid d \<Longrightarrow>
      valid d' \<and> tried d' = (tried d)(i := map_option (\<lambda>n. n + 1) (tried d i)) \<and>
      (\<forall>k. is_open d' k \<longrightarrow> is_open d k)"
    and fail: "q_fail q i r w d = (Inr u, w', d') \<Longrightarrow> valid d \<Longrightarrow>
      valid d' \<and> tried d' = (tried d)(i := map_option (\<lambda>n. n + 1) (tried d i)) \<and>
      (\<forall>k. is_open d' k \<longrightarrow> is_open d k) \<and> \<not> is_open d' i"
begin

lemma ops_valid:
  "preserves (\<lambda>_. valid) (q_sent q i)" "preserves (\<lambda>_. valid) (q_retry q i t r)"
  "preserves (\<lambda>_. valid) (q_fail q i r)" "preserves (\<lambda>_. valid) (q_revoke q i r)"
  "preserves (\<lambda>_. valid) (q_claim q n l)"
proof -
  have keep: "preserves (\<lambda>_. valid) m" if fails: "\<And>w d e w' d'. m w d = (Inl e, w', d') \<Longrightarrow> d' = d"
    and works: "\<And>w d u w' d'. m w d = (Inr u, w', d') \<Longrightarrow> valid d \<Longrightarrow> valid d'" for m :: "('d, 'a) tx"
  proof (rule preservesI)
    show "valid d'" if "valid d" "m w d = (r, w', d')" for w d r w' d'
      using that fails works by (cases r) blast+
  qed
  show "preserves (\<lambda>_. valid) (q_sent q i)" by (rule keep) (use failure(1) sent in blast)+
  show "preserves (\<lambda>_. valid) (q_retry q i t r)" by (rule keep) (use failure(2) retry in blast)+
  show "preserves (\<lambda>_. valid) (q_fail q i r)" by (rule keep) (use failure(3) fail in blast)+
  show "preserves (\<lambda>_. valid) (q_revoke q i r)" by (rule keep) (use failure(4) revoke in blast)+
  show "preserves (\<lambda>_. valid) (q_claim q n l)"
  proof (rule preservesI)
    show "valid d'" if "valid d" "q_claim q n l w d = (r, w', d')" for w d r w' d'
      using that failure(5) claim by (cases r) blast+
  qed
qed

lemma settle_valid: "preserves (\<lambda>_. valid) (settle q env job answer)"
  by (intro settle_preserves ops_valid stable_db)

lemma claim_valid: "preserves (\<lambda>_. valid) (q_claim q n l)"
  by (rule ops_valid)

text \<open>No job was tried more than eleven times, and an open one at most ten times.\<close>

definition bounded :: "'d \<Rightarrow> bool" where
  "bounded d \<longleftrightarrow> valid d \<and> (\<forall>i n. tried d i = Some n \<longrightarrow> 0 \<le> n \<and> n \<le> (if is_open d i then 10 else 11))"

lemma boundedD: "bounded d \<Longrightarrow> tried d i = Some n \<Longrightarrow> 0 \<le> n \<and> n \<le> (if is_open d i then 10 else 11)"
  unfolding bounded_def by blast

text \<open>A job in the hands of the worker was tried no more often than the worker thinks.\<close>

definition held :: "'d \<Rightarrow> push_job \<Rightarrow> bool" where
  "held d x \<longleftrightarrow> 0 \<le> pj_attempts x \<and> pj_attempts x \<le> 10 \<and>
     (\<forall>n. tried d (pj_id x) = Some n \<longrightarrow> n \<le> pj_attempts x)"

text \<open>What others may do meanwhile: queue fresh jobs, delete some, close some.\<close>

definition quiet :: "'d \<Rightarrow> 'd \<Rightarrow> bool" where
  "quiet d d' \<longleftrightarrow> valid d' \<and> (\<forall>i n. tried d' i = Some n \<longrightarrow>
     n = 0 \<or> tried d i = Some n \<and> (is_open d' i \<longrightarrow> is_open d i))"

lemma quiet_bounded: "quiet d d' \<Longrightarrow> bounded d \<Longrightarrow> bounded d'"
  unfolding quiet_def bounded_def by (fastforce split: if_splits)

lemma quiet_held: "quiet d d' \<Longrightarrow> held d x \<Longrightarrow> held d' x"
  unfolding quiet_def held_def by blast

lemma bounded_closing:
  assumes "bounded d" and "valid d'" and "tried d' = tried d" and "\<forall>k. is_open d' k \<longrightarrow> is_open d k"
  shows "bounded d'"
proof -
  have "quiet d d'" using assms(2-4) by (simp add: quiet_def)
  then show ?thesis using assms(1) by (rule quiet_bounded)
qed

lemma bounded_trying:
  assumes "bounded d" and "valid d'" and "\<And>n. tried d i = Some n \<Longrightarrow> n < 10 \<or> n \<le> 10 \<and> \<not> is_open d' i"
    and "tried d' = (tried d)(i := map_option (\<lambda>n. n + 1) (tried d i))"
    and "\<forall>k. is_open d' k \<longrightarrow> is_open d k"
  shows "bounded d'"
  unfolding bounded_def
proof (intro conjI allI impI assms(2))
  fix k m
  assume m: "tried d' k = Some m"
  have "0 \<le> m \<and> m \<le> (if is_open d' k then 10 else 11)"
  proof (cases "k = i")
    case True
    then obtain n where "tried d i = Some n" "m = n + 1" using m assms(4) by auto
    then show ?thesis using True boundedD [OF assms(1), of i n] assms(3) [of n] by auto
  next
    case False
    then have "0 \<le> m \<and> m \<le> (if is_open d k then 10 else 11)"
      using m boundedD [OF assms(1)] assms(4) by simp
    then show ?thesis using assms(5) by (auto split: if_splits)
  qed
  then show "0 \<le> m" "m \<le> (if is_open d' k then 10 else 11)" by simp_all
qed

text \<open>What one settlement may do to the jobs.\<close>

definition kept_but :: "uuid \<Rightarrow> 'd \<Rightarrow> 'd \<Rightarrow> bool" where
  "kept_but i d d' \<longleftrightarrow> bounded d' \<and> (\<forall>k. k \<noteq> i \<longrightarrow> tried d' k = tried d k)"

lemma held_kept: "kept_but i d d' \<Longrightarrow> held d x \<Longrightarrow> i \<noteq> pj_id x \<Longrightarrow> held d' x"
  by (auto simp: kept_but_def held_def)

lemma claimed_held:
  assumes "q_claim q n l w d = (Inr js, w', d')" and "bounded d"
  shows "bounded d' \<and> distinct (map pj_id js) \<and> (\<forall>j \<in> set js. held d' j)"
proof -
  have v: "valid d" using assms(2) by (simp add: bounded_def)
  note k = claim [OF assms(1) v]
  then have "bounded d'" using bounded_closing [OF assms(2)] by simp
  moreover have "held d' j" if "j \<in> set js" for j
    using k that boundedD [OF assms(2), of "pj_id j" "pj_attempts j"] by (simp add: held_def)
  ultimately show ?thesis using k by blast
qed

lemma retry_job_kept:
  assumes run: "retry_job q env job reason after w d = (r, w', d')" and b: "bounded d"
    and job: "held d job"
  shows "kept_but (pj_id job) d d'"
proof -
  have v: "valid d" using b by (simp add: bounded_def)
  show ?thesis
  proof (cases "10 \<le> pj_attempts job")
  case True
  then have f: "q_fail q (pj_id job) (''retry_limit: '' @ reason) w d = (r, w', d')"
    using run by (simp add: retry_job_def)
  show ?thesis
  proof (cases r)
    case (Inl e)
    have "d' = d" using f unfolding Inl by (rule failure)
    with b show ?thesis by (simp add: kept_but_def)
  next
    case (Inr u)
    note a = fail [OF f [unfolded Inr] v]
    then have "bounded d'" using job by (intro bounded_trying [OF b]) (auto simp: held_def)
    with a show ?thesis by (simp add: kept_but_def)
  qed
next
  case False
  obtain t w1 where f: "q_retry q (pj_id job) t reason w1 d = (r, w', d')"
    using run False unfolding retry_job_def
    by (auto simp: bind_tx_def observe_def ret_def go_now_def split: if_splits)
  show ?thesis
  proof (cases r)
    case (Inl e)
    have "d' = d" using f unfolding Inl by (rule failure)
    with b show ?thesis by (simp add: kept_but_def)
  next
    case (Inr u)
    note a = retry [OF f [unfolded Inr] v]
    then have "bounded d'" using False job by (intro bounded_trying [OF b]) (auto simp: held_def)
    with a show ?thesis by (simp add: kept_but_def)
  qed
qed
qed

lemma settle_kept:
  assumes run: "settle q env job answer w d = (r, w', d')" and b: "bounded d"
    and job: "held d job"
  shows "kept_but (pj_id job) d d'"
proof -
  have v: "valid d" using b by (simp add: bounded_def)
  have closing: "kept_but i d d'" if "valid d'" "tried d' = tried d" "\<forall>k. is_open d' k \<longrightarrow> is_open d k" for i
    using bounded_closing [OF b that] that(2) by (simp add: kept_but_def)
  have failing: "kept_but i d d'" if "d' = d" for i using that b by (simp add: kept_but_def)
  from run show ?thesis
  proof (cases rule: settle_cases)
    case retried
    then show ?thesis using b job by (rule retry_job_kept)
  next
    case sending: sent
    show ?thesis
    proof (cases r)
      case (Inl e)
      show ?thesis using sending unfolding Inl by (intro failing) (rule failure)
    next
      case (Inr u)
      show ?thesis using sent [OF sending [unfolded Inr] v] by (intro closing) simp_all
    qed
  next
    case revoked
    show ?thesis
    proof (cases r)
      case (Inl e)
      show ?thesis using revoked unfolding Inl by (intro failing) (rule failure)
    next
      case (Inr u)
      show ?thesis using revoke [OF revoked [unfolded Inr] v] by (intro closing) simp_all
    qed
  next
    case failed
    show ?thesis
    proof (cases r)
      case (Inl e)
      show ?thesis using failed unfolding Inl by (intro failing) (rule failure)
    next
      case (Inr u)
      note a = fail [OF failed [unfolded Inr] v]
      then have "bounded d'" using job by (intro bounded_trying [OF b]) (auto simp: held_def)
      with a show ?thesis by (simp add: kept_but_def)
    qed
  qed
qed

lemma process_jobs_bounded:
  assumes "process_jobs q env js p w d = (r, w', d')" and "bounded d" and "distinct (map pj_id js)"
    and "\<forall>j \<in> set js. held d j"
  shows "bounded d'"
  using assms
proof (induction js arbitrary: p w d)
  case Nil
  then show ?case by (simp add: ret_def)
next
  case (Cons j js)
  obtain c w1 d1 where c: "process_job q env j p w d = (c, w1, d1)"
    by (cases "process_job q env j p w d" rule: prod_cases3)
  then obtain answer w0 r1 w2 p1 where a: "settle q env j answer w0 d = (r1, w2, d1)" "c = Inr p1"
    by (rule process_job_run)
  have k: "kept_but (pj_id j) d d1" by (rule settle_kept [OF a(1) Cons.prems(2)]) (use Cons.prems(4) in simp)
  have rest: "process_jobs q env js p1 w1 d1 = (r, w', d')"
    using Cons.prems(1) c a(2) by (simp add: bind_tx_def)
  have "\<forall>x \<in> set js. held d1 x" using Cons.prems(3,4) by (intro ballI held_kept [OF k]) auto
  then show ?case using Cons.IH [OF rest] Cons.prems(3) k by (simp add: kept_but_def)
qed

lemma process_batch_bounded:
  assumes "process_batch q env p w d = (r, w', d')" and "bounded d"
  shows "bounded d'"
proof -
  obtain c w1 d1 where c: "q_claim q (ax_batch_size env) minute w d = (c, w1, d1)"
    by (cases "q_claim q (ax_batch_size env) minute w d" rule: prod_cases3)
  show ?thesis
  proof (cases c)
    case (Inl e)
    have "d1 = d" using c unfolding Inl by (rule failure)
    then show ?thesis using assms c Inl by (simp add: process_batch_def bind_tx_def)
  next
    case (Inr js)
    have v: "valid d" using assms(2) by (simp add: bounded_def)
    note k = claim [OF c [unfolded Inr] v]
    then have "bounded d1" using bounded_closing [OF assms(2)] by simp
    moreover have "\<forall>j \<in> set js. held d1 j" using claimed_held [OF c [unfolded Inr] assms(2)] by simp
    moreover have "process_jobs q env js p w1 d1 = (r, w', d')"
      using assms(1) c Inr by (simp add: process_batch_def bind_tx_def)
    ultimately show ?thesis using k process_jobs_bounded by blast
  qed
qed

end
section \<open>The queue of the store\<close>

definition times_tried :: "db \<Rightarrow> uuid \<Rightarrow> int option" where
  "times_tried d i = map_option jb_attempts (List.find (\<lambda>j. jb_id j = i) (jobs d))"

definition job_open :: "db \<Rightarrow> uuid \<Rightarrow> bool" where
  "job_open d i \<longleftrightarrow> (\<exists>j \<in> set (jobs d). jb_id j = i \<and> unfinished j)"

lemma exec_failure: "exec f w d = (Inl e, w', d') \<Longrightarrow> d' = d"
  by (auto simp: exec_def sql_def split: option.splits sum.splits)

lemma update_job_run:
  assumes "update_job i f w d = (Inr u, w', d')"
    and "\<And>c j. jb_id (f c j) = jb_id j" and "\<And>c j. jb_payload (f c j) = jb_payload j"
    and "\<And>c j. jb_attempts (f c j) = jb_attempts j + k" and "\<And>c j. unfinished (f c j) \<Longrightarrow> unfinished j"
  obtains c where "jobs d' = update_where (\<lambda>j. jb_id j = i) (f c) (jobs d)" and "queue_ok d \<Longrightarrow> queue_ok d'"
    and "times_tried d' = (times_tried d)(i := map_option (\<lambda>n. n + k) (times_tried d i))"
    and "\<forall>x. job_open d' x \<longrightarrow> job_open d x"
proof -
  let ?c = "e_clock (env_of w)"
  have d': "d' = d\<lparr>jobs := update_where (\<lambda>j. jb_id j = i) (f ?c) (jobs d)\<rparr>"
    using assms(1) by (simp add: update_job_def tx_simps)
  show thesis
  proof (rule that [of ?c])
    show "jobs d' = update_where (\<lambda>j. jb_id j = i) (f ?c) (jobs d)" by (simp add: d')
    show "queue_ok d'" if "queue_ok d"
      using that by (auto simp: queue_ok_def d' map_update_where assms(2,3) set_update_where)
    show "times_tried d' = (times_tried d)(i := map_option (\<lambda>n. n + k) (times_tried d i))"
    proof
      fix x
      have "List.find (\<lambda>j. jb_id j = x) (update_where (\<lambda>j. jb_id j = i) (f ?c) (jobs d))
          = map_option (\<lambda>j. if jb_id j = i then f ?c j else j) (List.find (\<lambda>j. jb_id j = x) (jobs d))"
        by (rule find_update_where) (simp add: assms(2))
      then show "times_tried d' x = ((times_tried d)(i := map_option (\<lambda>n. n + k) (times_tried d i))) x"
        by (cases "List.find (\<lambda>j. jb_id j = x) (jobs d)")
           (auto simp: times_tried_def d' assms(4) dest: find_Some_in)
    qed
    show "\<forall>x. job_open d' x \<longrightarrow> job_open d x"
      by (auto simp: job_open_def d' set_update_where assms(2) dest: assms(5))
  qed
qed

lemma distinct_joined:
  assumes "distinct (map k rows)" and "\<And>r. length (F r) \<le> 1"
  shows "distinct (map (\<lambda>p. k (fst p)) (concat (map (\<lambda>r. map (Pair r) (F r)) rows)))"
  using assms(1)
proof (induction rows)
  case (Cons r rows)
  have "F r = [] \<or> (\<exists>v. F r = [v])" using assms(2) [of r] by (cases "F r") auto
  with Cons show ?case by (auto simp: image_iff)
qed simp

lemma claim_candidates_joined:
  "claim_candidates c d = sort_key (\<lambda>(j, v). (jb_created_at j, pd_created_at v))
     (concat (map (\<lambda>j. map (Pair j) (filter (\<lambda>v. pd_id v = jb_device j \<and> pd_revoked_at v = None) (push_devices d)))
       (filter (claimable c) (jobs d))))"
  by (simp add: claim_candidates_def)

lemma claim_candidates_set:
  "(j, v) \<in> set (claim_candidates c d) \<Longrightarrow> j \<in> set (jobs d) \<and> claimable c j \<and> v \<in> set (push_devices d) \<and> pd_id v = jb_device j"
  by (auto simp: claim_candidates_joined)

lemma distinct_const_key:
  assumes "distinct (map k xs)" and "\<And>x. x \<in> set xs \<Longrightarrow> k x = a"
  shows "length xs \<le> 1"
proof -
  have "card (k ` set xs) \<le> card {a}" by (rule card_mono) (use assms(2) in auto)
  moreover have "card (k ` set xs) = length xs" using distinct_card [OF assms(1)] by simp
  ultimately show ?thesis by simp
qed

lemma claim_candidates_distinct:
  assumes "queue_ok d"
  shows "distinct (map (\<lambda>p. jb_id (fst p)) (claim_candidates c d))"
proof -
  let ?F = "\<lambda>j. filter (\<lambda>v. pd_id v = jb_device j \<and> pd_revoked_at v = None) (push_devices d)"
  have "length (?F j) \<le> 1" for j
    by (rule distinct_const_key [where k = pd_id and a = "jb_device j"])
       (use assms in \<open>auto simp: queue_ok_def distinct_map_filter\<close>)
  moreover have "distinct (map jb_id (filter (claimable c) (jobs d)))"
    using assms by (simp add: queue_ok_def distinct_map_filter)
  ultimately have "distinct (map (\<lambda>p. jb_id (fst p)) (concat (map (\<lambda>j. map (Pair j) (?F j)) (filter (claimable c) (jobs d)))))"
    by (intro distinct_joined)
  then show ?thesis unfolding claim_candidates_joined by (simp add: distinct_map)
qed

lemma claim_run:
  assumes "claim_push_jobs n l w d = (Inr js, w', d')"
  obtains c where "js = map push_job_of (take (nat n) (claim_candidates c d))"
    and "d' = lock_jobs (map pj_id js) (c + whole_seconds l * second) d"
    and "c = w_clock w (Suc (w_step w))" and "w' = w\<lparr>w_step := w_step w + 3\<rparr>"
  using assms unfolding claim_push_jobs_def
proof (cases rule: transaction_InrD)
  case (committed w2)
  then show thesis
    by (intro that [of "w_clock w (Suc (w_step w))"])
       (auto simp: tx_simps claim_rows_def Let_def env_of_def tick_def)
qed (auto simp: tx_simps)

lemma ex_update_where:
  "(\<And>r. P r \<Longrightarrow> Q (f r) = Q r) \<Longrightarrow> (\<exists>r \<in> set (update_where P f rows). Q r) = (\<exists>r \<in> set rows. Q r)"
  by (induction rows) auto

lemma all_update_where:
  "(\<And>r. P r \<Longrightarrow> Q (f r) = Q r) \<Longrightarrow> (\<forall>r \<in> set (update_where P f rows). Q r) = (\<forall>r \<in> set rows. Q r)"
  by (induction rows) auto

lemma lock_jobs_observed:
  "times_tried (lock_jobs ids t d) = times_tried d" "job_open (lock_jobs ids t d) = job_open d"
  "queue_ok (lock_jobs ids t d) = queue_ok d"
proof -
  have "List.find (\<lambda>j. jb_id j = x) (jobs (lock_jobs ids t d))
      = map_option (\<lambda>j. if jb_id j \<in> set ids then j\<lparr>jb_locked_until := Some t\<rparr> else j)
          (List.find (\<lambda>j. jb_id j = x) (jobs d))" for x
    unfolding lock_jobs_def by (simp, rule find_update_where) simp
  then show "times_tried (lock_jobs ids t d) = times_tried d"
    by (auto simp: times_tried_def fun_eq_iff option.map_comp comp_def intro!: option.map_cong)
  show "job_open (lock_jobs ids t d) = job_open d"
    unfolding job_open_def lock_jobs_def by (simp add: ex_update_where unfinished_def fun_eq_iff)
  show "queue_ok (lock_jobs ids t d) = queue_ok d"
    unfolding queue_ok_def lock_jobs_def by (simp add: all_update_where map_update_where)
qed

lemma claim_observed:
  assumes "claim_push_jobs n l w d = (Inr js, w', d')" and "queue_ok d"
  shows "queue_ok d' \<and> times_tried d' = times_tried d \<and> job_open d' = job_open d \<and> distinct (map pj_id js) \<and>
    (\<forall>j \<in> set js. job_open d (pj_id j) \<and> times_tried d (pj_id j) = Some (pj_attempts j))"
  using assms(1)
proof (rule claim_run)
  fix c
  assume js: "js = map push_job_of (take (nat n) (claim_candidates c d))"
    and d': "d' = lock_jobs (map pj_id js) (c + whole_seconds l * second) d"
  have ids: "map pj_id js = map (\<lambda>p. jb_id (fst p)) (take (nat n) (claim_candidates c d))"
    by (auto simp: js push_job_of_def)
  have "distinct (map pj_id js)"
    using claim_candidates_distinct [OF assms(2)] unfolding ids take_map [symmetric] by (rule distinct_take)
  moreover have "job_open d (pj_id x) \<and> times_tried d (pj_id x) = Some (pj_attempts x)" if "x \<in> set js" for x
  proof -
    obtain j v where x: "x = push_job_of (j, v)" "(j, v) \<in> set (claim_candidates c d)"
      using \<open>x \<in> set js\<close> by (auto simp: js dest: in_set_takeD)
    then have j: "j \<in> set (jobs d)" "claimable c j" using claim_candidates_set by blast+
    then have "List.find (\<lambda>k. jb_id k = jb_id j) (jobs d) = Some j"
      using assms(2) by (simp add: queue_ok_def find_key_Some)
    with j show ?thesis by (auto simp: x push_job_of_def job_open_def times_tried_def claimable_def)
  qed
  ultimately show ?thesis using assms(2) by (simp add: d' lock_jobs_observed)
qed

lemma claim_failure: "claim_push_jobs n l w d = (Inl e, w', d') \<Longrightarrow> d' = d"
  unfolding claim_push_jobs_def by (rule transaction_error_unchanged)

lemma revoke_failure: "revoke_push_token i r w d = (Inl e, w', d') \<Longrightarrow> d' = d"
  unfolding revoke_push_token_def by (rule transaction_error_unchanged)

lemma revoke_run:
  assumes "revoke_push_token i r w d = (Inr u, w', d')"
  obtains c c' where "d' = fail_device_jobs i r c' (d\<lparr>push_devices :=
      update_where (\<lambda>v. pd_id v = i) (revoke_device_row c) (push_devices d)\<rparr>)"
    and "0 < count_where (\<lambda>v. pd_id v = i) (push_devices d)"
  using assms unfolding revoke_push_token_def
  by (cases rule: transaction_InrD) (auto simp: tx_simps raise_def split: if_splits)

lemma fail_jobs_observed:
  assumes "d' = fail_device_jobs i r c (d\<lparr>push_devices := update_where (\<lambda>v. pd_id v = i) (revoke_device_row c') (push_devices d)\<rparr>)"
  shows "times_tried d' = times_tried d" and "job_open d' x \<Longrightarrow> job_open d x" and "queue_ok d' = queue_ok d"
proof -
  let ?f = "\<lambda>j. j\<lparr>jb_failed_at := (case jb_failed_at j of None \<Rightarrow> Some c | Some t \<Rightarrow> Some t),
         jb_locked_until := None, jb_last_error := Some r\<rparr>"
  let ?P = "\<lambda>j. jb_device j = i \<and> unfinished j"
  have j: "jobs d' = update_where ?P ?f (jobs d)" by (simp add: assms fail_device_jobs_def)
  have "List.find (\<lambda>j. jb_id j = k) (jobs d')
      = map_option (\<lambda>j. if ?P j then ?f j else j) (List.find (\<lambda>j. jb_id j = k) (jobs d))" for k
    unfolding j by (rule find_update_where) simp
  then show "times_tried d' = times_tried d"
    by (auto simp: times_tried_def fun_eq_iff option.map_comp comp_def intro!: option.map_cong)
  show "job_open d x" if "job_open d' x"
    using that unfolding job_open_def j set_update_where by (auto simp: unfinished_def)
  have "pd_id (revoke_device_row c' v) = pd_id v" for v by (simp add: revoke_device_row_def)
  then show "queue_ok d' = queue_ok d"
    unfolding queue_ok_def j by (simp add: all_update_where map_update_where assms fail_device_jobs_def)
qed

text \<open>The store keeps the contract.\<close>

lemma store_queue_ops:
  "q_claim store_queue = claim_push_jobs" "q_sent store_queue i = update_job i sent_row"
  "q_retry store_queue i t r = update_job i (\<lambda>_. retry_row t r)"
  "q_fail store_queue i r = update_job i (failed_row r)" "q_revoke store_queue = revoke_push_token"
  by (simp_all add: store_queue_def mark_push_sent_def retry_push_def fail_push_def)

lemma update_failure: "update_job i f w d = (Inl e, w', d') \<Longrightarrow> d' = d"
  unfolding update_job_def by (rule exec_failure)

interpretation sq: push_queue store_queue queue_ok times_tried job_open
proof unfold_locales
  show "d' = d" if "q_sent store_queue i w d = (Inl e, w', d')" for i w d e w' d'
    using that unfolding store_queue_ops by (rule update_failure)
  show "d' = d" if "q_retry store_queue i t r w d = (Inl e, w', d')" for i t r w d e w' d'
    using that unfolding store_queue_ops by (rule update_failure)
  show "d' = d" if "q_fail store_queue i r w d = (Inl e, w', d')" for i r w d e w' d'
    using that unfolding store_queue_ops by (rule update_failure)
  show "d' = d" if "q_revoke store_queue i r w d = (Inl e, w', d')" for i r w d e w' d'
    using that unfolding store_queue_ops by (rule revoke_failure)
  show "d' = d" if "q_claim store_queue n l w d = (Inl e, w', d')" for n l w d e w' d'
    using that unfolding store_queue_ops by (rule claim_failure)
  show "queue_ok d' \<and> times_tried d' = times_tried d \<and> job_open d' = job_open d \<and> distinct (map pj_id js) \<and>
      (\<forall>j \<in> set js. job_open d (pj_id j) \<and> times_tried d (pj_id j) = Some (pj_attempts j))"
    if "q_claim store_queue n l w d = (Inr js, w', d')" "queue_ok d" for n l w d js w' d'
    using claim_observed that unfolding store_queue_ops by blast
  show "queue_ok d' \<and> times_tried d' = times_tried d \<and> (\<forall>k. job_open d' k \<longrightarrow> job_open d k)"
    if "q_sent store_queue i w d = (Inr u, w', d')" "queue_ok d" for i w d u w' d'
  proof -
    have "update_job i sent_row w d = (Inr u, w', d')" using that(1) by (simp add: store_queue_def mark_push_sent_def)
    then show ?thesis by (rule update_job_run [where k = 0]) (use that(2) in \<open>auto simp: sent_row_def unfinished_def option.map_ident\<close>)
  qed
  show "queue_ok d' \<and> times_tried d' = times_tried d \<and> (\<forall>k. job_open d' k \<longrightarrow> job_open d k)"
    if "q_revoke store_queue i r w d = (Inr u, w', d')" "queue_ok d" for i r w d u w' d'
  proof -
    have "revoke_push_token i r w d = (Inr u, w', d')" using that(1) by (simp add: store_queue_def)
    then obtain c c' where d': "d' = fail_device_jobs i r c' (d\<lparr>push_devices :=
        update_where (\<lambda>v. pd_id v = i) (revoke_device_row c) (push_devices d)\<rparr>)" by (rule revoke_run)
    show ?thesis using fail_jobs_observed [OF d'] that(2) by blast
  qed
  show "queue_ok d' \<and> times_tried d' = (times_tried d)(i := map_option (\<lambda>n. n + 1) (times_tried d i)) \<and>
      (\<forall>k. job_open d' k \<longrightarrow> job_open d k)"
    if "q_retry store_queue i t r w d = (Inr u, w', d')" "queue_ok d" for i t r w d u w' d'
  proof -
    have "update_job i (\<lambda>_. retry_row t r) w d = (Inr u, w', d')"
      using that(1) by (simp add: store_queue_def retry_push_def)
    then show ?thesis by (rule update_job_run [where k = 1]) (use that(2) in \<open>auto simp: retry_row_def unfinished_def\<close>)
  qed
  show "queue_ok d' \<and> times_tried d' = (times_tried d)(i := map_option (\<lambda>n. n + 1) (times_tried d i)) \<and>
      (\<forall>k. job_open d' k \<longrightarrow> job_open d k) \<and> \<not> job_open d' i"
    if "q_fail store_queue i r w d = (Inr u, w', d')" "queue_ok d" for i r w d u w' d'
  proof -
    have run: "update_job i (failed_row r) w d = (Inr u, w', d')"
      using that(1) by (simp add: store_queue_def fail_push_def)
    have closed: "\<not> (\<exists>j \<in> set (update_where (\<lambda>j. jb_id j = i) (failed_row r c) rows). jb_id j = i \<and> unfinished j)" for c rows
      by (induction rows) (auto simp: failed_row_def unfinished_def)
    from run obtain c where "jobs d' = update_where (\<lambda>j. jb_id j = i) (failed_row r c) (jobs d)"
      by (rule update_job_run [where k = 1]) (simp_all add: failed_row_def unfinished_def)
    then have "\<not> job_open d' i" by (simp only: job_open_def closed not_False_eq_True)
    with run show ?thesis
      by (elim update_job_run [where k = 1]) (use that(2) in \<open>auto simp: failed_row_def unfinished_def\<close>)
  qed
qed

lemma find_key_iff:
  "distinct (map k xs) \<Longrightarrow> (List.find (\<lambda>x. k x = i) xs = Some x) = (x \<in> set xs \<and> k x = i)"
  by (auto simp: find_key_Some dest: find_Some_in)

text \<open>What the contract bounds are the attempts in the rows.\<close>

definition job_ok :: "job_row \<Rightarrow> bool" where
  "job_ok j \<longleftrightarrow> 0 \<le> jb_attempts j \<and> jb_attempts j \<le> (if unfinished j then 10 else 11)"

lemma times_tried_iff:
  assumes "distinct (map jb_id (jobs d))"
  shows "times_tried d i = Some n \<longleftrightarrow> (\<exists>j \<in> set (jobs d). jb_id j = i \<and> jb_attempts j = n)"
  unfolding times_tried_def map_option_eq_Some find_key_iff [OF assms] by blast

lemma job_open_iff:
  "distinct (map jb_id (jobs d)) \<Longrightarrow> j \<in> set (jobs d) \<Longrightarrow> job_open d (jb_id j) = unfinished j"
  unfolding job_open_def by (metis distinct_key_eq)

lemma queue_bounded: "sq.bounded d \<longleftrightarrow> queue_ok d \<and> (\<forall>j \<in> set (jobs d). job_ok j)"
proof (cases "queue_ok d")
  case True
  then have u: "distinct (map jb_id (jobs d))" by (simp add: queue_ok_def)
  have "sq.bounded d = (\<forall>j \<in> set (jobs d). 0 \<le> jb_attempts j \<and> jb_attempts j \<le> (if job_open d (jb_id j) then 10 else 11))"
    unfolding sq.bounded_def times_tried_iff [OF u] using True by blast
  also have "\<dots> = (\<forall>j \<in> set (jobs d). job_ok j)"
    by (intro ball_cong refl) (simp only: job_open_iff [OF u] job_ok_def)
  finally show ?thesis using True by simp
qed (simp add: sq.bounded_def)

lemma queue_frame_quiet:
  assumes "queue_frame d d'" and "queue_ok d"
  shows "sq.quiet d d'"
proof -
  have ok: "queue_ok d'" using assms by (simp add: queue_frame_def)
  then have u: "distinct (map jb_id (jobs d))" "distinct (map jb_id (jobs d'))"
    using assms(2) by (simp_all add: queue_ok_def)
  have "n = 0 \<or> times_tried d i = Some n \<and> (job_open d' i \<longrightarrow> job_open d i)" if tried: "times_tried d' i = Some n" for i n
  proof -
    obtain j where j: "j \<in> set (jobs d')" "jb_id j = i" "jb_attempts j = n"
      using tried times_tried_iff [OF u(2)] by blast
    then consider "j \<in> set (jobs d)" | "fresh_job j" using assms(1) unfolding queue_frame_def by blast
    then show ?thesis
    proof cases
      case 1
      then have "times_tried d i = Some n" unfolding times_tried_iff [OF u(1)] using j by blast
      moreover have "job_open d' i = job_open d i"
        using job_open_iff [OF u(1) 1] job_open_iff [OF u(2) j(1)] j(2) by simp
      ultimately show ?thesis by simp
    qed (use j in \<open>simp add: fresh_job_def\<close>)
  qed
  with ok show ?thesis unfolding sq.quiet_def by blast
qed

section \<open>What the worker leaves alone\<close>

definition only_queue :: "db \<Rightarrow> db \<Rightarrow> bool" where
  "only_queue d d' \<longleftrightarrow> (\<exists>js vs. d' = d\<lparr>jobs := js, push_devices := vs\<rparr>)"

lemma only_queue_refl [simp]: "only_queue d d"
  unfolding only_queue_def by (intro exI [of _ "jobs d"] exI [of _ "push_devices d"]) simp

lemma only_queue_update:
  "only_queue d0 d \<Longrightarrow> only_queue d0 (d\<lparr>jobs := js\<rparr>)"
  "only_queue d0 d \<Longrightarrow> only_queue d0 (d\<lparr>push_devices := vs\<rparr>)"
proof -
  assume "only_queue d0 d"
  then obtain js' vs' where d: "d = d0\<lparr>jobs := js', push_devices := vs'\<rparr>" unfolding only_queue_def by blast
  show "only_queue d0 (d\<lparr>jobs := js\<rparr>)"
    unfolding only_queue_def d by (intro exI [of _ js] exI [of _ vs']) simp
  show "only_queue d0 (d\<lparr>push_devices := vs\<rparr>)"
    unfolding only_queue_def d by (intro exI [of _ js'] exI [of _ vs]) simp
qed

lemma only_queue_exec:
  assumes "\<And>e d d'. q e d = Inr d' \<Longrightarrow> only_queue d0 d \<Longrightarrow> only_queue d0 d'"
  shows "preserves (\<lambda>_. only_queue d0) (exec q)"
  using assms by (intro preserves_exec stable_db)

lemma only_queue_sql:
  assumes "\<And>e d v d'. q e d = Inr (v, d') \<Longrightarrow> only_queue d0 d \<Longrightarrow> only_queue d0 d'"
  shows "preserves (\<lambda>_. only_queue d0) (sql q)"
  using assms by (intro preserves_sql stable_db)

lemma only_queue_store:
  "preserves (\<lambda>_. only_queue d0) (update_job i f)"
  "preserves (\<lambda>_. only_queue d0) (revoke_push_token i r)"
  "preserves (\<lambda>_. only_queue d0) (claim_push_jobs n l)"
  "preserves (\<lambda>_. only_queue d0) (revoke_push_device a i)"
  "preserves (\<lambda>_. only_queue d0) (register_push_device h a i t c e tp)"
proof -
  show "preserves (\<lambda>_. only_queue d0) (update_job i f)"
    unfolding update_job_def by (intro only_queue_exec) (auto intro: only_queue_update)
  show "preserves (\<lambda>_. only_queue d0) (revoke_push_token i r)"
    unfolding revoke_push_token_def fail_device_jobs_def
    by (intro inv_intros adv_intros stable_db only_queue_exec only_queue_sql) (auto intro: only_queue_update)
  show "preserves (\<lambda>_. only_queue d0) (claim_push_jobs n l)"
    unfolding claim_push_jobs_def claim_rows_def Let_def lock_jobs_def
    by (intro inv_intros adv_intros stable_db only_queue_sql) (auto simp: require_def intro: only_queue_update split: if_splits)
  show "preserves (\<lambda>_. only_queue d0) (revoke_push_device a i)"
    unfolding revoke_push_device_def by (intro only_queue_exec) (auto intro: only_queue_update)
  show "preserves (\<lambda>_. only_queue d0) (register_push_device h a i t c e tp)"
    unfolding register_push_device_def
    by (intro inv_intros stable_db only_queue_sql)
       (auto simp: upsert_push_device_def require_def intro: only_queue_update split: if_splits)
qed

lemma advances_queue [adv_intros]:
  "advances (update_job i f)" "advances (revoke_push_token i r)" "advances (claim_push_jobs n l)"
  "advances (revoke_push_device a i)" "advances (register_push_device h a i t c e tp)"
  unfolding update_job_def revoke_push_token_def claim_push_jobs_def revoke_push_device_def
    register_push_device_def
  by (intro adv_intros)+

lemma worker_frame:
  "preserves (\<lambda>_. only_queue d0) (settle store_queue env job answer)"
  "advances (settle store_queue env job answer)"
  "preserves (\<lambda>_. queue_ok) (settle store_queue env job answer)"
  "preserves (\<lambda>_. queue_ok) (claim_push_jobs n l)"
proof -
  show "preserves (\<lambda>_. only_queue d0) (settle store_queue env job answer)"
    by (rule settle_preserves)
       (simp_all only: store_queue_ops only_queue_store stable_db)
  show "advances (settle store_queue env job answer)"
    by (rule settle_advances)
       (simp_all only: store_queue_ops advances_queue)
  show "preserves (\<lambda>_. queue_ok) (settle store_queue env job answer)" by (rule sq.settle_valid)
  show "preserves (\<lambda>_. queue_ok) (claim_push_jobs n l)" using sq.claim_valid unfolding store_queue_ops .
qed

end
