(* ===== verification/Along.thy ===== *)
theory Along
  imports System AuthInvariants ApnsWorker
begin

text \<open>
  The whole store as one transition system: the operations on the shared state (\<open>served\<close>) and
  those behind sign-in, interleaved in any order. The invariants of the shared state and of the
  sign-in tables hold at every reachable moment, because neither side takes away what the other
  refers to.
\<close>

section \<open>What sign-in leaves alone\<close>

definition shared_of where
  "shared_of d = (pairs d, members d, invites d, sessions d, session_members d, session_notes d,
     reactions d, idempotency d, events d)"

definition account_view :: "db \<Rightarrow> uuid \<Rightarrow> string list" where
  "account_view d i = map ac_display_name (filter (\<lambda>a. ac_id a = i) (accounts d))"

definition account_used :: "db \<Rightarrow> uuid \<Rightarrow> bool" where
  "account_used d i \<longleftrightarrow> i \<in> pm_account ` set (members d) \<or>
     i \<in> sm_account ` set (session_members d) \<or> i \<in> nt_account ` set (session_notes d) \<or>
     i \<in> iv_created_by ` set (invites d) \<or> i \<in> ik_account ` set (idempotency d)"

definition view_ok :: "db \<Rightarrow> db \<Rightarrow> bool" where
  "view_ok d d' \<longleftrightarrow> shared_of d' = shared_of d \<and>
     (\<forall>i. account_used d i \<and> account_exists d i \<longrightarrow> account_view d' i = account_view d i)"

definition frame_ok :: "db \<Rightarrow> db \<Rightarrow> bool" where
  "frame_ok d d' \<longleftrightarrow> view_ok d d' \<and> queue_frame d d'"

lemma account_exists_view: "account_exists d i \<longleftrightarrow> account_view d i \<noteq> []"
  by (auto simp: account_exists_def account_view_def filter_empty_conv)

lemma account_used_shared: "shared_of d' = shared_of d \<Longrightarrow> account_used d' = account_used d"
  by (simp add: shared_of_def account_used_def fun_eq_iff)

lemma frame_refl [simp]: "frame_ok d d"
  by (simp add: frame_ok_def view_ok_def)

lemma frame_trans:
  assumes "frame_ok d d'" and "frame_ok d' d''"
  shows "frame_ok d d''"
proof -
  have "account_used d' = account_used d" using assms(1) by (intro account_used_shared) (simp add: frame_ok_def view_ok_def)
  then show ?thesis using assms queue_frame_trans by (auto simp: frame_ok_def view_ok_def account_exists_view)
qed

lemma frame_same:
  "shared_of d' = shared_of d \<Longrightarrow> accounts d' = accounts d \<Longrightarrow> queue_frame d d' \<Longrightarrow> frame_ok d d'"
  by (simp add: frame_ok_def view_ok_def account_view_def)

lemma frame_sign_in:
  "shared_of d' = shared_of d \<Longrightarrow> accounts d' = accounts d \<Longrightarrow> jobs d' = jobs d \<Longrightarrow>
   push_devices d' = push_devices d \<Longrightarrow> frame_ok d d'"
  by (intro frame_same queue_frame_same)

named_theorems frame_intros \<open>programs that leave the shared tables alone\<close>

lemma frame_exec:
  assumes "\<And>e d d'. q e d = Inr d' \<Longrightarrow> frame_ok d d'"
  shows "preserves (\<lambda>_. frame_ok d0) (exec q)"
  by (rule preserves_exec) (use assms in \<open>auto intro: frame_trans\<close>)

lemma frame_sql:
  assumes "\<And>e d v d'. q e d = Inr (v, d') \<Longrightarrow> frame_ok d d'"
  shows "preserves (\<lambda>_. frame_ok d0) (sql q)"
  by (rule preserves_sql) (use assms in \<open>auto intro: frame_trans\<close>)

lemma frame_exec_one:
  assumes "\<And>e d. frame_ok d (f e d)"
  shows "preserves (\<lambda>_. frame_ok d0) (exec_one err n f)"
  unfolding exec_one_def by (intro inv_intros frame_sql) (use assms in auto)

lemma frame_query_row [frame_intros]: "preserves (\<lambda>_. frame_ok d0) (query_row err q)"
  unfolding query_row_def by (intro inv_intros stable_db)

lemma frame_writes:
  "insert_credential c d = Inr d' \<Longrightarrow> frame_ok d d'"
  "insert_challenge h d = Inr d' \<Longrightarrow> frame_ok d d'"
  "insert_recovery r d = Inr d' \<Longrightarrow> frame_ok d d'"
  "upsert_install a v t d = Inr d' \<Longrightarrow> frame_ok d d'"
  "insert_auth_session s d = Inr d' \<Longrightarrow> frame_ok d d'"
  "insert_refresh x d = Inr d' \<Longrightarrow> frame_ok d d'"
  by (auto simp: auth_write_defs shared_of_def intro!: frame_sign_in)

lemma frame_updates [simp]:
  "frame_ok d (d\<lparr>credentials := a1\<rparr>)" "frame_ok d (d\<lparr>challenges := a2\<rparr>)"
  "frame_ok d (d\<lparr>recovery_codes := a3\<rparr>)" "frame_ok d (d\<lparr>installs := a4\<rparr>)"
  "frame_ok d (d\<lparr>auth_sessions := a5\<rparr>)" "frame_ok d (d\<lparr>refresh_tokens := a6\<rparr>)"
  "frame_ok d (revoke_sessions P re c d)"
  by (auto simp: shared_of_def revoke_sessions_def intro!: frame_sign_in)

lemma frame_update_devices:
  "(\<And>v. P v \<Longrightarrow> pd_id (f v) = pd_id v) \<Longrightarrow> frame_ok d (d\<lparr>push_devices := update_where P f (push_devices d)\<rparr>)"
  by (rule frame_same) (simp_all add: shared_of_def queue_frame_devices)

lemma frame_upsert_device:
  assumes "upsert_push_device i a n h ci e tp c d = Inr (rows, d')"
  shows "frame_ok d d'"
proof (rule frame_same)
  show "shared_of d' = shared_of d" "accounts d' = accounts d"
    using assms by (auto simp: upsert_push_device_def require_def shared_of_def split: if_splits)
  show "queue_frame d d'"
    using assms by (auto simp: upsert_push_device_def require_def queue_frame_def queue_ok_def map_update_where split: if_splits)
qed

lemma frame_insert_account:
  assumes "insert_account r d = Inr d'"
  shows "frame_ok d d'"
proof -
  have d': "d' = d\<lparr>accounts := accounts d @ [r]\<rparr>" and new: "\<not> account_exists d (ac_id r)"
    using assms by (auto simp: insert_account_def account_exists_def)
  then have "account_view d' i = account_view d i" if "account_exists d i" for i
    using that by (auto simp: account_view_def)
  moreover have "queue_frame d d'" unfolding d' by (rule queue_frame_same) simp_all
  ultimately show ?thesis by (simp add: frame_ok_def view_ok_def shared_of_def d')
qed

lemma frame_update_accounts:
  assumes "\<And>a. P a \<Longrightarrow> ac_id (f a) = ac_id a \<and> ac_display_name (f a) = ac_display_name a"
  shows "frame_ok d (d\<lparr>accounts := update_where P f (accounts d)\<rparr>)"
proof -
  have "map ac_display_name (filter (\<lambda>a. ac_id a = i) (update_where P f t))
      = map ac_display_name (filter (\<lambda>a. ac_id a = i) t)" for i t
    by (induction t) (use assms in auto)
  moreover have "queue_frame d (d\<lparr>accounts := t\<rparr>)" for t by (rule queue_frame_same) simp_all
  ultimately show ?thesis by (simp add: frame_ok_def view_ok_def shared_of_def account_view_def)
qed

lemma frame_cascade:
  assumes "\<not> account_referenced a d" and "a \<notin> pm_account ` set (members d)"
    and "a \<notin> iv_created_by ` set (invites d)" and "a \<notin> ik_account ` set (idempotency d)"
  shows "frame_ok d (cascade_account a d)"
proof -
  have id: "filter (\<lambda>r. k r \<noteq> a) t = t" if "a \<notin> k ` set t" for k :: "'r \<Rightarrow> uuid" and t
    using that by (auto simp: filter_id_conv)
  have "shared_of (cascade_account a d) = shared_of d"
    using assms by (simp add: shared_of_def cascade_account_def Let_def id)
  moreover have "account_view (cascade_account a d) i = account_view d i" if "account_used d i" for i
  proof -
    have "i \<noteq> a" using that assms by (auto simp: account_used_def account_referenced_def)
    then show ?thesis
      by (auto simp: account_view_def cascade_account_def Let_def intro!: arg_cong [where f = "map _"] filter_cong)
  qed
  moreover have "queue_frame d (cascade_account a d)"
    by (simp add: queue_frame_def queue_ok_def cascade_account_def Let_def distinct_map_filter)
  ultimately show ?thesis by (simp add: frame_ok_def view_ok_def)
qed

lemma frame_create_session [frame_intros]: "preserves (\<lambda>_. frame_ok d0) (create_session a c g)"
  unfolding create_session_def by (intro inv_intros frame_exec) (auto dest: frame_writes)

lemma frame_insert_codes [frame_intros]: "preserves (\<lambda>_. frame_ok d0) (insert_recovery_codes a hs)"
  unfolding insert_recovery_codes_def by (intro inv_intros frame_exec) (auto dest: frame_writes)

section \<open>Operations behind sign-in\<close>

text \<open>
  What every such operation does, whether it fails or not: the clock moves on, the sign-in
  invariant and history are kept, the shared tables stay as they are.
\<close>

definition sign_in_op :: "(db, 'a) tx \<Rightarrow> bool" where
  "sign_in_op m \<longleftrightarrow> advances m \<and> (\<forall>d0. preserves (\<lambda>_. auth_ok d0) m) \<and>
     (\<forall>d0. preserves (\<lambda>_. frame_ok d0) m)"

lemma sign_in_opI:
  "advances m \<Longrightarrow> (\<And>d0. preserves (\<lambda>_. auth_ok d0) m) \<Longrightarrow> (\<And>d0. preserves (\<lambda>_. frame_ok d0) m) \<Longrightarrow>
   sign_in_op m"
  by (simp add: sign_in_op_def)

lemma sign_in_transaction: "sign_in_op body \<Longrightarrow> sign_in_op (transaction body)"
  by (auto simp: sign_in_op_def intro: adv_intros inv_intros)

lemma advances_exec_one [adv_intros]: "advances (exec_one err n f)"
  unfolding exec_one_def by (intro adv_intros)

lemma advances_query_row [adv_intros]: "advances (query_row err q)"
  unfolding query_row_def by (intro adv_intros)

lemma advances_create_session [adv_intros]: "advances (create_session a c g)"
  unfolding create_session_def by (intro adv_intros)

lemma advances_insert_codes [adv_intros]: "advances (insert_recovery_codes a hs)"
  unfolding insert_recovery_codes_def by (intro adv_intros)

lemma advances_wrap_error [adv_intros]: "advances m \<Longrightarrow> advances (wrap_error msg m)"
  by (auto simp: advances_def wrap_error_def split: prod.split sum.split)
     (metis fst_conv snd_conv)+

lemma op_create_pending: "sign_in_op (create_pending_account a h n r)"
proof (rule sign_in_opI)
  show "advances (create_pending_account a h n r)" unfolding create_pending_account_def by (intro adv_intros)
  show "preserves (\<lambda>_. frame_ok d0) (create_pending_account a h n r)" for d0
    unfolding create_pending_account_def Let_def
    by (intro auth_wrap_error frame_sql) (auto split: sum.splits dest: frame_insert_account)
qed (rule auth_create_pending)

lemma op_create_challenge: "sign_in_op (create_challenge i a p s e)"
proof (rule sign_in_opI)
  show "advances (create_challenge i a p s e)" unfolding create_challenge_def by (intro adv_intros)
  show "preserves (\<lambda>_. frame_ok d0) (create_challenge i a p s e)" for d0
    unfolding create_challenge_def by (intro frame_exec) (auto dest: frame_writes)
qed (rule auth_create_challenge)

lemma op_consume: "sign_in_op (consume_challenge i p)"
proof (rule sign_in_opI)
  show "advances (consume_challenge i p)" unfolding consume_challenge_def by (intro adv_intros)
  show "preserves (\<lambda>_. frame_ok d0) (consume_challenge i p)" for d0
    unfolding consume_challenge_def by (intro inv_intros frame_sql) auto
qed (rule auth_consume)

lemma op_activate: "sign_in_op (activate_account a c j l hs g)"
  unfolding activate_account_def
proof (intro sign_in_transaction sign_in_opI)
  show "advances (activate_body a c j l hs g)" unfolding activate_body_def by (intro adv_intros)
  show "preserves (\<lambda>_. frame_ok d0) (activate_body a c j l hs g)" for d0
    unfolding activate_body_def
    by (intro inv_intros frame_intros frame_exec frame_exec_one) (auto intro: frame_update_accounts dest: frame_writes)
qed (rule auth_activate)

lemma op_login: "sign_in_op (create_login_session a c j g)"
  unfolding create_login_session_def
proof (intro sign_in_transaction sign_in_opI)
  show "advances (login_body a c j g)" unfolding login_body_def by (intro adv_intros)
  show "preserves (\<lambda>_. frame_ok d0) (login_body a c j g)" for d0
    unfolding login_body_def by (intro inv_intros frame_intros frame_exec_one) simp
qed (rule auth_login)

lemma op_add_credential: "sign_in_op (add_credential a c j l)"
proof (rule sign_in_opI)
  show "advances (add_credential a c j l)" unfolding add_credential_def by (intro adv_intros)
  show "preserves (\<lambda>_. frame_ok d0) (add_credential a c j l)" for d0
    unfolding add_credential_def by (intro frame_exec) (auto dest: frame_writes)
qed (rule auth_add_credential)

lemma op_use_recovery: "sign_in_op (use_recovery_code a n g)"
  unfolding use_recovery_code_def
proof (intro sign_in_transaction sign_in_opI)
  show "advances (use_recovery_body a n g)" unfolding use_recovery_body_def by (intro adv_intros)
  show "preserves (\<lambda>_. frame_ok d0) (use_recovery_body a n g)" for d0
    unfolding use_recovery_body_def by (intro inv_intros frame_intros frame_exec_one) simp
qed (rule auth_use_recovery)

lemma op_replace_codes: "sign_in_op (replace_recovery_codes a hs)"
  unfolding replace_recovery_codes_def
proof (intro sign_in_transaction sign_in_opI)
  let ?b = "bind_tx (exec (\<lambda>_ d. Inr (d\<lparr>recovery_codes := filter (\<lambda>r. rc_account r \<noteq> a) (recovery_codes d)\<rparr>)))
    (\<lambda>_. bind_tx (insert_recovery_codes a hs) (\<lambda>_. commit ()))"
  show "advances ?b" by (intro adv_intros)
  show "preserves (\<lambda>_. auth_ok d0) ?b" for d0
    by (intro inv_intros auth_intros auth_exec) (auto simp: auth_delete_codes)
  show "preserves (\<lambda>_. frame_ok d0) ?b" for d0
    by (intro inv_intros frame_intros frame_exec) auto
qed

lemma op_revoke_session: "sign_in_op (revoke_session a i r)"
proof (rule sign_in_opI)
  show "advances (revoke_session a i r)" unfolding revoke_session_def by (intro adv_intros)
  show "preserves (\<lambda>_. frame_ok d0) (revoke_session a i r)" for d0
    unfolding revoke_session_def by (intro frame_exec_one) simp
qed (rule auth_revoke_session)

lemma op_revoke_credential: "sign_in_op (revoke_credential a c)"
  unfolding revoke_credential_def
proof (intro sign_in_transaction sign_in_opI, intro adv_intros)
  let ?b = "bind_tx (exec_one ErrNotFound (\<lambda>_ d. count_where (live_credential a c) (credentials d))
       (\<lambda>e d. d\<lparr>credentials := update_where (live_credential a c)
         (\<lambda>c. c\<lparr>cr_revoked_at := Some (e_clock e)\<rparr>) (credentials d)\<rparr>)) (\<lambda>_.
     bind_tx (exec (\<lambda>e d. Inr (revoke_sessions (\<lambda>s. as_account s = a \<and> as_credential s = Some c)
         ''passkey_revoked'' (e_clock e) d))) (\<lambda>_. commit ()))"
  show "preserves (\<lambda>_. auth_ok d0) ?b" for d0
    by (intro inv_intros auth_exec_one auth_exec auth_update_credentials)
       (auto simp: credential_step_def auth_revoke_sessions)
  show "preserves (\<lambda>_. frame_ok d0) ?b" for d0
    by (intro inv_intros frame_exec_one frame_exec) auto
qed

lemma op_revoke_installation: "sign_in_op (revoke_installation a i)"
  unfolding revoke_installation_def
proof (intro sign_in_transaction sign_in_opI, intro adv_intros)
  let ?b = "bind_tx (exec_one ErrNotFound (\<lambda>_ d. count_where (live_install a i) (installs d))
       (\<lambda>e d. d\<lparr>installs := update_where (live_install a i)
         (\<lambda>v. v\<lparr>di_revoked_at := Some (e_clock e)\<rparr>) (installs d)\<rparr>)) (\<lambda>_.
     bind_tx (exec (\<lambda>e d. Inr (revoke_sessions (\<lambda>s. as_account s = a \<and> as_install s = i)
         ''installation_revoked'' (e_clock e) d))) (\<lambda>_.
     bind_tx (exec (\<lambda>e d. Inr (d\<lparr>push_devices := update_where
         (\<lambda>v. pd_account v = a \<and> pd_install v = i)
         (\<lambda>v. v\<lparr>pd_revoked_at := (case pd_revoked_at v of None \<Rightarrow> Some (e_clock e) | t \<Rightarrow> t)\<rparr>)
         (push_devices d)\<rparr>))) (\<lambda>_. commit ())))"
  show "preserves (\<lambda>_. auth_ok d0) ?b" for d0
    by (intro inv_intros auth_exec_one auth_exec auth_update_installs)
       (auto simp: install_key_def auth_revoke_sessions auth_push)
  show "preserves (\<lambda>_. frame_ok d0) ?b" for d0
    by (intro inv_intros frame_exec_one frame_exec) (auto intro!: frame_update_devices)
qed

lemma frame_rotate_body: "preserves (\<lambda>_. frame_ok d0) (rotate_body i h n nh ne)"
  unfolding rotate_body_def revoke_family_def exchange_token_def
  by (intro inv_intros frame_intros frame_exec frame_exec_one stable_db) (auto dest: frame_writes)

lemma advances_rotate_body [adv_intros]: "advances (rotate_body i h n nh ne)"
  unfolding rotate_body_def revoke_family_def exchange_token_def by (intro adv_intros)

lemma op_rotate: "sign_in_op (rotate_refresh i h n nh ne)"
proof (rule sign_in_opI)
  show "advances (rotate_refresh i h n nh ne)" unfolding rotate_refresh_def by (intro adv_intros)
  show "preserves (\<lambda>_. frame_ok d0) (rotate_refresh i h n nh ne)" for d0
    unfolding rotate_refresh_def by (intro inv_intros frame_rotate_body stable_db adv_intros)
  have "triple (\<lambda>_. auth_ok d0) (rotate_body i h n nh ne)
      (\<lambda>out w d. case out of Commit v \<Rightarrow> auth_ok d0 d | Abandon v \<Rightarrow> True)" for d0
    by (rule tripleI) (auto dest: auth_rotate_body intro: auth_mono_trans simp: auth_ok_def split: outcome.split)
  then have t: "preserves (\<lambda>_. auth_ok d0) (transaction (rotate_body i h n nh ne))" for d0
    by (intro preserves_transaction adv_intros stable_db)
  show "preserves (\<lambda>_. auth_ok d0) (rotate_refresh i h n nh ne)" for d0
    unfolding rotate_refresh_def by (rule preserves_bind [OF t]) (intro inv_intros)
qed

section \<open>Notifications\<close>

lemma auth_push_ok: "auth_ok d0 d \<Longrightarrow> auth_ok d0 (d\<lparr>push_devices := t\<rparr>)"
  using auth_push [of d t] by (auto simp: auth_ok_def intro: auth_mono_trans)

lemma op_register_push: "sign_in_op (register_push_device h a i t c e tp)"
proof (rule sign_in_opI)
  show "preserves (\<lambda>_. auth_ok d0) (register_push_device h a i t c e tp)" for d0
    unfolding register_push_device_def
    by (intro inv_intros stable_db preserves_sql)
       (auto simp: upsert_push_device_def require_def auth_push_ok split: if_splits)
  show "preserves (\<lambda>_. frame_ok d0) (register_push_device h a i t c e tp)" for d0
    unfolding register_push_device_def
    by (intro inv_intros stable_db frame_sql) (auto dest: frame_upsert_device)
qed (rule advances_queue)

lemma op_revoke_push: "sign_in_op (revoke_push_device a i)"
proof (rule sign_in_opI)
  show "preserves (\<lambda>_. auth_ok d0) (revoke_push_device a i)" for d0
    unfolding revoke_push_device_def by (intro stable_db preserves_exec) (auto simp: auth_push_ok)
  show "preserves (\<lambda>_. frame_ok d0) (revoke_push_device a i)" for d0
    unfolding revoke_push_device_def
    by (intro frame_exec) (auto simp: revoke_device_row_def intro!: frame_update_devices)
qed (rule advances_queue)

text \<open>The worker touches nothing but the queue.\<close>

definition worker_op :: "(db, 'a) tx \<Rightarrow> bool" where
  "worker_op m \<longleftrightarrow> advances m \<and> (\<forall>d0. preserves (\<lambda>_. only_queue d0) m) \<and> preserves (\<lambda>_. queue_ok) m"

lemma op_claim: "worker_op (claim_push_jobs n l)"
  by (simp only: worker_op_def worker_frame only_queue_store advances_queue simp_thms)

lemma op_settle: "worker_op (settle store_queue env job answer)"
  by (simp only: worker_op_def worker_frame simp_thms)

section \<open>The whole store\<close>

text \<open>
  A pending account is deleted only by the registration that has just created it, so nothing
  but registration refers to it.
\<close>

definition unused_account :: "uuid \<Rightarrow> db \<Rightarrow> bool" where
  "unused_account a d \<longleftrightarrow> a \<notin> pm_account ` set (members d) \<and> a \<notin> iv_created_by ` set (invites d) \<and>
     a \<notin> ik_account ` set (idempotency d)"

inductive requested :: "moment \<Rightarrow> moment \<Rightarrow> bool" where
  shared: "served s t \<Longrightarrow> requested s t"
| create_pending: "requested s (after_op (create_pending_account a h n r) s)"
| delete_pending: "unused_account a (snd s) \<Longrightarrow> requested s (after_op (delete_pending_account a) s)"
| create_challenge: "requested s (after_op (create_challenge i ao p sd e) s)"
| consume_challenge: "requested s (after_op (consume_challenge i p) s)"
| activate: "requested s (after_op (activate_account a c j l hs g) s)"
| login: "requested s (after_op (create_login_session a c j g) s)"
| add_credential: "requested s (after_op (add_credential a c j l) s)"
| use_recovery: "requested s (after_op (use_recovery_code a n g) s)"
| replace_codes: "requested s (after_op (replace_recovery_codes a hs) s)"
| rotate: "requested s (after_op (rotate_refresh i h n nh ne) s)"
| revoke_credential: "requested s (after_op (revoke_credential a c) s)"
| revoke_session: "requested s (after_op (revoke_session a i re) s)"
| revoke_installation: "requested s (after_op (revoke_installation a i) s)"
| register_push: "requested s (after_op (register_push_device h a i t c e tp) s)"
| revoke_push: "requested s (after_op (revoke_push_device a i) s)"

text \<open>
  The worker claims jobs and settles them one by one, after any answer; requests are served in
  between, and any number of workers may run, stop or hold jobs for too long.
\<close>

inductive along :: "moment \<Rightarrow> moment \<Rightarrow> bool" where
  request: "requested s t \<Longrightarrow> along s t"
| claim: "along s (after_op (claim_push_jobs n l) s)"
| settling: "along s (after_op (settle store_queue env job answer) s)"

lemma sign_in_after:
  assumes "sign_in_op m" and "auth_inv (snd s)"
  shows "advance (fst s) (fst (after_op m s))" and "auth_ok (snd s) (snd (after_op m s))"
    and "frame_ok (snd s) (snd (after_op m s))"
proof -
  obtain r w d where run: "m (fst s) (snd s) = (r, w, d)" by (cases "m (fst s) (snd s)") auto
  have p: "preserves (\<lambda>_. auth_ok (snd s)) m" "preserves (\<lambda>_. frame_ok (snd s)) m" "advances m"
    using assms(1) by (simp_all add: sign_in_op_def)
  have "auth_ok (snd s) (snd s)" using assms(2) by (simp add: auth_ok_def)
  then show "auth_ok (snd s) (snd (after_op m s))"
    using preservesD [OF p(1) _ run] by (simp add: after_op_def run)
  show "frame_ok (snd s) (snd (after_op m s))"
    using preservesD [OF p(2) frame_refl run] by (simp add: after_op_def run)
  show "advance (fst s) (fst (after_op m s))"
    using advancesD [OF p(3) run] by (simp add: after_op_def run)
qed

lemma delete_pending_after:
  assumes "unused_account a (snd s)" and "auth_inv (snd s)"
  shows "advance (fst s) (fst (after_op (delete_pending_account a) s))"
    and "auth_ok (snd s) (snd (after_op (delete_pending_account a) s))"
    and "frame_ok (snd s) (snd (after_op (delete_pending_account a) s))"
proof -
  obtain r w d where run: "delete_pending_account a (fst s) (snd s) = (r, w, d)"
    by (cases "delete_pending_account a (fst s) (snd s)") auto
  have "advances (delete_pending_account a)" unfolding delete_pending_account_def by (intro adv_intros)
  then show "advance (fst s) (fst (after_op (delete_pending_account a) s))"
    using run by (auto simp: after_op_def dest: advancesD)
  have "auth_ok (snd s) (snd s)" using assms(2) by (simp add: auth_ok_def)
  then show "auth_ok (snd s) (snd (after_op (delete_pending_account a) s))"
    using run auth_delete_pending [of "snd s" a]
    by (auto simp: after_op_def dest: preservesD [where I = "\<lambda>_. auth_ok (snd s)"])
  show "frame_ok (snd s) (snd (after_op (delete_pending_account a) s))"
    using run assms(1) frame_cascade [of a "snd s"] unfolding delete_pending_account_def
    by (auto simp: after_op_def exec_def sql_def unused_account_def require_def split: option.splits if_splits)
qed

lemma requested_cases:
  assumes "requested s t" and "auth_inv (snd s)"
  shows "served s t \<or> advance (fst s) (fst t) \<and> auth_ok (snd s) (snd t) \<and> frame_ok (snd s) (snd t)"
  using assms
proof (induction rule: requested.induct)
  case (delete_pending a s)
  then show ?case using delete_pending_after by blast
qed (simp, (rule disjI2, intro conjI sign_in_after
    op_create_pending op_create_challenge op_consume op_activate op_login op_add_credential
    op_use_recovery op_replace_codes op_rotate op_revoke_session op_revoke_credential
    op_revoke_installation op_register_push op_revoke_push; assumption)+)

lemma worker_op_after:
  assumes "worker_op m" and "auth_inv (snd s)" and "queue_ok (snd s)"
  shows "advance (fst s) (fst (after_op m s))" and "auth_ok (snd s) (snd (after_op m s))"
    and "only_queue (snd s) (snd (after_op m s))" and "queue_ok (snd (after_op m s))"
proof -
  obtain r w d where run: "m (fst s) (snd s) = (r, w, d)" by (cases "m (fst s) (snd s)" rule: prod_cases3)
  have after: "after_op m s = (w, d)" by (simp add: after_op_def run)
  have p: "advances m" "preserves (\<lambda>_. only_queue (snd s)) m" "preserves (\<lambda>_. queue_ok) m"
    using assms(1) by (simp_all add: worker_op_def)
  show "advance (fst s) (fst (after_op m s))" using advancesD [OF p(1) run] by (simp add: after)
  show "queue_ok (snd (after_op m s))" using preservesD [OF p(3) assms(3) run] by (simp add: after)
  have o: "only_queue (snd s) d" using preservesD [OF p(2) only_queue_refl run] .
  then show "only_queue (snd s) (snd (after_op m s))" by (simp add: after)
  obtain js vs where d: "d = (snd s)\<lparr>jobs := js, push_devices := vs\<rparr>" using o unfolding only_queue_def by blast
  show "auth_ok (snd s) (snd (after_op m s))"
    using auth_queue [OF assms(2), of vs js] unfolding after d auth_ok_def by simp
qed

lemma only_queue_view: "only_queue d d' \<Longrightarrow> view_ok d d'"
  by (auto simp: only_queue_def view_ok_def shared_of_def account_view_def)

lemma along_cases:
  assumes "along s t" and "auth_inv (snd s)" and "queue_ok (snd s)"
  shows "served s t \<or> advance (fst s) (fst t) \<and> auth_ok (snd s) (snd t) \<and> view_ok (snd s) (snd t) \<and>
    queue_ok (snd t)"
  using assms
proof (induction rule: along.induct)
  case (request s t)
  then show ?case using requested_cases [of s t] by (auto simp: frame_ok_def queue_frame_def)
next
  case (claim s n l)
  note a = worker_op_after [OF op_claim [of n l] claim]
  show ?case using a only_queue_view [OF a(3)] by blast
next
  case (settling s env job answer)
  note a = worker_op_after [OF op_settle [of env job answer] settling]
  show ?case using a only_queue_view [OF a(3)] by blast
qed

section \<open>Invariants of the whole store\<close>

definition sign_in_of where
  "sign_in_of d = (accounts d, credentials d, challenges d, recovery_codes d, installs d,
     auth_sessions d, refresh_tokens d)"

lemma pair_step_auth: "pair_step s t \<Longrightarrow> sign_in_of (snd t) = sign_in_of (snd s)"
  by (induction rule: pair_step.induct) (auto simp: sign_in_of_def add_event_def put_session_def)

lemma pair_run_auth: "pair_run s t \<Longrightarrow> sign_in_of (snd t) = sign_in_of (snd s)"
  by (induction rule: rtranclp_induct) (auto dest: pair_step_auth)

lemma shared_auth_ok:
  assumes "pair_run s t" and "auth_inv (snd s)"
  shows "auth_ok (snd s) (snd t)"
proof -
  have same: "accounts (snd t) = accounts (snd s)" "credentials (snd t) = credentials (snd s)"
    "challenges (snd t) = challenges (snd s)" "recovery_codes (snd t) = recovery_codes (snd s)"
    "installs (snd t) = installs (snd s)" "auth_sessions (snd t) = auth_sessions (snd s)"
    "refresh_tokens (snd t) = refresh_tokens (snd s)"
    using pair_run_auth [OF assms(1)] by (simp_all add: sign_in_of_def)
  have act: "active_account (snd t) = active_account (snd s)" using same(1) by (rule active_account_cong)
  have "auth_mono (snd s) (snd t)"
    unfolding auth_mono_def held_sessions_def held_tokens_def held_credentials_def held_challenges_def
    by (simp add: same act kept_refl cong: option.case_cong)
  moreover have "auth_inv (snd t)" using assms(2) by (simp add: auth_inv_def same)
  ultimately show ?thesis by (simp add: auth_ok_def)
qed

lemma queue_frame_step: "pair_step s t \<Longrightarrow> queue_frame (snd s) (snd t)"
proof (induction rule: pair_step.induct)
  case (queue w w' d js)
  then show ?case using queue_frame_append by simp
qed (simp_all add: queue_frame_same add_event_def put_session_def)

lemma queue_frame_run: "pair_run s t \<Longrightarrow> queue_frame (snd s) (snd t)"
  by (induction rule: rtranclp_induct) (auto dest: queue_frame_step queue_frame_trans)

text \<open>
  The authors of notes, invitations and keys are registered, so that sign-in cannot change what a
  note shows, and an account that is new has none of them.
\<close>

definition authors_known :: "db \<Rightarrow> bool" where
  "authors_known d \<longleftrightarrow> (\<forall>n \<in> set (session_notes d). account_exists d (nt_account n)) \<and>
     (\<forall>v \<in> set (invites d). account_exists d (iv_created_by v)) \<and>
     (\<forall>k \<in> set (idempotency d). account_exists d (ik_account k))"

lemma authors_known_step: "pair_step s t \<Longrightarrow> authors_known (snd s) \<Longrightarrow> authors_known (snd t)"
  by (induction rule: pair_step.induct)
     (auto simp: authors_known_def account_exists_def add_event_def put_session_def set_update_where)

lemma authors_known_run: "pair_run s t \<Longrightarrow> authors_known (snd s) \<Longrightarrow> authors_known (snd t)"
  by (erule pair_run_inv [where I = "\<lambda>s. authors_known (snd s)"]) (auto intro: authors_known_step)

lemma concat_map_view:
  assumes "\<And>m. m \<in> set ms \<Longrightarrow> account_view d' (k m) = account_view d (k m)"
  shows "concat (map (\<lambda>m. map (\<lambda>a. h m (ac_display_name a)) (filter (\<lambda>a. ac_id a = k m) (accounts d'))) ms)
    = concat (map (\<lambda>m. map (\<lambda>a. h m (ac_display_name a)) (filter (\<lambda>a. ac_id a = k m) (accounts d))) ms)"
proof -
  have named: "map (\<lambda>a. h m (ac_display_name a)) (filter (\<lambda>a. ac_id a = k m) (accounts e))
      = map (h m) (account_view e (k m))" for m e
    by (simp add: account_view_def comp_def)
  show ?thesis unfolding named
    by (intro arg_cong [where f = concat] map_cong refl) (simp only: assms)
qed

lemma good_frame:
  assumes g: "good (w, d)" and au: "authors_known d" and f: "view_ok d d'"
    and adv: "advance w w'" and ids: "distinct (map ac_id (accounts d'))"
  shows "good (w', d')" and "authors_known d'"
proof -
  have same: "pairs d' = pairs d" "members d' = members d" "invites d' = invites d" "sessions d' = sessions d"
    "session_members d' = session_members d" "session_notes d' = session_notes d"
    "reactions d' = reactions d" "idempotency d' = idempotency d" "events d' = events d"
    using f by (simp_all add: frame_ok_def view_ok_def shared_of_def)
  have view: "account_view d' i = account_view d i" if "account_used d i" "account_exists d i" for i
    using f that by (simp add: frame_ok_def view_ok_def)
  have ex: "account_exists d' i" if "account_used d i" "account_exists d i" for i
    using view [OF that] that(2) by (simp add: account_exists_view)
  note inv = goodD [OF g]
  have mem: "account_exists d (pm_account m)" if "m \<in> set (members d)" for m
    using inv(3) that by (simp add: pairs_inv_def)
  have sm: "account_exists d (sm_account m)" if "m \<in> set (session_members d)" for m
    using inv(4) that by (simp add: presence_inv_def)
  have nt: "account_exists d (nt_account n)" if "n \<in> set (session_notes d)" for n
    using au that by (simp add: authors_known_def)
  have exs: "pair_exists d' = pair_exists d" "session_exists d' = session_exists d"
    "in_session d' = in_session d" "\<And>p a. pair_member p a d' = pair_member p a d"
    by (simp_all add: fun_eq_iff pair_exists_def session_exists_def in_session_def pair_member_def same)
  have parts: "participants_of i d' = participants_of i d" for i
    unfolding participants_of_def same
    by (rule concat_map_view [where h = "\<lambda>m n. \<lparr>pt_account = sm_account m, pt_display_name = n,
        pt_joined_at = sm_joined_at m\<rparr>"]) (auto intro!: view sm simp: account_used_def)
  have authored: "notes_of i d' = notes_of i d" for i
    unfolding notes_of_def same
    by (rule concat_map_view [where h = "\<lambda>n x. \<lparr>sn_id = nt_id n, sn_account = nt_account n,
        sn_display_name = x, sn_body = nt_body n, sn_created_at = nt_created_at n\<rparr>"])
       (auto intro!: view nt simp: account_used_def)
  have views: "session_view d' r = session_view d r" for r
    by (simp add: session_view_def parts authored)
  have "sessions_inv d'" using inv(2) by (simp add: sessions_inv_def same exs)
  then have "sound (w', d')" using inv(11) adv by (simp add: sound_def clock_ok_advance)
  moreover have "pairs_inv d'" using inv(3) ex mem
    by (simp add: pairs_inv_def same exs account_used_def)
  moreover have "presence_inv d'" using inv(4) ex sm
    by (simp add: presence_inv_def presence_ok_def same exs account_used_def)
  moreover have "log_inv w' d'" using inv(5) adv
    by (auto simp: log_inv_def log_ok_def same exs advance_def)
  moreover have "keys_inv d'" using inv(6) by (simp add: keys_inv_def keys_unique_def same)
  moreover have "notes_inv d'" using inv(7) by (simp add: notes_inv_def same exs)
  moreover have "cheers_spaced d'" using inv(8) by (simp add: cheers_spaced_def same)
  moreover have "invites_inv d'" using inv(9) by (simp add: invites_inv_def same)
  moreover have "replay_inv w' d'"
  proof -
    have r: "notes_past w d" "replay_ok d" using inv(10) by (simp_all add: replay_inv_def)
    have "notes_past w' d'" using notes_past_advance [OF r(1) adv] by (simp add: notes_past_def same)
    moreover have "replay_ok d'" using r(2) by (simp add: replay_ok_def server_sessions_def same views)
    ultimately show ?thesis using ids by (simp add: replay_inv_def accounts_inv_def)
  qed
  ultimately show "good (w', d')" by (simp add: good_def)
  have "account_exists d (iv_created_by v)" if "v \<in> set (invites d)" for v
    using au that by (simp add: authors_known_def)
  moreover have "account_exists d (ik_account k)" if "k \<in> set (idempotency d)" for k
    using au that by (simp add: authors_known_def)
  ultimately show "authors_known d'" using nt ex by (auto simp: authors_known_def same account_used_def)
qed

section \<open>Reachable moments\<close>

text \<open>A store in which accounts may be registered and nothing is shared yet.\<close>

definition initial :: "moment \<Rightarrow> bool" where
  "initial s \<longleftrightarrow> clock_ok (fst s) \<and> auth_inv (snd s) \<and> pairs (snd s) = [] \<and>
     members (snd s) = [] \<and> invites (snd s) = [] \<and> sessions (snd s) = [] \<and>
     session_members (snd s) = [] \<and> session_notes (snd s) = [] \<and> reactions (snd s) = [] \<and>
     idempotency (snd s) = [] \<and> events (snd s) = [] \<and> queue_ok (snd s)"

definition reachable :: "moment \<Rightarrow> bool" where
  "reachable s \<longleftrightarrow> (\<exists>s0. initial s0 \<and> along\<^sup>*\<^sup>* s0 s)"

definition sane :: "moment \<Rightarrow> bool" where
  "sane s \<longleftrightarrow> good s \<and> auth_inv (snd s) \<and> authors_known (snd s) \<and> queue_ok (snd s)"

lemma reachable_initial: "initial s \<Longrightarrow> reachable s"
  unfolding reachable_def by blast

lemma reachable_along: "reachable s \<Longrightarrow> along s t \<Longrightarrow> reachable t"
  unfolding reachable_def by (meson rtranclp.rtrancl_into_rtrancl)

lemma reachable_step: "reachable s \<Longrightarrow> served s t \<Longrightarrow> reachable t"
  using reachable_along along.request requested.shared by blast

lemma initial_sane: "initial s \<Longrightarrow> sane s"
  by (auto simp: initial_def sane_def good_def sound_def sessions_inv_def sessions_unique_def pairs_inv_def
      presence_inv_def log_inv_def log_ok_def keys_inv_def keys_unique_def notes_inv_def
      cheers_spaced_def invites_inv_def replay_inv_def replay_ok_def replay_def server_sessions_def
      notes_past_def clock_ok_def accounts_inv_def auth_inv_def authors_known_def)

lemma along_step_sane:
  assumes "along s t" and "sane s"
  shows "sane t" and "auth_mono (snd s) (snd t)" and "advance (fst s) (fst t)"
proof -
  have s: "good s" "auth_inv (snd s)" "authors_known (snd s)" "queue_ok (snd s)"
    using assms(2) by (simp_all add: sane_def)
  have "sane t \<and> auth_mono (snd s) (snd t) \<and> advance (fst s) (fst t)"
    using along_cases [OF assms(1) s(2,4)]
  proof (elim disjE conjE)
    assume sv: "served s t"
    then have run: "pair_run s t" using served_refines goodD(1) [OF s(1)] by blast
    then have "auth_ok (snd s) (snd t)" by (rule shared_auth_ok) (rule s)
    then show ?thesis
      using good_served [OF sv s(1)] authors_known_run [OF run s(3)] queue_frame_run [OF run] s(4) pair_run_advance [OF run]
      by (simp add: sane_def auth_ok_def queue_frame_def)
  next
    assume adv: "advance (fst s) (fst t)" and ok: "auth_ok (snd s) (snd t)" and f: "view_ok (snd s) (snd t)"
      and queue: "queue_ok (snd t)"
    have inv: "auth_inv (snd t)" "auth_mono (snd s) (snd t)" using ok by (simp_all add: auth_ok_def)
    have "good t" "authors_known (snd t)"
      using good_frame [of "fst s" "snd s" "snd t" "fst t"] s f adv inv(1) by (simp_all add: auth_inv_def)
    then show ?thesis using inv adv queue by (simp add: sane_def)
  qed
  then show "sane t" "auth_mono (snd s) (snd t)" "advance (fst s) (fst t)" by simp_all
qed

lemma along_run_sane:
  assumes "along\<^sup>*\<^sup>* s t" and "sane s"
  shows "sane t \<and> auth_mono (snd s) (snd t) \<and> advance (fst s) (fst t)"
  using assms
proof (induction rule: rtranclp_induct)
  case (step t u)
  then have t: "sane t" "auth_mono (snd s) (snd t)" "advance (fst s) (fst t)" by auto
  with along_step_sane [OF step(2)] show ?case by (blast intro: auth_mono_trans advance_trans)
qed simp

lemma reachable_sane: "reachable s \<Longrightarrow> sane s"
  unfolding reachable_def using along_run_sane initial_sane by blast

lemma reachable_good: "reachable s \<Longrightarrow> good s"
  using reachable_sane by (simp add: sane_def)

lemma initial_good: "initial s \<Longrightarrow> good s"
  using initial_sane by (simp add: sane_def)

lemma reachable_run: "reachable s \<Longrightarrow> served\<^sup>*\<^sup>* s t \<Longrightarrow> reachable t"
  by (rotate_tac, induction rule: rtranclp_induct) (auto intro: reachable_step)

end
