(* ===== verification/Commands.thy ===== *)
theory Commands
  imports PairRefinement
begin

text \<open>
  The five writing commands provide the contract \<open>idempotent_command\<close>: each body leaves the key
  table alone and its response decodes to what was stored. The interpretations give each
  command the lemmas of the contract: atomic failure, at most one application of a key, and
  the same answer to a retry.
\<close>

section \<open>Bodies leave the key table alone\<close>

definition keys_are :: "idempotency_row list \<Rightarrow> world \<Rightarrow> db \<Rightarrow> bool" where
  "keys_are t w d \<longleftrightarrow> idempotency d = t"

named_theorems keys_intros \<open>programs that leave the key table alone\<close>

lemma stable_keys [keys_intros, simp]: "stable (keys_are t)"
  by (simp add: stable_def keys_are_def)

lemma keys_exec:
  "(\<And>e d d'. q e d = Inr d' \<Longrightarrow> idempotency d' = idempotency d) \<Longrightarrow> preserves (keys_are t) (exec q)"
  by (rule preserves_exec) (auto simp: keys_are_def)

lemma keys_sql:
  "(\<And>e d v d'. q e d = Inr (v, d') \<Longrightarrow> idempotency d' = idempotency d) \<Longrightarrow>
   preserves (keys_are t) (sql q)"
  by (rule preserves_sql) (auto simp: keys_are_def)

lemma keys_append [keys_intros]: "preserves (keys_are t) (append_pair_event p ty en ac pl)"
  unfolding append_pair_event_def
  by (intro inv_intros keys_exec stable_keys) (auto simp: insert_event_def)

lemma keys_read_session [keys_intros]: "preserves (keys_are t) (read_session i)"
  unfolding read_session_def by (intro inv_intros stable_keys)

lemma keys_read_for_update [keys_intros]: "preserves (keys_are t) (read_session_for_update i p)"
  unfolding read_session_for_update_def by (intro inv_intros keys_intros)

lemma keys_require_member [keys_intros]: "preserves (keys_are t) (require_pair_member p a)"
  unfolding require_pair_member_def by (intro inv_intros stable_keys)

lemma keys_enqueue [keys_intros]:
  "preserves (keys_are t) (enqueue_partner_notification p a c k pl)"
  unfolding enqueue_partner_notification_def by (rule keys_exec) (auto simp: insert_jobs_def)

lemma keys_update [keys_intros]: "preserves (keys_are t) (exec (\<lambda>e. update_sessions P (f e)))"
  by (rule keys_exec) (auto simp: update_sessions_def write_sessions_def)

lemma keys_insert_session [keys_intros]: "preserves (keys_are t) (exec (\<lambda>e. insert_session (f e)))"
  by (rule keys_exec) (auto simp: insert_session_def write_sessions_def)

lemma keys_insert_member [keys_intros]: "preserves (keys_are t) (exec (\<lambda>_. insert_session_member m))"
  by (rule keys_exec) (auto simp: insert_session_member_def)

lemma keys_resume [keys_intros]: "preserves (keys_are t) (exec (\<lambda>_. resume_sessions i n now))"
  by (rule keys_exec) (auto simp: resume_sessions_def update_sessions_def write_sessions_def)

lemma keys_complete_elapsed [keys_intros]: "preserves (keys_are t) (complete_elapsed_session p)"
  unfolding complete_elapsed_session_def expire_session_def elapse_session_def
  by (intro inv_intros keys_intros)

lemma keys_apply_action [keys_intros]: "preserves (keys_are t) (apply_action idn cur i a n q now)"
  unfolding apply_action_def by (cases a) (auto intro!: inv_intros keys_intros)

lemma keys_bodies [keys_intros]:
  "preserves (keys_are t) (start_body idn p i)"
  "preserves (keys_are t) (import_body idn p i s e)"
  "preserves (keys_are t) (transition_body idn p i v a)"
  "preserves (keys_are t) (note_body idn p i b)"
  "preserves (keys_are t) (cheer_body idn p i)"
  unfolding start_body_def import_body_def transition_body_def note_body_def cheer_body_def
  by (intro inv_intros keys_intros keys_sql; auto simp: insert_note_def insert_reaction_def
      split: sum.splits)+

lemma keys_are_eq: "keys_are t = (\<lambda>_ d. idempotency d = t)"
  by (simp add: fun_eq_iff keys_are_def)

lemmas body_frames = keys_bodies [unfolded keys_are_eq]

section \<open>The commands keep the contract\<close>

interpretation start_cmd: idempotent_command "id_account idn" key "''session.start''"
    session_of RSession "start_body idn p i" for idn key p i
  by unfold_locales (simp_all add: advances_bodies body_frames)

interpretation import_cmd: idempotent_command "id_account idn" key "''session.import_solo''"
    session_of RSession "import_body idn p i s e" for idn key p i s e
  by unfold_locales (simp_all add: advances_bodies body_frames)

interpretation transition_cmd: idempotent_command "id_account idn" key "operation_name a"
    session_of RSession "transition_body idn p i v a" for idn key a p i v
  by unfold_locales (simp_all add: advances_bodies body_frames)

interpretation note_cmd: idempotent_command "id_account idn" key "''session.note''"
    note_of RNote "note_body idn p i b" for idn key p i b
  by unfold_locales (simp_all add: advances_bodies body_frames)

interpretation cheer_cmd: idempotent_command "id_account idn" key "''session.cheer''"
    cheer_of RCheer "cheer_body idn p i" for idn key p i
  by unfold_locales (simp_all add: advances_bodies body_frames)

section \<open>The commands as the handlers call them\<close>

text \<open>A command of an account without a pair fails at once; otherwise the frame runs.\<close>

lemma start_session_frame:
  assumes "id_pair idn = Some p"
  shows "start_session idn key i = idempotent_tx (id_account idn) key ''session.start'' session_of
    RSession (start_body idn p i)"
  using assms by (simp add: start_session_def)

lemma transition_session_frame:
  assumes "id_pair idn = Some p"
  shows "transition_session idn i key v a = idempotent_tx (id_account idn) key (operation_name a)
    session_of RSession (transition_body idn p i v a)"
  using assms by (simp add: transition_session_def)

lemma add_note_frame:
  assumes "id_pair idn = Some p"
  shows "add_note idn i key b = idempotent_tx (id_account idn) key ''session.note'' note_of
    RNote (note_body idn p i b)"
  using assms by (simp add: add_note_def)

lemma add_cheer_frame:
  assumes "id_pair idn = Some p"
  shows "add_cheer idn i key = idempotent_tx (id_account idn) key ''session.cheer'' cheer_of
    RCheer (cheer_body idn p i)"
  using assms by (simp add: add_cheer_def)

lemma import_solo_session_frame:
  assumes "id_pair idn = Some p" and "import_solo_session idn key i st en w d = (r, w', d')"
  shows "d' = d \<and> (\<exists>e. r = Inl e) \<or> idempotent_tx (id_account idn) key ''session.import_solo''
    session_of RSession (import_body idn p i st en) (tick w) d = (r, w', d')"
  using assms unfolding import_solo_session_def
  by (auto simp: raise_def bind_tx_def go_now_def split: if_splits)

lemma unpaired_fails:
  assumes "id_pair idn = None"
  shows "start_session idn key i w d = (Inl (Sentinel ErrNotFound), w, d)"
    and "import_solo_session idn key i st en w d = (Inl (Sentinel ErrNotFound), w, d)"
    and "transition_session idn i key v a w d = (Inl (Sentinel ErrNotFound), w, d)"
    and "add_note idn i key b w d = (Inl (Sentinel ErrNotFound), w, d)"
    and "add_cheer idn i key w d = (Inl (Sentinel ErrNotFound), w, d)"
  using assms
  by (simp_all add: start_session_def import_solo_session_def transition_session_def add_note_def
      add_cheer_def raise_def)

text \<open>An error leaves the store as it was.\<close>

lemma command_error_unchanged:
  "start_session idn key i w d = (Inl e, w', d') \<Longrightarrow> d' = d"
  "transition_session idn i key v a w d = (Inl e, w', d') \<Longrightarrow> d' = d"
  "add_note idn i key b w d = (Inl e, w', d') \<Longrightarrow> d' = d"
  "add_cheer idn i key w d = (Inl e, w', d') \<Longrightarrow> d' = d"
  "import_solo_session idn key i st en w d = (Inl e, w', d') \<Longrightarrow> d' = d"
proof -
  show "start_session idn key i w d = (Inl e, w', d') \<Longrightarrow> d' = d"
    by (cases "id_pair idn")
       (auto simp: unpaired_fails start_session_frame dest: start_cmd.error_unchanged)
  show "transition_session idn i key v a w d = (Inl e, w', d') \<Longrightarrow> d' = d"
    by (cases "id_pair idn")
       (auto simp: unpaired_fails transition_session_frame dest: transition_cmd.error_unchanged)
  show "add_note idn i key b w d = (Inl e, w', d') \<Longrightarrow> d' = d"
    by (cases "id_pair idn")
       (auto simp: unpaired_fails add_note_frame dest: note_cmd.error_unchanged)
  show "add_cheer idn i key w d = (Inl e, w', d') \<Longrightarrow> d' = d"
    by (cases "id_pair idn")
       (auto simp: unpaired_fails add_cheer_frame dest: cheer_cmd.error_unchanged)
  show "import_solo_session idn key i st en w d = (Inl e, w', d') \<Longrightarrow> d' = d"
    by (cases "id_pair idn")
       (auto simp: unpaired_fails dest!: import_solo_session_frame dest: import_cmd.error_unchanged)
qed

text \<open>A used key, expired or not, is never applied again.\<close>

lemma command_used_unchanged:
  assumes "key_used (id_account idn) key d"
  shows "start_session idn key i w d = (r, w', d') \<Longrightarrow> d' = d"
    and "transition_session idn i key v a w d = (r, w', d') \<Longrightarrow> d' = d"
    and "add_note idn i key b w d = (rn, w', d') \<Longrightarrow> d' = d"
    and "add_cheer idn i key w d = (rc, w', d') \<Longrightarrow> d' = d"
    and "import_solo_session idn key i st en w d = (r, w', d') \<Longrightarrow> d' = d"
proof -
  show "start_session idn key i w d = (r, w', d') \<Longrightarrow> d' = d"
    by (cases "id_pair idn")
       (auto simp: unpaired_fails start_session_frame dest: start_cmd.used_unchanged [OF assms])
  show "transition_session idn i key v a w d = (r, w', d') \<Longrightarrow> d' = d"
    by (cases "id_pair idn")
       (auto simp: unpaired_fails transition_session_frame
         dest: transition_cmd.used_unchanged [OF assms])
  show "add_note idn i key b w d = (rn, w', d') \<Longrightarrow> d' = d"
    by (cases "id_pair idn")
       (auto simp: unpaired_fails add_note_frame dest: note_cmd.used_unchanged [OF assms])
  show "add_cheer idn i key w d = (rc, w', d') \<Longrightarrow> d' = d"
    by (cases "id_pair idn")
       (auto simp: unpaired_fails add_cheer_frame dest: cheer_cmd.used_unchanged [OF assms])
  show "import_solo_session idn key i st en w d = (r, w', d') \<Longrightarrow> d' = d"
    by (cases "id_pair idn")
       (auto simp: unpaired_fails dest!: import_solo_session_frame
         dest: import_cmd.used_unchanged [OF assms])
qed

section \<open>Any command\<close>

text \<open>
  The five writing commands as one operation, with the response in the shape it is stored in;
  a join is the transition \<open>ActionJoin\<close>.
\<close>

datatype command =
    StartSession uuid
  | ImportSoloSession uuid time time
  | TransitionSession uuid int session_action
  | AddNote uuid string
  | AddCheer uuid

fun issue :: "auth_identity \<Rightarrow> uuid \<Rightarrow> command \<Rightarrow> (db, stored_response \<times> bool) tx" where
  "issue idn key (StartSession i) =
     bind_tx (start_session idn key i) (\<lambda>(s, b). ret (RSession s, b))"
| "issue idn key (ImportSoloSession i st en) =
     bind_tx (import_solo_session idn key i st en) (\<lambda>(s, b). ret (RSession s, b))"
| "issue idn key (TransitionSession i v a) =
     bind_tx (transition_session idn i key v a) (\<lambda>(s, b). ret (RSession s, b))"
| "issue idn key (AddNote i b) = bind_tx (add_note idn i key b) (\<lambda>(n, b). ret (RNote n, b))"
| "issue idn key (AddCheer i) = bind_tx (add_cheer idn i key) (\<lambda>(c, b). ret (RCheer c, b))"

lemma issue_run:
  assumes "bind_tx m (\<lambda>(x, b). ret (f x, b)) w d = (r, w', d')"
  obtains r0 where "m w d = (r0, w', d')" and "\<And>e. r = Inl e \<Longrightarrow> r0 = Inl e"
    and "\<And>x b. r = Inr (x, b) \<Longrightarrow> \<exists>y. r0 = Inr (y, b) \<and> x = f y"
  using assms by (cases "m w d" rule: prod_cases3) (auto simp: bind_tx_def ret_def split: sum.splits)

lemma issue_error_unchanged: "issue idn key c w d = (Inl e, w', d') \<Longrightarrow> d' = d"
  by (cases c) (auto elim!: issue_run dest: command_error_unchanged)

lemma issue_used_unchanged:
  "key_used (id_account idn) key d \<Longrightarrow> issue idn key c w d = (r, w', d') \<Longrightarrow> d' = d"
  by (cases c) (auto elim!: issue_run dest: command_used_unchanged)

lemma command_uses_key:
  "start_session idn key i w d = (Inr (x, False), w', d') \<Longrightarrow> key_used (id_account idn) key d'"
  "transition_session idn i key v a w d = (Inr (x, False), w', d') \<Longrightarrow> key_used (id_account idn) key d'"
  "add_note idn i key b w d = (Inr (n, False), w', d') \<Longrightarrow> key_used (id_account idn) key d'"
  "add_cheer idn i key w d = (Inr (c, False), w', d') \<Longrightarrow> key_used (id_account idn) key d'"
  "import_solo_session idn key i st en w d = (Inr (x, False), w', d') \<Longrightarrow> key_used (id_account idn) key d'"
proof -
  show "start_session idn key i w d = (Inr (x, False), w', d') \<Longrightarrow> key_used (id_account idn) key d'"
    by (cases "id_pair idn") (auto simp: unpaired_fails start_session_frame key_used_def
        idempotency_id_def dest: start_cmd.run_recorded)
  show "transition_session idn i key v a w d = (Inr (x, False), w', d') \<Longrightarrow> key_used (id_account idn) key d'"
    by (cases "id_pair idn") (auto simp: unpaired_fails transition_session_frame key_used_def
        idempotency_id_def dest: transition_cmd.run_recorded)
  show "add_note idn i key b w d = (Inr (n, False), w', d') \<Longrightarrow> key_used (id_account idn) key d'"
    by (cases "id_pair idn") (auto simp: unpaired_fails add_note_frame key_used_def
        idempotency_id_def dest: note_cmd.run_recorded)
  show "add_cheer idn i key w d = (Inr (c, False), w', d') \<Longrightarrow> key_used (id_account idn) key d'"
    by (cases "id_pair idn") (auto simp: unpaired_fails add_cheer_frame key_used_def
        idempotency_id_def dest: cheer_cmd.run_recorded)
  show "import_solo_session idn key i st en w d = (Inr (x, False), w', d') \<Longrightarrow> key_used (id_account idn) key d'"
    by (cases "id_pair idn") (auto simp: unpaired_fails key_used_def idempotency_id_def
        dest!: import_solo_session_frame dest: import_cmd.run_recorded)
qed

lemma issue_uses_key:
  "issue idn key c w d = (Inr (x, False), w', d') \<Longrightarrow> key_used (id_account idn) key d'"
  by (cases c) (auto elim!: issue_run dest: command_uses_key)

section \<open>Retries\<close>

text \<open>
  What a retry needs: the key was unused when the command first ran, since then keys were only
  added, from now on no statement fails and the clock stays within seven days, and neither
  clock goes back.
\<close>

definition retriable :: "uuid \<Rightarrow> uuid \<Rightarrow> world \<Rightarrow> db \<Rightarrow> db \<Rightarrow> world \<Rightarrow> db \<Rightarrow> bool" where
  "retriable a key w d d1 w2 d2 \<longleftrightarrow> \<not> key_used a key d \<and>
     set (idempotency d1) \<subseteq> set (idempotency d2) \<and> keys_unique d2 \<and>
     mono (w_clock w) \<and> mono (w_now w) \<and> advance w w2 \<and>
     (\<forall>n \<ge> w_step w2. w_fault w2 n = None) \<and>
     (\<forall>n \<ge> w_step w2. w_clock w n < w_clock w (w_step w) + 7 * 24 * hour)"

lemma retriable_tick:
  assumes "retriable a key w d d1 w2 d2"
  shows "retriable a key (tick w) d d1 (tick w2) d2"
proof -
  have le: "w_clock w (w_step w) \<le> w_clock w (Suc (w_step w))"
    using assms by (simp add: retriable_def mono_def)
  have "w_clock w n < w_clock w (Suc (w_step w)) + 7 * 24 * hour" if "Suc (w_step w2) \<le> n" for n
  proof -
    have "w_step w2 \<le> n" using that by simp
    then have "w_clock w n < w_clock w (w_step w) + 7 * 24 * hour"
      using assms unfolding retriable_def by blast
    then show ?thesis using le by linarith
  qed
  moreover have "\<forall>n \<ge> Suc (w_step w2). w_fault w2 n = None"
    using assms unfolding retriable_def by (meson Suc_leD)
  moreover have "advance (tick w) (tick w2)"
    using assms by (simp add: retriable_def advance_def tick_def)
  ultimately show ?thesis using assms by (simp add: retriable_def tick_def)
qed

lemma retriableD:
  assumes "retriable a key w d d1 w2 d2"
  shows "\<not> key_used a key d" "set (idempotency d1) \<subseteq> set (idempotency d2)" "keys_unique d2"
    "mono (w_clock w)" "w_clock w2 = w_clock w" "w_step w2 \<le> n \<Longrightarrow> w_fault w2 n = None"
    "w_step w2 \<le> n \<Longrightarrow> w_clock w n < w_clock w (w_step w) + 7 * 24 * hour"
    "w_now w (w_step w) \<le> w_now w2 (w_step w2)"
  using assms by (auto simp: retriable_def advance_def mono_def)

lemma command_retry:
  assumes "retriable (id_account idn) key w d d1 w2 d2"
  shows "start_session idn key i w d = (Inr (x, f), w1, d1) \<Longrightarrow>
      start_session idn key j w2 d2 = (Inr (x, True), tick (tick w2), d2)" (is "?A \<Longrightarrow> ?a")
    and "transition_session idn i key v a w d = (Inr (x, f), w1, d1) \<Longrightarrow>
      transition_session idn i key v a w2 d2 = (Inr (x, True), tick (tick w2), d2)" (is "?B \<Longrightarrow> ?b")
    and "add_note idn i key b w d = (Inr (n, f), w1, d1) \<Longrightarrow>
      add_note idn i key b w2 d2 = (Inr (n, True), tick (tick w2), d2)" (is "?C \<Longrightarrow> ?c")
    and "add_cheer idn i key w d = (Inr (c, f), w1, d1) \<Longrightarrow>
      add_cheer idn i key w2 d2 = (Inr (c, True), tick (tick w2), d2)" (is "?D \<Longrightarrow> ?d")
proof -
  note r = retriableD [OF assms]
  show ?a if ?A
    using that r start_cmd.retry_later [of idn key p i w d x f w1 d1 d2 w2 for p]
    by (cases "id_pair idn") (simp_all add: unpaired_fails start_session_frame)
  show ?b if ?B
    using that r transition_cmd.retry_later [of idn key a p i v w d x f w1 d1 d2 w2 for p]
    by (cases "id_pair idn") (simp_all add: unpaired_fails transition_session_frame)
  show ?c if ?C
    using that r note_cmd.retry_later [of idn key p i b w d n f w1 d1 d2 w2 for p]
    by (cases "id_pair idn") (simp_all add: unpaired_fails add_note_frame)
  show ?d if ?D
    using that r cheer_cmd.retry_later [of idn key p i w d c f w1 d1 d2 w2 for p]
    by (cases "id_pair idn") (simp_all add: unpaired_fails add_cheer_frame)
qed

lemma import_retry:
  assumes r: "retriable (id_account idn) key w d d1 w2 d2"
    and run: "import_solo_session idn key i st en w d = (Inr (x, f), w1, d1)"
  shows "import_solo_session idn key i st en w2 d2 = (Inr (x, True), tick (tick (tick w2)), d2)"
proof (cases "id_pair idn")
  case None
  with run show ?thesis by (simp add: unpaired_fails)
next
  case (Some p)
  then have first: "idempotent_tx (id_account idn) key ''session.import_solo'' session_of RSession
      (import_body idn p i st en) (tick w) d = (Inr (x, f), w1, d1)"
    and ok: "\<not> (en < st \<or> 24 * hour < time_sub en st)" "\<not> w_now w (w_step w) + 2 * minute < en"
    using run unfolding import_solo_session_def
    by (auto simp: raise_def bind_tx_def go_now_def split: if_splits)
  have "idempotent_tx (id_account idn) key ''session.import_solo'' session_of RSession
      (import_body idn p i st en) (tick w2) d2 = (Inr (x, True), tick (tick (tick w2)), d2)"
    by (rule import_cmd.retry_later [OF first]) (use retriableD [OF retriable_tick [OF r]] in auto)
  moreover have "\<not> w_now w2 (w_step w2) + 2 * minute < en" using ok(2) retriableD(8) [OF r] by simp
  ultimately show ?thesis using Some ok(1)
    unfolding import_solo_session_def by (simp add: bind_tx_def go_now_def)
qed

end
