(* ===== verification/Scenario.thy ===== *)
theory Scenario
  imports Along Commands
begin

text \<open>
  One concrete history of two accounts, for the witnesses: an invitation and its acceptance, a
  session that one starts and the other joins. \<open>demo_room\<close> is the moment after it; the later
  moments run one more operation each. All are reachable by construction, and what
  \<open>demo_room\<close> contains is computed from the operations.
\<close>

section \<open>Two accounts\<close>

text \<open>The database clock of the scenario stops after ten minutes, so that no key ever expires.\<close>

definition demo_world :: world where
  "demo_world = \<lparr>w_step = 0, w_now = (\<lambda>n. second * int n), w_clock = (\<lambda>n. second * int (min n 600)),
     w_uuid = (\<lambda>n k. 1000 + 10 * n + k), w_fault = (\<lambda>_. None), w_seq = 0\<rparr>"

definition demo_account :: "uuid \<Rightarrow> string \<Rightarrow> account_row" where
  "demo_account i name = \<lparr>ac_id = i, ac_handle = name, ac_display_name = name,
     ac_recovery_handle = name, ac_status = AccountActive, ac_created_at = 0,
     ac_activated_at = Some 0\<rparr>"

definition demo_start :: moment where
  "demo_start = (demo_world,
     empty_db\<lparr>accounts := [demo_account 1 ''Ada'', demo_account 2 ''Bo'']\<rparr>)"

definition ada :: auth_identity where
  "ada = \<lparr>id_account = 1, id_session = 91, id_installation = 81, id_pair = Some 1080,
     id_display_name = ''Ada''\<rparr>"

definition bo :: auth_identity where
  "bo = \<lparr>id_account = 2, id_session = 92, id_installation = 82, id_pair = Some 1080,
     id_display_name = ''Bo''\<rparr>"

section \<open>A shared room\<close>

definition demo_invited :: moment where
  "demo_invited = after_op (create_pair_invite 1 5 ''hash'' hour) demo_start"

definition demo_paired :: moment where
  "demo_paired = after_op (accept_pair_invite 2 ''hash'') demo_invited"

definition demo_opened :: moment where
  "demo_opened = after_op (start_session ada 31 7) demo_paired"

definition demo_joined :: moment where
  "demo_joined = after_op (join_session bo 7 32 1) demo_opened"

definition demo_session :: "session_state \<Rightarrow> int \<Rightarrow> participant list \<Rightarrow> focus_session" where
  "demo_session st v ps = \<lparr>ses_id = 7, ses_pair = 1080, ses_started_by = 1, ses_state = st,
     ses_pause_origin = None, ses_duration_seconds = 1500, ses_started_at = 22 * second,
     ses_ends_at = 1522 * second, ses_paused_at = None, ses_completed_at = None,
     ses_cancelled_at = None, ses_version = v, ses_offline_origin = False,
     ses_participants = ps, ses_notes = []\<rparr>"

definition demo_people :: "participant list" where
  "demo_people =
     [\<lparr>pt_account = 1, pt_display_name = ''Ada'', pt_joined_at = 22 * second\<rparr>,
      \<lparr>pt_account = 2, pt_display_name = ''Bo'', pt_joined_at = 40 * second\<rparr>]"

definition demo_row :: session_row where
  "demo_row = \<lparr>fs_id = 7, fs_pair = 1080, fs_started_by = 1, fs_state = SessionTogether,
     fs_pause_origin = None, fs_duration_seconds = 1500, fs_started_at = 22 * second,
     fs_ends_at = 1522 * second, fs_paused_at = None, fs_completed_at = None,
     fs_cancelled_at = None, fs_version = 2, fs_offline_origin = False,
     fs_updated_at = 40 * second\<rparr>"

definition demo_db :: db where
  "demo_db = empty_db\<lparr>
     accounts := [demo_account 1 ''Ada'', demo_account 2 ''Bo''],
     pairs := [\<lparr>pr_id = 1080, pr_created_at = 10 * second, pr_dissolved_at = None\<rparr>],
     members := [\<lparr>pm_pair = 1080, pm_account = 1, pm_joined_at = 11 * second\<rparr>,
       \<lparr>pm_pair = 1080, pm_account = 2, pm_joined_at = 11 * second\<rparr>],
     invites := [\<lparr>iv_id = 5, iv_created_by = 1, iv_token_hash = ''hash'', iv_expires_at = hour,
       iv_accepted_by = Some 2, iv_accepted_at = Some (12 * second), iv_revoked_at = None\<rparr>],
     sessions := [demo_row],
     session_members := [\<lparr>sm_session = 7, sm_account = 1, sm_joined_at = 22 * second\<rparr>,
       \<lparr>sm_session = 7, sm_account = 2, sm_joined_at = 40 * second\<rparr>],
     idempotency := [\<lparr>ik_account = 1, ik_key = 31, ik_operation = ''session.start'',
         ik_response = RSession (demo_session SessionOpen 1 (take 1 demo_people)),
         ik_expires_at = 604831 * second\<rparr>,
       \<lparr>ik_account = 2, ik_key = 32, ik_operation = ''session.join'',
         ik_response = RSession (demo_session SessionTogether 2 demo_people),
         ik_expires_at = 604848 * second\<rparr>],
     events := [\<lparr>pe_cursor = 1, pe_pair = 1080, pe_type = ''pair.created'', pe_entity = Some 1080,
         pe_actor = Some 2, pe_payload = PPairCreated 1080 [1, 2], pe_created_at = 13 * second\<rparr>,
       \<lparr>pe_cursor = 2, pe_pair = 1080, pe_type = ''session.started'', pe_entity = Some 7,
         pe_actor = Some 1, pe_payload = PSession (demo_session SessionOpen 1 (take 1 demo_people)),
         pe_created_at = 28 * second\<rparr>,
       \<lparr>pe_cursor = 3, pe_pair = 1080, pe_type = ''session.joined'', pe_entity = Some 7,
         pe_actor = Some 2, pe_payload = PSession (demo_session SessionTogether 2 demo_people),
         pe_created_at = 46 * second\<rparr>],
     notified := [\<lparr>hint_pair = 1080, hint_cursor = 1\<rparr>, \<lparr>hint_pair = 1080, hint_cursor = 2\<rparr>,
       \<lparr>hint_pair = 1080, hint_cursor = 3\<rparr>]\<rparr>"

definition demo_room :: moment where
  "demo_room = (demo_world\<lparr>w_step := 60, w_seq := 3\<rparr>, demo_db)"

lemma demo_join_computed:
  "case demo_opened of (w0, d0) \<Rightarrow> (case join_session bo 7 32 1 w0 d0 of
     (Inr (s, b), w, d) \<Rightarrow> \<not> b \<and> d = demo_db \<and> w_step w \<le> 60 \<and> w_seq w = 3
   | (Inl _, _) \<Rightarrow> False)"
  by code_simp

lemma demo_join_applied:
  obtains w0 d0 s w where "demo_opened = (w0, d0)"
    and "join_session bo 7 32 1 w0 d0 = (Inr (s, False), w, demo_db)"
    and "w_step w \<le> 60" and "w_seq w = 3"
proof -
  obtain w0 d0 where o: "demo_opened = (w0, d0)" by (cases demo_opened)
  obtain x w d where j: "join_session bo 7 32 1 w0 d0 = (x, w, d)"
    by (cases "join_session bo 7 32 1 w0 d0" rule: prod_cases3)
  obtain s where "x = Inr (s, False)" "d = demo_db" "w_step w \<le> 60" "w_seq w = 3"
    using demo_join_computed by (simp add: o j split: sum.splits prod.splits)
  with that o j show thesis by blast
qed

lemma demo_joined_computed:
  "case demo_joined of (w, d) \<Rightarrow> d = demo_db \<and> w_step w \<le> 60 \<and> w_seq w = 3"
proof (rule demo_join_applied)
  fix w0 d0 s w
  assume o: "demo_opened = (w0, d0)" and j: "join_session bo 7 32 1 w0 d0 = (Inr (s, False), w, demo_db)"
    and "w_step w \<le> 60" "w_seq w = 3"
  then show ?thesis by (simp add: demo_joined_def after_op_def o j)
qed

section \<open>Reachability\<close>

lemma demo_start_initial: "initial demo_start"
  by (auto simp: initial_def demo_start_def clock_ok_def demo_world_def mono_def min_def auth_inv_def tokens_inv_def
      queue_ok_def empty_db_def demo_account_def)

lemma served_then: "served\<^sup>*\<^sup>* s t \<Longrightarrow> served t u \<Longrightarrow> served\<^sup>*\<^sup>* s u"
  by (rule rtranclp.rtrancl_into_rtrancl)

lemma demo_joined_served: "served\<^sup>*\<^sup>* demo_start demo_joined"
  unfolding demo_joined_def demo_opened_def demo_paired_def demo_invited_def
  by (intro served_then [OF _ served.join] served_then [OF _ served.start]
      served_then [OF _ served.accept_invite] served_then [OF _ served.create_invite]
      rtranclp.rtrancl_refl)

lemma demo_room_served: "served\<^sup>*\<^sup>* demo_start demo_room"
proof -
  obtain w d where j: "demo_joined = (w, d)" by (cases demo_joined)
  have c: "d = demo_db" "w_step w \<le> 60" "w_seq w = 3" using demo_joined_computed by (auto simp: j)
  have "advance (fst demo_start) (fst demo_joined)"
    using served_run [OF demo_joined_served initial_good [OF demo_start_initial]]
    by (blast intro: pair_run_advance)
  then have "served (w, d) (demo_world\<lparr>w_step := 60, w_seq := 3\<rparr>, d)"
    using served.wait [of "(w, d)" "demo_world\<lparr>w_step := 60, w_seq := 3\<rparr>"] c
    by (simp add: advance_def j demo_start_def)
  then show ?thesis using demo_joined_served
    by (auto simp: demo_room_def c j intro: served_then)
qed

lemma demo_room_reachable: "reachable demo_room"
  using reachable_initial [OF demo_start_initial] demo_room_served by (rule reachable_run)

lemma demo_room_good: "good demo_room"
  by (rule reachable_good) (rule demo_room_reachable)

section \<open>Further moments\<close>

text \<open>Bo pauses the room and Ada resumes it; or Ada completes it and Bo asks for it again.\<close>

definition demo_paused :: moment where
  "demo_paused = after_op (transition_session bo 7 35 2 ActionPause) demo_room"

definition demo_done :: moment where
  "demo_done = after_op (transition_session ada 7 37 2 ActionComplete) demo_room"

definition demo_later :: moment where
  "demo_later = after_op (start_session bo 38 8) demo_done"

definition demo_done_row :: session_row where
  "demo_done_row = demo_row\<lparr>fs_state := SessionCompleted, fs_completed_at := Some (67 * second),
     fs_version := 3, fs_updated_at := 67 * second\<rparr>"

lemma demo_done_computed: "sessions (snd demo_done) = [demo_done_row]"
  by code_simp

definition demo_paused_row :: session_row where
  "demo_paused_row = demo_row\<lparr>fs_state := SessionPaused, fs_pause_origin := Some SessionTogether,
     fs_paused_at := Some (67 * second), fs_version := 3, fs_updated_at := 67 * second\<rparr>"

lemma demo_paused_computed: "sessions (snd demo_paused) = [demo_paused_row]"
  by code_simp

lemma demo_opened_reachable: "reachable demo_opened"
  unfolding demo_opened_def demo_paired_def demo_invited_def
  by (intro reachable_step [OF _ served.start] reachable_step [OF _ served.accept_invite]
      reachable_step [OF _ served.create_invite] reachable_initial [OF demo_start_initial])

lemma demo_invited_reachable: "reachable demo_invited"
  unfolding demo_invited_def
  by (rule reachable_step [OF reachable_initial [OF demo_start_initial] served.create_invite])

lemma demo_done_reachable: "reachable demo_done"
  unfolding demo_done_def by (rule reachable_step [OF demo_room_reachable served.transition])

lemma demo_later_served: "served\<^sup>*\<^sup>* demo_done demo_later"
  unfolding demo_later_def by (rule served_then [OF _ served.start]) simp

lemma demo_paused_reachable: "reachable demo_paused"
  unfolding demo_paused_def by (rule reachable_step [OF demo_room_reachable served.transition])

end
