(* ===== verification/PairHistory.thy ===== *)
theory PairHistory
  imports PairRefinement
begin

text \<open>
  What holds between two moments of a run: rows only grow, a terminal session and a used
  invitation are kept as they are, the version of a session never goes back, a joined session
  is never open to a join again.
\<close>

lemma put_session_in:
  assumes "s \<in> set (sessions d)"
  shows "(if fs_id s = fs_id r then r else s) \<in> set (sessions (put_session r d))"
  using assms by (auto simp: put_session_def update_where_def)

text \<open>Each session of a moment is there at the next, changed at most by one row step.\<close>

lemma pair_step_session:
  assumes "pair_step s t" and "sessions_inv (snd s)" and "r \<in> set (sessions (snd s))"
  shows "\<exists>r' \<in> set (sessions (snd t)). r' = r \<or> (\<exists>a u. row_step r a u r')"
  using assms
proof (induction rule: pair_step.induct)
  case (act w w' c x d a u x' ms d1 ty actor tc)
  have in': "(if fs_id r = fs_id x' then x' else r) \<in> set (sessions d1)"
    using put_session_in [of r "d\<lparr>session_members := session_members d @ ms\<rparr>" x'] act(5,7) by simp
  have "r = x" if "fs_id r = fs_id x'"
    using that act(2,3,6,7) distinct_key_eq [of fs_id "sessions d" r x]
    by (simp add: row_step_def same_room_def sessions_inv_def sessions_unique_def)
  with in' act(3) show ?case by (auto split: if_splits)
qed auto

lemma pair_step_terminal:
  assumes "pair_step s t" and "sessions_inv (snd s)" and "r \<in> set (sessions (snd s))"
    and "terminal (fs_state r)"
  shows "r \<in> set (sessions (snd t))"
  using pair_step_session [OF assms(1-3)] assms(4) row_step_active
  by (auto simp: active_def active_not_terminal)

lemma pair_run_terminal:
  "pair_run s t \<Longrightarrow> sessions_inv (snd s) \<Longrightarrow> r \<in> set (sessions (snd s)) \<Longrightarrow> terminal (fs_state r) \<Longrightarrow>
   r \<in> set (sessions (snd t))"
  by (induction rule: rtranclp_induct)
     (auto intro: pair_step_terminal pair_run_sessions_inv)

lemma pair_run_session:
  "pair_run s t \<Longrightarrow> sessions_inv (snd s) \<Longrightarrow> r \<in> set (sessions (snd s)) \<Longrightarrow>
   \<exists>r' \<in> set (sessions (snd t)). same_room r r' \<and> fs_version r \<le> fs_version r' \<and>
     (fs_version r' = fs_version r \<longrightarrow> r' = r) \<and>
     (terminal (fs_state r') \<or> (joined (phase_of r) \<longrightarrow> joined (phase_of r')))"
proof (induction rule: rtranclp_induct)
  case base
  then show ?case by (auto simp: same_room_def)
next
  case (step t u)
  then obtain x where x: "x \<in> set (sessions (snd t))" "same_room r x" "fs_version r \<le> fs_version x"
      "fs_version x = fs_version r \<longrightarrow> x = r"
      "terminal (fs_state x) \<or> (joined (phase_of r) \<longrightarrow> joined (phase_of x))" by blast
  have inv: "sessions_inv (snd t)" using pair_run_sessions_inv [OF step(1)] step(4) by simp
  obtain y where y: "y \<in> set (sessions (snd u))" "y = x \<or> (\<exists>a u. row_step x a u y)"
    using pair_step_session [OF step(2) inv x(1)] by blast
  show ?case
  proof (cases "y = x")
    case False
    with y(2) obtain a t0 where st: "row_step x a t0 y" by blast
    have "\<not> terminal (fs_state x)" using row_step_active [OF st] by (simp add: active_def active_not_terminal)
    moreover have "joined (phase_of x) \<longrightarrow> terminal (fs_state y) \<or> joined (phase_of y)"
      using st life_step_joined [of "phase_of x" a "phase_of y"] by (auto simp: row_step_def phase_of_def)
    moreover have "same_room r y" using x(2) st by (simp add: same_room_def row_step_def)
    moreover have "fs_version r < fs_version y" using x(3) st by (simp add: row_step_def)
    ultimately show ?thesis using x(5) y(1) by fastforce
  qed (use x y in blast)
qed

lemma update_where_keep: "x \<in> set t \<Longrightarrow> \<not> P x \<Longrightarrow> x \<in> set (update_where P f t)"
  by (simp add: set_update_where)

text \<open>An invitation that is no longer live stays as it is.\<close>

lemma pair_step_invite:
  assumes "pair_step s t" and "invites_inv (snd s)" and "v \<in> set (invites (snd s))"
    and "\<not> live_invite v"
  shows "v \<in> set (invites (snd t))"
  using assms
proof (induction rule: pair_step.induct)
  case (invite w w' a d x t)
  then show ?case by (auto intro!: update_where_keep)
next
  case (make_pair w w' c x d a p d1 t1 t2 ty tc)
  have "iv_id v \<noteq> iv_id x"
    using make_pair(2,3,12-14) distinct_key_eq [of iv_id "invites d" v x] by (auto simp: invites_inv_def)
  then show ?case using make_pair(11,13) by (auto simp: add_event_def intro!: update_where_keep)
qed (auto simp: put_session_def add_event_def)

lemma pair_run_invite:
  "pair_run s t \<Longrightarrow> invites_inv (snd s) \<Longrightarrow> v \<in> set (invites (snd s)) \<Longrightarrow> \<not> live_invite v \<Longrightarrow>
   v \<in> set (invites (snd t)) \<and> invites_inv (snd t)"
  by (induction rule: rtranclp_induct) (auto intro: pair_step_invite invites_inv_step)

text \<open>A key that is used stays used, with the response it was stored with.\<close>

lemma pair_step_keys: "pair_step s t \<Longrightarrow> set (idempotency (snd s)) \<subseteq> set (idempotency (snd t))"
  by (induction rule: pair_step.induct) auto

lemma pair_run_keys: "pair_run s t \<Longrightarrow> set (idempotency (snd s)) \<subseteq> set (idempotency (snd t))"
  by (induction rule: rtranclp_induct) (use pair_step_keys in \<open>blast+\<close>)

section \<open>The log only grows\<close>

lemma pair_step_new_events:
  "pair_step s t \<Longrightarrow> \<exists>new. events (snd t) = events (snd s) @ new \<and>
     (\<forall>ev \<in> set new. w_seq (fst s) < pe_cursor ev)"
  by (induction rule: pair_step.induct) (auto simp: draws_def)

lemma run_new_events:
  "pair_run s t \<Longrightarrow> \<exists>new. events (snd t) = events (snd s) @ new \<and>
     (\<forall>ev \<in> set new. w_seq (fst s) < pe_cursor ev)"
proof (induction rule: rtranclp_induct)
  case (step t u)
  have "w_seq (fst s) \<le> w_seq (fst t)" using pair_run_advance [OF step(1)] by (simp add: advance_def)
  with step(3) pair_step_new_events [OF step(2)] show ?case by fastforce
qed simp

end
