(* ===== verification/SharedProperties.thy ===== *)
theory SharedProperties
  imports Scenario PairHistory
begin

text \<open>
  The properties of the shared state that hold at every reachable moment, each with a witness
  at the moments of \<open>Scenario\<close>.
\<close>

section \<open>The log and its readers\<close>

lemma events_after_split:
  assumes "log_ok d" and "events d = old @ new"
    and "\<And>ev. ev \<in> set old \<Longrightarrow> pe_pair ev = p \<Longrightarrow> pe_cursor ev \<le> c"
    and "\<And>ev. ev \<in> set new \<Longrightarrow> c < pe_cursor ev"
  shows "events_after p c d = filter (\<lambda>ev. pe_pair ev = p) new"
proof -
  have "filter (\<lambda>ev. pe_pair ev = p \<and> c < pe_cursor ev) old = []"
    using assms(3) by (fastforce simp: filter_empty_conv)
  moreover have "filter (\<lambda>ev. pe_pair ev = p \<and> c < pe_cursor ev) new = filter (\<lambda>ev. pe_pair ev = p) new"
    by (rule filter_cong) (use assms(4) in auto)
  ultimately show ?thesis using assms(1,2) by (simp add: events_after_filter)
qed



section \<open>Sessions\<close>

text \<open>
  C8. A pair has at most one session that is open, shared or paused, however the requests of
  the two partners interleave.
\<close>

theorem one_active_session:
  assumes "reachable s" and "r \<in> set (sessions (snd s))" and "r' \<in> set (sessions (snd s))"
    and "active r" and "active r'" and "fs_pair r = fs_pair r'"
  shows "r = r'"
  using goodD(2) [OF reachable_good [OF assms(1)]] assms(2-)
  by (auto simp: sessions_inv_def intro: sessions_unique_active)

theorem one_active_session_witness:
  "active demo_row \<and> hd (sessions (snd demo_room)) = demo_row"
proof -
  have "demo_row \<in> set (sessions (snd demo_room))" "hd (sessions (snd demo_room)) \<in> set (sessions (snd demo_room))"
    "active demo_row" "active (hd (sessions (snd demo_room)))"
    "fs_pair (hd (sessions (snd demo_room))) = fs_pair demo_row"
    by (simp_all add: demo_room_def demo_db_def demo_row_def active_def active_state_def)
  then show ?thesis using one_active_session [OF demo_room_reachable] by blast
qed

text \<open>
  C13. Every session row is consistent: the phase is one of the life cycle, an origin is kept
  exactly while paused, each of the three timestamps is set exactly in its state, the length is
  25 minutes and the version is positive.
\<close>

theorem session_rows_ok:
  assumes "reachable s" and "r \<in> set (sessions (snd s))"
  shows "phase_ok (phase_of r) \<and> fs_duration_seconds r = 1500 \<and> 0 < fs_version r \<and>
     (fs_paused_at r \<noteq> None \<longleftrightarrow> fs_state r = SessionPaused) \<and>
     (fs_completed_at r \<noteq> None \<longleftrightarrow> fs_state r = SessionCompleted) \<and>
     (fs_cancelled_at r \<noteq> None \<longleftrightarrow> fs_state r = SessionCancelled)"
  using goodD(2) [OF reachable_good [OF assms(1)]] assms(2)
  unfolding sessions_inv_def row_ok_def by blast

theorem session_rows_ok_witness: "phase_ok (phase_of demo_row) \<and> fs_state demo_row = SessionTogether"
  using session_rows_ok [OF demo_room_reachable, of demo_row]
  by (simp add: demo_room_def demo_db_def demo_row_def)



text \<open>
  C19. In a shared room both partners are present: the accounts in a session that is together,
  or paused out of being together, are exactly the two members of its pair.
\<close>

theorem together_means_both:
  assumes "reachable s" and r: "r \<in> set (sessions (snd s))" and j: "joined (phase_of r)"
  shows "{a. in_session (snd s) (fs_id r) a} = {a. pair_member (fs_pair r) a (snd s)} \<and>
    card {a. pair_member (fs_pair r) a (snd s)} = 2"
proof -
  let ?d = "snd s"
  have g: "good s" using assms(1) by (rule reachable_good)
  have ok: "presence_ok ?d r" using goodD(4) [OF g] r by (simp add: presence_inv_def)
  have ex: "pair_exists ?d (fs_pair r)" using goodD(2) [OF g] r by (simp add: sessions_inv_def)
  have two: "card {a. pair_member (fs_pair r) a ?d} = 2"
    using goodD(3) [OF g] ex by (rule pair_has_two)
  obtain b where b: "in_session ?d (fs_id r) b" "b \<noteq> fs_started_by r"
    using ok j by (auto simp: presence_ok_def)
  have "in_session ?d (fs_id r) (fs_started_by r)" using ok by (simp add: presence_ok_def)
  with b have "card {fs_started_by r, b} = 2" "{fs_started_by r, b} \<subseteq> {a. in_session ?d (fs_id r) a}"
    by auto
  moreover have sub: "{a. in_session ?d (fs_id r) a} \<subseteq> {a. pair_member (fs_pair r) a ?d}"
    using ok by (auto simp: presence_ok_def)
  moreover have "finite {a. pair_member (fs_pair r) a ?d}" using two by (simp add: card_ge_0_finite)
  ultimately have "{a. in_session ?d (fs_id r) a} = {a. pair_member (fs_pair r) a ?d}"
    using two by (metis card_seteq dual_order.refl subset_trans order_antisym)
  with two show ?thesis by simp
qed

theorem together_means_both_witness:
  "{a. in_session demo_db 7 a} = {a. pair_member 1080 a demo_db}
    \<and> card {a. pair_member 1080 a demo_db} = 2"
  using together_means_both [OF demo_room_reachable, of demo_row]
  by (simp add: demo_room_def demo_db_def demo_row_def phase_of_def)

section \<open>Pairs\<close>

text \<open>
  C20. A pair has exactly two members, an account belongs to at most one pair, and the one who
  created the invitation is not the one who accepted it.
\<close>

theorem pairs_of_two:
  assumes "reachable s" and "p \<in> set (pairs (snd s))"
  shows "card {a. pair_member (pr_id p) a (snd s)} = 2 \<and>
    (\<forall>a q. pair_member (pr_id p) a (snd s) \<and> pair_member q a (snd s) \<longrightarrow> q = pr_id p)"
proof -
  have inv: "pairs_inv (snd s)" using goodD(3) [OF reachable_good [OF assms(1)]] .
  have "pair_exists (snd s) (pr_id p)" using assms(2) by (auto simp: pair_exists_def)
  then have "card {a. pair_member (pr_id p) a (snd s)} = 2" by (rule pair_has_two [OF inv])
  moreover have "q = pr_id p" if pm: "pair_member (pr_id p) a (snd s)" "pair_member q a (snd s)" for a q
  proof -
    obtain m where m: "m \<in> set (members (snd s))" "pm_pair m = pr_id p" "pm_account m = a"
      using pm(1) unfolding pair_member_iff [OF inv] by blast
    obtain n where n: "n \<in> set (members (snd s))" "pm_pair n = q" "pm_account n = a"
      using pm(2) unfolding pair_member_iff [OF inv] by blast
    have "distinct (map pm_account (members (snd s)))" using inv by (simp add: pairs_inv_def)
    then have "m = n" by (rule distinct_key_eq [OF _ m(1) n(1)]) (simp add: m(3) n(3))
    with m n show ?thesis by simp
  qed
  ultimately show ?thesis by blast
qed

theorem pairs_of_two_witness:
  "card {a. pair_member 1080 a demo_db} = 2 \<and> pair_member 1080 2 demo_db"
proof
  have "hd (pairs demo_db) \<in> set (pairs (snd demo_room))" "pr_id (hd (pairs demo_db)) = 1080"
    by (simp_all add: demo_room_def demo_db_def)
  then show "card {a. pair_member 1080 a demo_db} = 2"
    using pairs_of_two [OF demo_room_reachable] by (metis demo_room_def snd_conv)
  show "pair_member 1080 2 demo_db" by code_simp
qed

lemma accept_commits:
  assumes "accept_pair_invite a h w d = (Inr x, w', d')"
  obtains out w2 where "accept_body a h (tick w) d = (Inr out, w2, d')" and "w' = tick w2"
  using assms unfolding accept_pair_invite_def
proof (cases rule: transaction_InrD)
  case (abandoned d2)
  then show ?thesis unfolding accept_body_def
    by (auto simp: tx_simps split: if_splits option.splits)
qed (rule that)

lemma accept_uses_invite:
  assumes "accept_pair_invite a h w d = (Inr x, w', d')"
  obtains v where "v \<in> set (invites d')" and "iv_token_hash v = h" and "\<not> live_invite v"
  using assms
proof (rule accept_commits)
  fix out w2
  assume "accept_body a h (tick w) d = (Inr out, w2, d')"
  then show thesis
  proof (rule accept_body_effect)
    fix x pid t0 t1 t2 c tc
    assume x: "x \<in> set (invites d)" "iv_token_hash x = h"
      and d': "d' = add_event pid ''pair.created'' (Some pid) (Some a) (PPairCreated pid [iv_created_by x, a]) c tc
        (d\<lparr>pairs := pairs d @ [\<lparr>pr_id = pid, pr_created_at = t0, pr_dissolved_at = None\<rparr>],
           members := members d @ [\<lparr>pm_pair = pid, pm_account = iv_created_by x, pm_joined_at = t1\<rparr>,
             \<lparr>pm_pair = pid, pm_account = a, pm_joined_at = t1\<rparr>],
           invites := update_where (\<lambda>v. iv_id v = iv_id x)
             (\<lambda>v. v\<lparr>iv_accepted_by := Some a, iv_accepted_at := Some t2\<rparr>) (invites d)\<rparr>)"
    let ?v = "x\<lparr>iv_accepted_by := Some a, iv_accepted_at := Some t2\<rparr>"
    have "?v \<in> set (invites d')"
      unfolding d' add_event_def using x(1) by (auto simp: set_update_where)
    then show thesis by (rule that) (simp_all add: x(2) live_invite_def)
  qed
qed


lemma demo_accept_succeeds:
  "case accept_pair_invite 2 ''hash'' (fst demo_invited) (snd demo_invited) of
     (Inr _, _) \<Rightarrow> True | (Inl _, _) \<Rightarrow> False"
  by code_simp


end
