(* ===== verification/SyncHandler.thy ===== *)
theory SyncHandler
  imports System Commands GoStrings
begin

text \<open>
  \<open>POST /v1/sync\<close> (\<open>internal/httpapi/sync_handler.go\<close>): the queued commands of a device are
  applied one by one, each in its own transaction and under its own identifier as idempotency
  key; then the current session and one page of the pair log are read. A command that is
  refused (below 500) is reported and the next one runs; any other error ends the request.

  The JSON of a command's payload is seen through \<open>strictPayload\<close>: no bytes, bytes that do not
  unmarshal, or the fields they unmarshal to, absent ones being zero.
\<close>

section \<open>Requests and replies\<close>

record sync_payload =
  sp_started_at :: time
  sp_completed_at :: time
  sp_body :: string

datatype raw_payload = NoPayload | BadPayload | Payload sync_payload

record sync_command =
  sc_id :: uuid
  sc_type :: string
  sc_entity :: "uuid option"
  sc_expected_version :: "int option"
  sc_payload :: raw_payload

record sync_error =
  se_code :: string
  se_message :: string

record sync_result =
  sr_id :: uuid
  sr_applied :: bool
  sr_resource :: "stored_response option"
  sr_error :: "sync_error option"

record sync_request =
  sq_cursor :: int
  sq_limit :: int
  sq_commands :: "sync_command list"

record sync_reply =
  sy_server_time :: time
  sy_cursor :: int
  sy_events :: "pair_event list"
  sy_has_more :: bool
  sy_results :: "sync_result list"
  sy_current :: "focus_session option"

section \<open>One command\<close>

definition validation_error :: go_error where
  "validation_error = as_error ErrValidation"

fun strict_payload :: "raw_payload \<Rightarrow> go_error + sync_payload" where
  "strict_payload NoPayload = Inl validation_error"
| "strict_payload BadPayload = Inl validation_error"
| "strict_payload (Payload p) = Inr p"

definition applied :: "uuid \<Rightarrow> stored_response \<Rightarrow> sync_result" where
  "applied i resource =
     \<lparr>sr_id = i, sr_applied = True, sr_resource = Some resource, sr_error = None\<rparr>"

text \<open>The transition types of the \<open>switch\<close>; \<open>session.expire\<close> is not among them.\<close>

definition transition_types :: "(string \<times> session_action) list" where
  "transition_types = [(''session.join'', ActionJoin), (''session.pause'', ActionPause),
     (''session.resume'', ActionResume), (''session.complete'', ActionComplete),
     (''session.cancel'', ActionCancel)]"

definition apply_transition ::
  "auth_identity \<Rightarrow> sync_command \<Rightarrow> session_action \<Rightarrow> (db, sync_result) tx" where
  "apply_transition idn c action = (case (sc_entity c, sc_expected_version c) of
       (Some entity, Some version) \<Rightarrow>
         if version < 1 then raise validation_error
         else bind_tx
           (if action = ActionJoin then join_session idn entity (sc_id c) version
            else transition_session idn entity (sc_id c) version action)
           (\<lambda>(session, _). ret (applied (sc_id c) (RSession session)))
     | _ \<Rightarrow> raise validation_error)"

definition apply_start :: "auth_identity \<Rightarrow> sync_command \<Rightarrow> (db, sync_result) tx" where
  "apply_start idn c =
     bind_tx (case sc_entity c of
         None \<Rightarrow> new_uuid
       | Some i \<Rightarrow> if i = nil_uuid then new_uuid else ret i) (\<lambda>session_id.
     bind_tx (start_session idn (sc_id c) session_id) (\<lambda>(session, _).
     ret (applied (sc_id c) (RSession session))))"

definition apply_import :: "auth_identity \<Rightarrow> sync_command \<Rightarrow> (db, sync_result) tx" where
  "apply_import idn c = (case sc_entity c of
       None \<Rightarrow> raise validation_error
     | Some i \<Rightarrow>
         if i = nil_uuid then raise validation_error
         else (case strict_payload (sc_payload c) of
             Inl e \<Rightarrow> raise e
           | Inr p \<Rightarrow>
             bind_tx (import_solo_session idn (sc_id c) i (sp_started_at p) (sp_completed_at p))
             (\<lambda>(session, _). ret (applied (sc_id c) (RSession session)))))"

definition apply_note :: "auth_identity \<Rightarrow> sync_command \<Rightarrow> (db, sync_result) tx" where
  "apply_note idn c = (case sc_entity c of
       None \<Rightarrow> raise validation_error
     | Some i \<Rightarrow> (case strict_payload (sc_payload c) of
           Inl e \<Rightarrow> raise e
         | Inr p \<Rightarrow>
           if rune_count (sp_body p) < 1 \<or> 120 < rune_count (sp_body p) then raise validation_error
           else bind_tx (add_note idn i (sc_id c) (sp_body p))
             (\<lambda>(note, _). ret (applied (sc_id c) (RNote note)))))"

definition apply_cheer :: "auth_identity \<Rightarrow> sync_command \<Rightarrow> (db, sync_result) tx" where
  "apply_cheer idn c = (case sc_entity c of
       None \<Rightarrow> raise validation_error
     | Some i \<Rightarrow> bind_tx (add_cheer idn i (sc_id c))
         (\<lambda>(cheer, _). ret (applied (sc_id c) (RCheer cheer))))"

definition apply_sync_command :: "auth_identity \<Rightarrow> sync_command \<Rightarrow> (db, sync_result) tx" where
  "apply_sync_command idn c =
     (if sc_id c = nil_uuid
      then raise (as_error (app_new 422 ''invalid_command'' ''Each command needs a stable UUID.''))
      else if sc_type c = ''session.start'' then apply_start idn c
      else if sc_type c = ''session.import_solo'' then apply_import idn c
      else (case map_of transition_types (sc_type c) of
          Some action \<Rightarrow> apply_transition idn c action
        | None \<Rightarrow>
            if sc_type c = ''session.note'' then apply_note idn c
            else if sc_type c = ''session.cheer'' then apply_cheer idn c
            else raise (as_error (app_new 422 ''unsupported_command''
                ''This command type is not supported.''))))"

section \<open>The request\<close>

text \<open>An error below 500 becomes the result of its command; the others end the request.\<close>

definition sync_result_of :: "sync_command \<Rightarrow> go_error \<Rightarrow> sync_result" where
  "sync_result_of c e = \<lparr>sr_id = sc_id c, sr_applied = False, sr_resource = None,
     sr_error = Some \<lparr>se_code = app_code (fst (map_error (Some e))),
       se_message = app_message (fst (map_error (Some e)))\<rparr>\<rparr>"

definition sync_one :: "auth_identity \<Rightarrow> sync_command \<Rightarrow> (db, sync_result) tx" where
  "sync_one idn c w d = (case apply_sync_command idn c w d of
       (Inr r, w', d') \<Rightarrow> (Inr r, w', d')
     | (Inl e, w', d') \<Rightarrow>
         if 500 \<le> app_status (fst (map_error (Some e))) then (Inl e, w', d')
         else (Inr (sync_result_of c e), w', d'))"

definition sync_limit :: "sync_request \<Rightarrow> int" where
  "sync_limit body = (if sq_limit body = 0 then 200 else sq_limit body)"

definition sync :: "auth_identity \<Rightarrow> sync_request \<Rightarrow> (db, sync_reply) tx" where
  "sync idn body =
     (if sq_cursor body < 0 \<or> 100 < length (sq_commands body) then raise validation_error
      else if sync_limit body < 1 \<or> 500 < sync_limit body then raise validation_error
      else
      bind_tx (map_each (sq_commands body) (sync_one idn)) (\<lambda>results.
      bind_tx (current_session idn) (\<lambda>current.
      bind_tx (pair_events idn (sq_cursor body) (sync_limit body)) (\<lambda>(evs, next).
      bind_tx go_now (\<lambda>now.
      ret \<lparr>sy_server_time = now, sy_cursor = next, sy_events = evs,
        sy_has_more = (int (length evs) = sync_limit body), sy_results = results,
        sy_current = current\<rparr>)))))"

section \<open>A request is a run of the store\<close>

text \<open>
  Everything a sync request does to the shared state it does through the operations of
  \<open>served\<close>, one after the other; the request as a whole is not atomic.
\<close>

lemma bind_ret_run:
  assumes "bind_tx m (\<lambda>(x, y). ret (f x y)) w d = (r, w', d')"
  obtains r0 where "m w d = (r0, w', d')"
  using assms by (cases "m w d" rule: prod_cases3) (auto simp: bind_tx_def ret_def split: sum.splits)

lemma command_served:
  assumes "bind_tx m (\<lambda>(x, y). ret (f x y)) w d = (r, w', d')"
    and "served (w, d) (after_op m (w, d))"
  shows "served\<^sup>*\<^sup>* (w, d) (w', d')"
  using assms(1) by (rule bind_ret_run) (rule served_op [OF _ assms(2)])

lemma apply_transition_served:
  "apply_transition idn c a w d = (r, w', d') \<Longrightarrow> served\<^sup>*\<^sup>* (w, d) (w', d')"
  unfolding apply_transition_def
  by (auto simp: raise_def split: option.splits if_splits
      elim: command_served [OF _ served.join] command_served [OF _ served.transition])

lemma apply_start_served:
  assumes "apply_start idn c w d = (r, w', d')"
  shows "served\<^sup>*\<^sup>* (w, d) (w', d')"
proof -
  obtain i w1 where run: "bind_tx (start_session idn (sc_id c) i)
      (\<lambda>(session, _). ret (applied (sc_id c) (RSession session))) w1 d = (r, w', d')"
    and adv: "advance w w1"
    using assms unfolding apply_start_def
    by (auto simp: bind_tx_def [of new_uuid] bind_tx_def [of "ret _"] new_uuid_def ret_def [of _ w]
        split: option.splits if_splits)
  have "served\<^sup>*\<^sup>* (w1, d) (w', d')" using run by (rule command_served [OF _ served.start])
  with served_wait [OF adv] show ?thesis by (rule rtranclp_trans)
qed

lemma apply_import_served:
  "apply_import idn c w d = (r, w', d') \<Longrightarrow> served\<^sup>*\<^sup>* (w, d) (w', d')"
  unfolding apply_import_def
  by (auto simp: raise_def split: option.splits if_splits sum.splits
      elim: command_served [OF _ served.import_solo])

lemma apply_note_served:
  "apply_note idn c w d = (r, w', d') \<Longrightarrow> known idn d \<Longrightarrow> served\<^sup>*\<^sup>* (w, d) (w', d')"
  unfolding apply_note_def
  by (auto simp: raise_def split: option.splits if_splits sum.splits
      elim!: command_served [OF _ served.add_note])

lemma apply_cheer_served:
  "apply_cheer idn c w d = (r, w', d') \<Longrightarrow> served\<^sup>*\<^sup>* (w, d) (w', d')"
  unfolding apply_cheer_def
  by (auto simp: raise_def split: option.splits elim: command_served [OF _ served.add_cheer])

lemma apply_sync_command_served:
  assumes "apply_sync_command idn c w d = (r, w', d')" and "known idn d"
  shows "served\<^sup>*\<^sup>* (w, d) (w', d')"
  using assms unfolding apply_sync_command_def
  by (auto simp: raise_def split: option.splits if_splits
      intro: apply_start_served apply_import_served apply_transition_served apply_note_served
        apply_cheer_served)

lemma sync_one_served:
  assumes "sync_one idn c w d = (r, w', d')" and "known idn d"
  shows "served\<^sup>*\<^sup>* (w, d) (w', d')"
proof -
  obtain r0 where "apply_sync_command idn c w d = (r0, w', d')"
    using assms(1) unfolding sync_one_def by (auto split: prod.splits sum.splits if_splits)
  then show ?thesis using assms(2) by (rule apply_sync_command_served)
qed

lemma served_known:
  assumes "served\<^sup>*\<^sup>* (w, d) (w', d')" and "good (w, d)"
  shows "known idn d' = known idn d"
proof (rule known_cong)
  show "accounts d' = accounts d"
    using pair_run_accounts [OF served_good(2) [OF assms]] by (simp only: snd_conv)
qed

lemma sync_all_served:
  "map_each cs (sync_one idn) w d = (r, w', d') \<Longrightarrow> known idn d \<Longrightarrow> good (w, d) \<Longrightarrow>
   served\<^sup>*\<^sup>* (w, d) (w', d')"
proof (induction cs arbitrary: w d r w' d')
  case Nil
  then show ?case by (simp add: ret_def)
next
  case (Cons c cs)
  obtain r1 w1 d1 where one: "sync_one idn c w d = (r1, w1, d1)"
    by (cases "sync_one idn c w d" rule: prod_cases3) auto
  have s1: "served\<^sup>*\<^sup>* (w, d) (w1, d1)" using one Cons.prems(2) by (rule sync_one_served)
  show ?case
  proof (cases r1)
    case (Inl e)
    with Cons.prems(1) one s1 show ?thesis by (simp add: bind_tx_def)
  next
    case (Inr v)
    obtain r2 w2 d2 where rest: "map_each cs (sync_one idn) w1 d1 = (r2, w2, d2)"
      by (cases "map_each cs (sync_one idn) w1 d1" rule: prod_cases3) auto
    have "w' = w2" "d' = d2" using Cons.prems(1) one Inr rest
      by (cases r2; simp add: bind_tx_def ret_def)+
    moreover have "served\<^sup>*\<^sup>* (w1, d1) (w2, d2)"
      by (rule Cons.IH [OF rest])
         (simp_all add: served_known [OF s1 Cons.prems(3)] served_good(1) [OF s1 Cons.prems(3)]
           Cons.prems(2))
    ultimately show ?thesis using s1 by (auto intro: rtranclp_trans)
  qed
qed

text \<open>A request that is answered: its commands, then the two reads.\<close>

lemma sync_answered:
  assumes "sync idn body w d = (Inr reply, w', d')" and "known idn d" and "good (w, d)"
  obtains w1 d1 w2 w3 where "served\<^sup>*\<^sup>* (w, d) (w1, d1)"
    and "map_each (sq_commands body) (sync_one idn) w d = (Inr (sy_results reply), w1, d1)"
    and "current_session idn w1 d1 = (Inr (sy_current reply), w2, d')"
    and "pair_events idn (sq_cursor body) (sync_limit body) w2 d'
      = (Inr (sy_events reply, sy_cursor reply), w3, d')"
    and "w' = tick w3" and "0 \<le> sq_cursor body" and "length (sq_commands body) \<le> 100"
    and "1 \<le> sync_limit body"
    and "sync_limit body \<le> 500"
    and "sy_has_more reply = (int (length (sy_events reply)) = sync_limit body)"
proof -
  let ?rest = "bind_tx (map_each (sq_commands body) (sync_one idn)) (\<lambda>results.
      bind_tx (current_session idn) (\<lambda>current.
      bind_tx (pair_events idn (sq_cursor body) (sync_limit body)) (\<lambda>(evs, next).
      bind_tx go_now (\<lambda>now.
      ret \<lparr>sy_server_time = now, sy_cursor = next, sy_events = evs,
        sy_has_more = (int (length evs) = sync_limit body), sy_results = results,
        sy_current = current\<rparr>))))"
  have ok: "\<not> (sq_cursor body < 0 \<or> 100 < length (sq_commands body))"
    using assms(1) unfolding sync_def by (cases "sq_cursor body < 0 \<or> 100 < length (sq_commands body)") (simp_all add: raise_def)
  have ok': "\<not> (sync_limit body < 1 \<or> 500 < sync_limit body)"
    using assms(1) ok unfolding sync_def
    by (cases "sync_limit body < 1 \<or> 500 < sync_limit body") (simp_all add: raise_def)
  have "?rest w d = (Inr reply, w', d')" using assms(1) ok ok' unfolding sync_def by simp
  then obtain results w1 d1 current w2 d2 evs nx w3 d3 where run:
    "map_each (sq_commands body) (sync_one idn) w d = (Inr results, w1, d1)"
    "current_session idn w1 d1 = (Inr current, w2, d2)"
    "pair_events idn (sq_cursor body) (sync_limit body) w2 d2 = (Inr (evs, nx), w3, d3)"
    "d' = d3" "w' = tick w3"
    "reply = \<lparr>sy_server_time = w_now w3 (w_step w3), sy_cursor = nx, sy_events = evs,
        sy_has_more = (int (length evs) = sync_limit body), sy_results = results, sy_current = current\<rparr>"
    unfolding run_bind run_go_now run_ret split_paired_Ex prod.case by blast
  have "d3 = d2" using run(3) by (rule pair_events_unchanged)
  then show thesis using that [of w1 d1 w2 w3] sync_all_served [OF run(1) assms(2,3)] run ok ok'
    by (simp add: not_less)
qed

lemma sync_served:
  assumes "sync idn body w d = (Inr reply, w', d')" and "known idn d" and "good (w, d)"
  shows "served\<^sup>*\<^sup>* (w, d) (w', d')"
  using assms
proof (rule sync_answered)
  fix w1 d1 w2 w3
  assume s: "served\<^sup>*\<^sup>* (w, d) (w1, d1)"
    and c: "current_session idn w1 d1 = (Inr (sy_current reply), w2, d')"
    and e: "pair_events idn (sq_cursor body) (sync_limit body) w2 d'
      = (Inr (sy_events reply, sy_cursor reply), w3, d')" and w': "w' = tick w3"
  note s
  also have "served\<^sup>*\<^sup>* (w1, d1) (w2, d')" using c by (rule served_op) (rule served.read_current)
  also have "served\<^sup>*\<^sup>* (w2, d') (w3, d')" using e by (rule served_op) (rule served.read_events)
  also have "served\<^sup>*\<^sup>* (w3, d') (w', d')" unfolding w' by (rule served_wait) simp
  finally show ?thesis .
qed

end
