(* ===== verification/CommandProperties.thy ===== *)
theory CommandProperties
  imports SyncHandler Scenario PairHistory
begin

text \<open>
  What one writing command does and promises: what a transition changes, that a stale version
  never commits, that a failure changes nothing, that an idempotency key is applied at most
  once; and the order of the pair log, the spacing of cheers.
\<close>

section \<open>Commands as requests\<close>

lemma issue_served:
  assumes "issue idn key c w d = (r, w', d')" and "known idn d"
  shows "served\<^sup>*\<^sup>* (w, d) (w', d')"
proof (cases c)
  case (StartSession i)
  with assms(1) show ?thesis by (auto elim!: issue_run intro: served_op [OF _ served.start])
next
  case (ImportSoloSession i st en)
  with assms(1) show ?thesis by (auto elim!: issue_run intro: served_op [OF _ served.import_solo])
next
  case (TransitionSession i v a)
  with assms(1) show ?thesis by (auto elim!: issue_run intro: served_op [OF _ served.transition])
next
  case (AddNote i b)
  with assms show ?thesis
    by (auto elim!: issue_run intro: served_op [OF _ served.add_note [of idn "(w, d)"]])
next
  case (AddCheer i)
  with assms(1) show ?thesis by (auto elim!: issue_run intro: served_op [OF _ served.add_cheer])
qed

section \<open>Transitions\<close>

lemma transition_effect:
  assumes "transition_session idn i key v a w d = (Inr (s, False), w', d')" and "sessions_inv d"
  obtains p r r' ms c tc where "id_pair idn = Some p" and "r \<in> set (sessions d)" and "fs_id r = i"
    and "fs_pair r = p" and "fs_version r = v" and "pair_member p (id_account idn) d"
    and "row_step r a (fs_updated_at r') r'" and "newcomers d r a ms"
    and "ms = [] \<or> sm_account ` set ms = {id_account idn} \<and> fs_updated_at r' \<le> fs_ends_at r"
    and "sessions d' = update_where (\<lambda>x. fs_id x = i) (\<lambda>_. r') (sessions d)"
    and "session_members d' = session_members d @ ms" and "s = session_view d' r'"
    and "events d' = events d @ [\<lparr>pe_cursor = c, pe_pair = p, pe_type = event_type a,
       pe_entity = Some i, pe_actor = Some (id_account idn), pe_payload = PSession s,
       pe_created_at = tc\<rparr>]"
    and "w_seq w < c"
proof -
  obtain p where p: "id_pair idn = Some p" using assms(1) by (cases "id_pair idn") (auto simp: unpaired_fails)
  then have "idempotent_tx (id_account idn) key (operation_name a) session_of RSession
      (transition_body idn p i v a) w d = (Inr (s, False), w', d')"
    using assms(1) by (simp add: transition_session_frame)
  then obtain w1 w2 d1 n where adv: "advance w w1"
    and body: "transition_body idn p i v a w1 d = (Inr s, w2, d1)"
    and d': "d' = d1\<lparr>idempotency := idempotency d1 @
      [\<lparr>ik_account = id_account idn, ik_key = key, ik_operation = operation_name a,
        ik_response = RSession s, ik_expires_at = w_clock w n + 7 * 24 * hour\<rparr>]\<rparr>"
    by (rule transition_cmd.run_body)
  from body assms(2) obtain r n q now ms d2 c t where r: "r \<in> set (sessions d)" "fs_id r = i" "fs_pair r = p"
    "fs_version r = v" and ns: "next_state (fs_state r) (fs_pause_origin r) a = Inr (n, q)"
    and mem: "pair_member p (id_account idn) d" and ms: "newcomers d r a ms"
    and d2: "d2 = put_session (action_row a n q now r) (d\<lparr>session_members := session_members d @ ms\<rparr>)"
    and join: "ms \<noteq> [] \<longrightarrow> sm_account ` set ms = {id_account idn} \<and> now \<le> fs_ends_at r"
    and s: "s = session_view d2 (action_row a n q now r)"
    and d1: "d1 = add_event p (event_type a) (Some i) (Some (id_account idn)) (PSession s) c t d2"
    and c: "draws w1 w2 c"
    by (rule transition_body_effect)
  let ?r = "action_row a n q now r"
  have ok: "row_ok r" using assms(2) r(1) by (simp add: sessions_inv_def)
  with ns have step: "row_step r a (micros now) ?r" by (rule action_row_step)
  have up: "fs_updated_at ?r = micros now"
    using ns ok by (cases a) (auto simp: action_row_def row_defs row_ok_def split: option.splits if_splits)
  have rows: "sessions d' = update_where (\<lambda>x. fs_id x = i) (\<lambda>_. ?r) (sessions d)"
    "session_members d' = session_members d @ ms"
    by (simp_all add: d' d1 d2 add_event_def put_session_def r(2))
  have view: "s = session_view d' ?r"
    by (simp add: s d' d1 d2 add_event_def put_session_def session_view_def participants_of_def notes_of_def)
  have evs: "events d' = events d @ [\<lparr>pe_cursor = c, pe_pair = p, pe_type = event_type a,
       pe_entity = Some i, pe_actor = Some (id_account idn), pe_payload = PSession s, pe_created_at = t\<rparr>]"
    by (simp add: d' d1 d2 add_event_def put_session_def)
  have seq: "w_seq w < c" using adv c by (simp add: draws_def advance_def)
  have late: "ms = [] \<or> sm_account ` set ms = {id_account idn} \<and> fs_updated_at ?r \<le> fs_ends_at r"
    using join micros_le [of now] by (auto simp: up)
  show thesis using that [OF p r mem step [folded up] ms late rows view evs seq] .
qed

lemma transition_replay:
  "transition_session idn i key v a w d = (Inr (s, True), w', d') \<Longrightarrow> d' = d"
  by (cases "id_pair idn")
     (auto simp: unpaired_fails transition_session_frame dest: transition_cmd.command_returns)

text \<open>
  C4. A transition that succeeds, and is not a replay, found the session in the caller's pair
  at the version the caller expected; it takes the one step of the life cycle that the action
  allows, one version further, leaves every other session alone, appends one event, and
  returns the session as it is stored.
\<close>

theorem transition_does_one_step:
  assumes "reachable (w, d)" and "transition_session idn i key v a w d = (Inr (s, False), w', d')"
  shows "\<exists>p r r' c tc. id_pair idn = Some p \<and> r \<in> set (sessions d) \<and> fs_id r = i \<and> fs_pair r = p \<and>
     fs_version r = v \<and> pair_member p (id_account idn) d \<and> row_step r a (fs_updated_at r') r' \<and>
     sessions d' = update_where (\<lambda>x. fs_id x = i) (\<lambda>_. r') (sessions d) \<and>
     s = session_view d' r' \<and>
     events d' = events d @ [\<lparr>pe_cursor = c, pe_pair = p, pe_type = event_type a,
       pe_entity = Some i, pe_actor = Some (id_account idn), pe_payload = PSession s,
       pe_created_at = tc\<rparr>] \<and>
     w_seq w < c"
proof -
  have "sessions_inv d" using goodD(2) [OF reachable_good [OF assms(1)]] by simp
  with assms(2) show ?thesis by (rule transition_effect) blast
qed

lemma demo_pause_applied:
  "case transition_session bo 7 35 2 ActionPause (fst demo_room) demo_db of
     (Inr (s, b), _) \<Rightarrow> \<not> b | (Inl _, _) \<Rightarrow> False"
  by code_simp

lemma demo_pause_run:
  obtains s w d where "transition_session bo 7 35 2 ActionPause (fst demo_room) demo_db = (Inr (s, False), w, d)"
    and "demo_paused = (w, d)"
proof -
  obtain x w d where t: "transition_session bo 7 35 2 ActionPause (fst demo_room) demo_db = (x, w, d)"
    by (cases "transition_session bo 7 35 2 ActionPause (fst demo_room) demo_db" rule: prod_cases3)
  obtain s where "x = Inr (s, False)" using demo_pause_applied by (simp add: t split: sum.splits prod.splits)
  moreover have "demo_paused = (w, d)" using t by (simp add: demo_paused_def after_op_def demo_room_def)
  ultimately show thesis using that t by blast
qed

theorem transition_does_one_step_witness:
  "\<exists>s w d r r'. transition_session bo 7 35 2 ActionPause (fst demo_room) demo_db = (Inr (s, False), w, d) \<and>
     r \<in> set (sessions demo_db) \<and> row_step r ActionPause (fs_updated_at r') r' \<and> s = session_view d r'"
proof (rule demo_pause_run)
  fix s w d
  assume t: "transition_session bo 7 35 2 ActionPause (fst demo_room) demo_db = (Inr (s, False), w, d)"
  have "reachable (fst demo_room, demo_db)" using demo_room_reachable by (simp add: demo_room_def)
  from transition_does_one_step [OF this t] t show ?thesis by blast
qed

text \<open>
  C5. No update is lost: of two transitions that name the same version of a session, whoever
  sends them and whatever is served in between, the second is never applied.
\<close>

theorem one_winner_per_version:
  assumes "reachable (w, d)" and "transition_session idn i key v a w d = (Inr (s, False), w1, d1)"
    and "served\<^sup>*\<^sup>* (w1, d1) (w2, d2)"
    and "transition_session idn' i key' v b w2 d2 = (r, w3, d3)"
  shows "(\<nexists>x. r = Inr (x, False)) \<and> d3 = d2"
proof -
  have g: "good (w, d)" using assms(1) by (rule reachable_good)
  have "served (w, d) (w1, d1)"
    using served.transition [of "(w, d)" idn i key v a] by (simp add: after_op_def assms(2))
  then have g1: "good (w1, d1)" using g by (rule good_served)
  note run = served_good [OF assms(3) g1]
  have no: "r \<noteq> Inr (x, False)" for x
  proof
    assume "r = Inr (x, False)"
    with assms(4) obtain q where q: "q \<in> set (sessions d2)" "fs_id q = i" "fs_version q = v"
      using goodD(2) [OF run(1)] by (auto elim: transition_effect)
    obtain r' where r': "r' \<in> set (sessions d1)" "fs_id r' = i" "fs_version r' = v + 1"
    proof (rule transition_effect [OF assms(2)])
      show "sessions_inv d" using goodD(2) [OF g] by simp
    next
      fix p r0 r' ms
      assume "r0 \<in> set (sessions d)" "fs_id r0 = i" "fs_version r0 = v" "row_step r0 a (fs_updated_at r') r'"
        "sessions d1 = update_where (\<lambda>x. fs_id x = i) (\<lambda>_. r') (sessions d)"
      then show thesis using that [of r'] by (auto simp: set_update_where row_step_def same_room_def)
    qed
    obtain r2 where "r2 \<in> set (sessions d2)" "fs_id r2 = i" "v + 1 \<le> fs_version r2"
      using pair_run_session [OF run(2), of r'] goodD(2) [OF g1] r' by (auto simp: same_room_def)
    moreover have "distinct (map fs_id (sessions d2))"
      using goodD(2) [OF run(1)] by (simp add: sessions_inv_def sessions_unique_def)
    ultimately have "r2 = q" using q by (metis distinct_key_eq)
    then show False using q(3) \<open>v + 1 \<le> fs_version r2\<close> by simp
  qed
  moreover have "d3 = d2"
  proof (cases r)
    case (Inl e)
    then show ?thesis using assms(4) by (auto dest: command_error_unchanged(2))
  next
    case (Inr y)
    with no have "r = Inr (fst y, True)" by (metis (full_types) prod.collapse)
    then show ?thesis using assms(4) by (auto dest: transition_replay)
  qed
  ultimately show ?thesis by blast
qed

theorem one_winner_per_version_witness:
  "\<exists>r w. transition_session ada 7 36 2 ActionComplete (fst demo_paused) (snd demo_paused)
     = (r, w, snd demo_paused)"
proof (rule demo_pause_run)
  fix s w d
  assume t: "transition_session bo 7 35 2 ActionPause (fst demo_room) demo_db = (Inr (s, False), w, d)"
    and p: "demo_paused = (w, d)"
  have r: "reachable (fst demo_room, demo_db)" using demo_room_reachable by (simp add: demo_room_def)
  obtain x w3 d3 where c: "transition_session ada 7 36 2 ActionComplete w d = (x, w3, d3)"
    by (cases "transition_session ada 7 36 2 ActionComplete w d" rule: prod_cases3)
  have "d3 = d" using one_winner_per_version [OF r t rtranclp.rtrancl_refl c] by blast
  with c show ?thesis by (auto simp: p)
qed

text \<open>
  C11. A pause does not cost time: when a session resumes, the time between the resumption and
  its new end is the time that was left when the pause began.
\<close>

theorem resume_keeps_remaining_time:
  assumes "reachable (w, d)"
    and "transition_session idn i key v ActionResume w d = (Inr (s, False), w', d')"
  shows "\<exists>r r' t0. r \<in> set (sessions d) \<and> fs_id r = i \<and> fs_paused_at r = Some t0 \<and>
     r' \<in> set (sessions d') \<and> fs_id r' = i \<and> ses_ends_at s = fs_ends_at r' \<and>
     Some (ses_state s) = fs_pause_origin r \<and>
     fs_ends_at r' - fs_updated_at r' = fs_ends_at r - t0"
proof (rule transition_effect [OF assms(2)])
  show inv: "sessions_inv d" using goodD(2) [OF reachable_good [OF assms(1)]] by simp
  fix r r'
  assume r: "r \<in> set (sessions d)" "fs_id r = i" and st: "row_step r ActionResume (fs_updated_at r') r'"
    and d': "sessions d' = update_where (\<lambda>x. fs_id x = i) (\<lambda>_. r') (sessions d)"
    and s: "s = session_view d' r'"
  have "r' \<in> set (sessions d')" using r by (auto simp: d' set_update_where)
  moreover have "fs_id r' = i" using st r by (simp add: row_step_def same_room_def)
  moreover have "fs_state r = SessionPaused" "Some (fs_state r') = fs_pause_origin r"
    using st by (auto simp: row_step_def phase_of_def life_step_simps)
  moreover obtain t0 where "fs_paused_at r = Some t0"
    using inv r(1) \<open>fs_state r = SessionPaused\<close> by (auto simp: sessions_inv_def row_ok_def)
  moreover have "ses_ends_at s = fs_ends_at r'" "ses_state s = fs_state r'"
    by (simp_all add: s session_view_def session_of_row_def)
  moreover have "fs_ends_at r' - fs_updated_at r' = fs_ends_at r - t0"
    using st \<open>fs_paused_at r = Some t0\<close> by (simp add: row_step_def)
  ultimately show ?thesis using r by (metis (no_types))
qed

lemma demo_resume_applied:
  "case demo_paused of (w, d) \<Rightarrow> (case transition_session ada 7 36 3 ActionResume w d of
     (Inr (s, b), _) \<Rightarrow> \<not> b | (Inl _, _) \<Rightarrow> False)"
  by code_simp

theorem resume_keeps_remaining_time_witness:
  "\<exists>s w d r'. transition_session ada 7 36 3 ActionResume (fst demo_paused) (snd demo_paused)
       = (Inr (s, False), w, d) \<and> ses_state s = SessionTogether \<and>
     r' \<in> set (sessions d) \<and> fs_ends_at r' - fs_updated_at r' = 1522 * second - 67 * second"
proof -
  obtain w0 d0 where p: "demo_paused = (w0, d0)" by (cases demo_paused)
  obtain x w d where t: "transition_session ada 7 36 3 ActionResume w0 d0 = (x, w, d)"
    by (cases "transition_session ada 7 36 3 ActionResume w0 d0" rule: prod_cases3)
  obtain s where "x = Inr (s, False)"
    using demo_resume_applied by (simp add: p t split: sum.splits prod.splits)
  with t have t: "transition_session ada 7 36 3 ActionResume w0 d0 = (Inr (s, False), w, d)" by simp
  have rows: "sessions d0 = [demo_paused_row]" using demo_paused_computed by (simp add: p)
  have "reachable (w0, d0)" using demo_paused_reachable by (simp add: p)
  from resume_keeps_remaining_time [OF this t] rows t show ?thesis
    by (auto simp: p demo_paused_row_def demo_row_def)
qed

text \<open>
  C17. Only the partner joins, and only in time: a join that succeeds is by a member of the pair
  other than the starter who was not there yet, no later than the end of the session, and
  afterwards the caller is in the session.
\<close>

theorem join_brings_partner_in:
  assumes "reachable (w, d)" and "join_session idn i key v w d = (Inr (s, False), w', d')"
  shows "\<exists>r r'. r \<in> set (sessions d) \<and> fs_id r = i \<and> fs_state r = SessionOpen \<and>
     fs_started_by r \<noteq> id_account idn \<and> pair_member (fs_pair r) (id_account idn) d \<and>
     \<not> in_session d i (id_account idn) \<and> in_session d' i (id_account idn) \<and>
     r' \<in> set (sessions d') \<and> fs_id r' = i \<and> fs_state r' = SessionTogether \<and>
     fs_updated_at r' \<le> fs_ends_at r \<and> fs_ends_at r' = fs_ends_at r"
proof (rule transition_effect [OF assms(2) [unfolded join_session_def]])
  show inv: "sessions_inv d" using goodD(2) [OF reachable_good [OF assms(1)]] by simp
  fix p r r' ms
  assume r: "r \<in> set (sessions d)" "fs_id r = i" "fs_pair r = p" "pair_member p (id_account idn) d"
    and st: "row_step r ActionJoin (fs_updated_at r') r'"
    and ms: "newcomers d r ActionJoin ms"
      "ms = [] \<or> sm_account ` set ms = {id_account idn} \<and> fs_updated_at r' \<le> fs_ends_at r"
    and d': "sessions d' = update_where (\<lambda>x. fs_id x = i) (\<lambda>_. r') (sessions d)"
      "session_members d' = session_members d @ ms"
  obtain tj where m: "ms = [\<lparr>sm_session = i, sm_account = id_account idn, sm_joined_at = tj\<rparr>]"
    "id_account idn \<noteq> fs_started_by r" "\<not> in_session d i (id_account idn)" "fs_updated_at r' \<le> fs_ends_at r"
    using ms r(2) by (auto simp: newcomers_def)
  have "in_session d' i (id_account idn)" by (simp add: in_session_def d'(2) m(1) member_key_def)
  moreover have "r' \<in> set (sessions d')" using r by (auto simp: d' set_update_where)
  moreover have "fs_id r' = i" using st r by (simp add: row_step_def same_room_def)
  moreover have op: "fs_state r = SessionOpen" "fs_state r' = SessionTogether"
    using st by (auto simp: row_step_def phase_of_def life_step_simps)
  moreover have "fs_paused_at r = None" using inv r(1) op(1) by (auto simp: sessions_inv_def row_ok_def)
  then have "fs_ends_at r' = fs_ends_at r" using st by (simp add: row_step_def)
  moreover have "pair_member (fs_pair r) (id_account idn) d" using r(3,4) by simp
  moreover have "fs_started_by r \<noteq> id_account idn" using m(2) by simp
  ultimately show ?thesis using r(1,2) m(3,4) by (metis (no_types))
qed

theorem join_brings_partner_in_witness:
  "\<exists>w r. \<not> in_session (snd demo_opened) 7 2 \<and> in_session demo_db 7 2 \<and>
     join_session bo 7 32 1 (fst demo_opened) (snd demo_opened) = (r, w, demo_db)"
proof (rule demo_join_applied)
  fix w0 d0 s w
  assume o: "demo_opened = (w0, d0)" and j: "join_session bo 7 32 1 w0 d0 = (Inr (s, False), w, demo_db)"
  have "reachable (w0, d0)" using demo_opened_reachable by (simp add: o)
  from join_brings_partner_in [OF this j] j show ?thesis by (auto simp: o bo_def)
qed

section \<open>Failures and keys\<close>


lemma demo_second_start_fails:
  "fst (issue bo 50 (StartSession 9) (fst demo_room) demo_db) = Inl (Sentinel ErrActiveSession)"
  by code_simp



lemma demo_cheer_run:
  "case issue bo 43 (AddCheer 7) (fst demo_room) demo_db of
     (Inr (x, b), _) \<Rightarrow> \<not> b | (Inl _, _) \<Rightarrow> False"
  by code_simp


section \<open>The log\<close>



end
