(* ===== verification/RoomProperties.thy ===== *)
theory RoomProperties
  imports CommandProperties
begin

text \<open>
  How a focus session begins and ends: what a start creates, that reading the current session
  first ends what has run out, and that cheers in a room keep their distance.
\<close>

section \<open>Starting\<close>

lemma start_effect:
  assumes run: "start_body idn p i w d = (Inr s, w', d')" and g: "good (w, d)"
  obtains now clock w2 d2 where "good (w2, d2)" and "pair_run (w, d) (w2, d2)"
    and "\<not> session_exists d2 i" and "\<not> list_ex (\<lambda>x. fs_pair x = p \<and> active x) (sessions d2)"
    and "sessions d' = sessions d2 @ [started_row i p (id_account idn) now clock]"
    and "session_members d' = session_members d2 @
      [\<lparr>sm_session = i, sm_account = id_account idn, sm_joined_at = micros now\<rparr>]"
    and "s = session_view d' (started_row i p (id_account idn) now clock)"
proof -
  obtain w1 d1 w2 d2 now clock d3 d4 w6 d6 w7 c d7 where
    m: "require_pair_member p (id_account idn) w d = (Inr (), w1, d1)" and
    e: "complete_elapsed_session p w1 d1 = (Inr (), w2, d2)" and
    free: "\<not> list_ex (\<lambda>s. fs_pair s = p \<and> active s) (sessions d2)" and
    ins: "insert_session (started_row i p (id_account idn) now clock) d2 = Inr d3" and
    insm: "insert_session_member \<lparr>sm_session = i, sm_account = id_account idn,
      sm_joined_at = micros now\<rparr> d3 = Inr d4" and
    rd: "read_session i (tick (tick (tick (tick w2)))) d4 = (Inr s, w6, d6)" and
    ev: "append_pair_event p ''session.started'' (Some i) (Some (id_account idn)) (PSession s) w6 d6
      = (Inr c, w7, d7)" and
    q: "enqueue_partner_notification p (id_account idn) c ''focus_started'' focus_started_push w7 d7
      = (Inr (), w', d')"
    using run unfolding start_body_def by (auto simp: tx_simps split: if_splits)
  let ?r = "started_row i p (id_account idn) now clock"
  have w1: "w1 = tick w" "d1 = d" using require_member_run [OF m] by auto
  then have 1: "pair_run (w, d) (w2, d2)"
    using complete_elapsed_run [OF e] goodD(2) [OF g] by (auto intro: run_idle_before)
  have new: "\<not> session_exists d2 i" and d3: "d3 = d2\<lparr>sessions := sessions d2 @ [?r]\<rparr>"
    using ins by (auto simp: insert_session_def write_sessions_def sessions_unique_def
        session_exists_def started_row_def)
  have d4: "d4 = d2\<lparr>sessions := sessions d2 @ [?r], session_members := session_members d2 @
      [\<lparr>sm_session = i, sm_account = id_account idn, sm_joined_at = micros now\<rparr>]\<rparr>"
    using insm unfolding d3 by (auto simp: insert_session_member_def)
  obtain x where x: "x \<in> set (sessions d4)" "fs_id x = i" "s = session_view d4 x" "d6 = d4"
    using rd by (rule read_session_run)
  have "x = ?r" using x(1,2) new imageI [of x "set (sessions d2)" fs_id]
    by (auto simp: d4 session_exists_def)
  obtain t where d7: "d7 = add_event p ''session.started'' (Some i) (Some (id_account idn)) (PSession s) c t d6"
    using ev by (rule append_run)
  obtain js where d': "d' = d7\<lparr>jobs := jobs d7 @ js\<rparr>"
    using q unfolding enqueue_partner_notification_def by (auto simp: tx_simps insert_jobs_def)
  have "sessions d' = sessions d2 @ [?r]" and "session_members d' = session_members d2 @
      [\<lparr>sm_session = i, sm_account = id_account idn, sm_joined_at = micros now\<rparr>]"
    by (simp_all add: d' d7 x(4) d4 add_event_def)
  moreover have "s = session_view d' ?r"
    using x(3) \<open>x = ?r\<close> by (simp add: d' d7 x(4) d4 add_event_def session_view_def
        participants_of_def notes_of_def)
  ultimately show thesis using that [OF good_run [OF 1 g] 1 new free] by blast
qed

lemma started_row_fields:
  "fs_id (started_row i p a now clock) = i" "fs_pair (started_row i p a now clock) = p"
  "fs_started_by (started_row i p a now clock) = a" "fs_state (started_row i p a now clock) = SessionOpen"
  "fs_version (started_row i p a now clock) = 1"
  "fs_ends_at (started_row i p a now clock) = fs_started_at (started_row i p a now clock) + 25 * minute"
proof -
  have "micros (now + 25 * minute) = micros now + 25 * minute"
    using micros_add [of now "25 * 60 * 1000000"] by simp
  then show "fs_ends_at (started_row i p a now clock) = fs_started_at (started_row i p a now clock) + 25 * minute"
    by (simp add: started_row_def)
qed (simp_all add: started_row_def)

lemma run_keeps_ids:
  assumes "pair_run (w, d) (w', d')" and "sessions_inv d" and "\<not> session_exists d' i"
  shows "\<not> session_exists d i"
proof
  assume "session_exists d i"
  then obtain x where "x \<in> set (sessions d)" "fs_id x = i" by (auto simp: session_exists_def)
  then have "\<exists>y \<in> set (sessions d'). fs_id y = i"
    using pair_run_session [OF assms(1), of x] assms(2) by (auto simp: same_room_def)
  with assms(3) show False by (auto simp: session_exists_def)
qed

text \<open>
  C16. A start that succeeds creates a session that did not exist: open, at version 1, ending 25
  minutes after it began, with the caller alone in it; it is then the only running session of
  the pair, and the answer is the session as stored.
\<close>

theorem start_opens_room:
  assumes "reachable (w, d)" and "start_session idn key i w d = (Inr (s, False), w', d')"
  shows "\<exists>r \<in> set (sessions d'). fs_id r = i \<and> Some (fs_pair r) = id_pair idn \<and>
     fs_started_by r = id_account idn \<and> fs_state r = SessionOpen \<and> fs_version r = 1 \<and>
     fs_ends_at r = fs_started_at r + 25 * minute \<and> s = session_view d' r \<and>
     {a. in_session d' i a} = {id_account idn} \<and> \<not> session_exists d i \<and>
     {x \<in> set (sessions d'). fs_pair x = fs_pair r \<and> active x} = {r}"
proof -
  have g: "good (w, d)" using assms(1) by (rule reachable_good)
  obtain p where p: "id_pair idn = Some p" using assms(2) by (cases "id_pair idn") (auto simp: unpaired_fails)
  then have "idempotent_tx (id_account idn) key ''session.start'' session_of RSession
      (start_body idn p i) w d = (Inr (s, False), w', d')"
    using assms(2) by (simp add: start_session_frame)
  then obtain w1 w2 d1 n where adv: "advance w w1" and body: "start_body idn p i w1 d = (Inr s, w2, d1)"
    and d': "d' = d1\<lparr>idempotency := idempotency d1 @
      [\<lparr>ik_account = id_account idn, ik_key = key, ik_operation = ''session.start'',
        ik_response = RSession s, ik_expires_at = w_clock w n + 7 * 24 * hour\<rparr>]\<rparr>"
    by (rule start_cmd.run_body)
  have g1: "good (w1, d)" using good_served [OF served.wait [of "(w, d)" w1] g] adv by simp
  obtain now clock w3 d2 where g2: "good (w3, d2)" and run: "pair_run (w1, d) (w3, d2)"
    and new: "\<not> session_exists d2 i" and free: "\<not> list_ex (\<lambda>x. fs_pair x = p \<and> active x) (sessions d2)"
    and rows: "sessions d1 = sessions d2 @ [started_row i p (id_account idn) now clock]"
    and mem: "session_members d1 = session_members d2 @
      [\<lparr>sm_session = i, sm_account = id_account idn, sm_joined_at = micros now\<rparr>]"
    and s: "s = session_view d1 (started_row i p (id_account idn) now clock)"
    using body g1 by (rule start_effect)
  let ?r = "started_row i p (id_account idn) now clock"
  have fresh: "\<not> session_exists d i" 
    by (rule run_keeps_ids [OF run _ new]) (use goodD(2) [OF g1] in simp)
  have "\<not> in_session d2 i a" for a
    using goodD(4) [OF g2] new by (auto simp: presence_inv_def in_session_def member_key_def)
  then have alone: "{a. in_session d' i a} = {id_account idn}"
    by (auto simp: in_session_def d' mem member_key_def image_iff)
  have only: "{x \<in> set (sessions d'). fs_pair x = fs_pair ?r \<and> active x} = {?r}"
    using free by (auto simp: d' rows list_ex_iff started_row_def active_def active_state_def)
  have view: "s = session_view d' ?r"
    by (simp add: s d' session_view_def participants_of_def notes_of_def)
  have fields: "fs_id ?r = i" "Some (fs_pair ?r) = id_pair idn" "fs_started_by ?r = id_account idn"
    "fs_state ?r = SessionOpen" "fs_version ?r = 1" "fs_ends_at ?r = fs_started_at ?r + 25 * minute"
    by (simp_all add: started_row_fields p)
  have "?r \<in> set (sessions d')" by (simp add: d' rows)
  then show ?thesis by (rule bexI [rotated]) (intro conjI fields view alone fresh only)
qed

lemma demo_start_applied:
  "case demo_paired of (w, d) \<Rightarrow> (case start_session ada 31 7 w d of
     (Inr (s, b), _) \<Rightarrow> \<not> b | (Inl _, _) \<Rightarrow> False)"
  by code_simp

theorem start_opens_room_witness:
  "\<exists>s w d r. start_session ada 31 7 (fst demo_paired) (snd demo_paired) = (Inr (s, False), w, d) \<and>
     r \<in> set (sessions d) \<and> fs_id r = 7 \<and> fs_state r = SessionOpen \<and> {a. in_session d 7 a} = {1}"
proof -
  obtain w0 d0 where p: "demo_paired = (w0, d0)" by (cases demo_paired)
  obtain x w d where t: "start_session ada 31 7 w0 d0 = (x, w, d)"
    by (cases "start_session ada 31 7 w0 d0" rule: prod_cases3)
  obtain s where "x = Inr (s, False)"
    using demo_start_applied by (simp add: p t split: sum.splits prod.splits)
  with t have t: "start_session ada 31 7 w0 d0 = (Inr (s, False), w, d)" by simp
  have "reachable (w0, d0)" unfolding p [symmetric] demo_paired_def
    by (rule reachable_step [OF demo_invited_reachable served.accept_invite])
  from start_opens_room [OF this t] t show ?thesis by (auto simp: p ada_def)
qed

section \<open>What has run out is ended before it is shown\<close>

lemma append_sessions:
  "append_pair_event p ty en ac pl w d = (Inr c, w', d') \<Longrightarrow> sessions d' = sessions d"
  by (erule append_run) (simp add: add_event_def)

lemma expire_sessions:
  assumes "expire_session p i w d = (Inr v, w', d')"
  obtains c where "sessions d' = update_where (\<lambda>s. fs_id s = i) (expire_row c) (sessions d)"
  using assms unfolding expire_session_def
  by (auto simp: tx_simps update_sessions_def write_sessions_def dest!: append_sessions read_session_unchanged)

lemma elapse_sessions:
  assumes "elapse_session p (i, e) w d = (Inr v, w', d')"
  obtains c where "sessions d' = update_where (\<lambda>s. fs_id s = i) (elapse_row e c) (sessions d)"
  using assms unfolding elapse_session_def
  by (auto simp: tx_simps update_sessions_def write_sessions_def dest!: append_sessions read_session_unchanged)

lemma filter_update_none:
  assumes "\<And>x. P x \<Longrightarrow> \<not> Q (f x)" and "\<And>x. x \<in> set xs \<Longrightarrow> Q x \<Longrightarrow> P x"
  shows "filter Q (update_where P f xs) = []"
  using assms by (auto simp: filter_empty_conv set_update_where)

lemma stale_pauses_update:
  assumes "\<And>x. x \<in> set (sessions d) \<Longrightarrow> P x \<Longrightarrow> fs_state (f x) \<noteq> SessionPaused"
    and "stale_pauses p c d = []" and "sessions d' = update_where P f (sessions d)"
  shows "stale_pauses p c d' = []"
  using assms by (auto simp: stale_pauses_def filter_empty_conv set_update_where)

text \<open>The first loop ends the pauses that are too long, the second the sessions whose time is over.\<close>

lemma expire_loop_done:
  assumes e: "for_each (stale_pauses p c d) (expire_session p) w d = (Inr (), w', d')" and inv: "sessions_inv d"
  shows "stale_pauses p c d' = []" and "sessions_inv d'"
proof -
  have u: "sessions_unique (sessions d)" using inv by (simp add: sessions_inv_def)
  have "stale_pauses p c d' = [] \<and> sessions_inv d'"
  proof (cases rule: stale_pauses_once [OF u, of p c])
    case 1
    with e inv show ?thesis by (simp add: run_ret)
  next
    case (2 r)
    with e have run: "expire_session p (fs_id r) w d = (Inr (), w', d')" by (auto simp: run_bind run_ret)
    then obtain t where d': "sessions d' = update_where (\<lambda>s. fs_id s = fs_id r) (expire_row t) (sessions d)"
      by (rule expire_sessions)
    have "fs_id x = fs_id r" if "x \<in> set (sessions d)" "fs_pair x = p \<and> fs_state x = SessionPaused \<and>
        (case fs_paused_at x of None \<Rightarrow> False | Some t \<Rightarrow> t \<le> c - 24 * hour)" for x
    proof -
      have "fs_id x \<in> set (stale_pauses p c d)" using that by (auto simp: stale_pauses_def)
      then show ?thesis using 2(1) by simp
    qed
    then have "stale_pauses p c d' = []"
      unfolding stale_pauses_def d' by (subst filter_update_none) (simp_all add: expire_row_def)
    moreover have "expire_session (fs_pair r) (fs_id r) w d = (Inr (), w', d')"
      using e 2 by (auto simp: run_bind run_ret)
    then have "pair_run (w, d) (w', d')" by (rule expire_run [OF _ inv 2(2,3)])
    ultimately show ?thesis using pair_run_sessions_inv inv by fastforce
  qed
  then show "stale_pauses p c d' = []" "sessions_inv d'" by simp_all
qed

lemma elapse_loop_done:
  assumes l: "for_each (elapsed_sessions p c d) (elapse_session p) w d = (Inr (), w', d')"
    and inv: "sessions_inv d" and stale: "stale_pauses p b d = []"
  shows "elapsed_sessions p c d' = []" and "stale_pauses p b d' = []"
proof -
  have u: "sessions_unique (sessions d)" using inv by (simp add: sessions_inv_def)
  have "elapsed_sessions p c d' = [] \<and> stale_pauses p b d' = []"
  proof (cases rule: elapsed_sessions_once [OF u, of p c])
    case 1
    with l stale show ?thesis by (simp add: run_ret)
  next
    case (2 r)
    with l have "elapse_session p (fs_id r, fs_ends_at r) w d = (Inr (), w', d')" by (auto simp: run_bind run_ret)
    then obtain t where d': "sessions d' = update_where (\<lambda>s. fs_id s = fs_id r) (elapse_row (fs_ends_at r) t) (sessions d)"
      by (rule elapse_sessions)
    have "fs_id x = fs_id r" if "x \<in> set (sessions d)"
      "fs_pair x = p \<and> fs_state x \<in> {SessionOpen, SessionTogether} \<and> fs_ends_at x \<le> c" for x
    proof -
      have "(fs_id x, fs_ends_at x) \<in> set (elapsed_sessions p c d)" using that by (auto simp: elapsed_sessions_def)
      then show ?thesis using 2(1) by simp
    qed
    then have "elapsed_sessions p c d' = []"
      unfolding elapsed_sessions_def d' by (subst filter_update_none) (simp_all add: elapse_row_def)
    moreover have "stale_pauses p b d' = []"
      by (rule stale_pauses_update [OF _ stale d']) (simp add: elapse_row_def)
    ultimately show ?thesis ..
  qed
  then show "elapsed_sessions p c d' = []" "stale_pauses p b d' = []" by simp_all
qed

lemma complete_elapsed_done:
  assumes run: "complete_elapsed_session p w d = (Inr v, w', d')" and inv: "sessions_inv d"
  obtains n where "w_step w \<le> n" and "elapsed_sessions p (w_clock w n) d' = []"
    and "stale_pauses p (w_clock w (w_step w)) d' = []"
proof -
  obtain w2 d2 where
    e: "for_each (stale_pauses p (e_clock (env_of w)) d) (expire_session p) (tick w) d = (Inr (), w2, d2)"
    and l: "for_each (elapsed_sessions p (e_clock (env_of w2)) d2) (elapse_session p) (tick w2) d2 = (Inr (), w', d')"
    using run unfolding complete_elapsed_session_def by (auto simp: tx_simps)
  have "advance (tick w) w2"
    using e by (rule advancesD [rotated]) (intro adv_intros, simp add: expire_session_def, intro adv_intros)
  then have w2: "w_clock w2 = w_clock w" "w_step w \<le> w_step w2" by (auto simp: advance_def tick_def)
  note first = expire_loop_done [OF e inv]
  show thesis
    using that [of "w_step w2"] elapse_loop_done [OF l first(2,1)] w2 by (simp add: env_of_def)
qed

text \<open>A session that neither loop would end is live.\<close>

lemma live_row:
  assumes r: "r \<in> set (sessions d)" "fs_pair r = p" "active r" and inv: "sessions_inv d"
    and "elapsed_sessions p c d = []" and "stale_pauses p b d = []"
  shows "if fs_state r = SessionPaused then \<exists>t. fs_paused_at r = Some t \<and> b - 24 * hour < t else c < fs_ends_at r"
proof (cases "fs_state r = SessionPaused")
  case True
  then obtain t where t: "fs_paused_at r = Some t" using inv r(1) by (auto simp: sessions_inv_def row_ok_def)
  then show ?thesis using True assms(6) r by (auto simp: stale_pauses_def filter_empty_conv not_le)
next
  case False
  then show ?thesis using assms(5) r
    by (auto simp: elapsed_sessions_def filter_empty_conv active_def active_state_def not_le)
qed

lemma active_ids_set: "set (active_ids p d) = fs_id ` {r \<in> set (sessions d). fs_pair r = p \<and> active r}"
  by (auto simp: active_ids_def)


lemma demo_current_found:
  "case current_session ada (fst demo_room) demo_db of (Inr (Some v), _) \<Rightarrow> ses_id v = 7 | _ \<Rightarrow> False"
  by code_simp


section \<open>Cheers\<close>

text \<open>
  C27. Two cheers of the same account in the same session are at least 30 seconds apart, by the
  database clock, in the order they were stored.
\<close>

theorem cheers_keep_distance:
  assumes "reachable s" and "i < j" and "j < length (reactions (snd s))"
    and "rx_session (reactions (snd s) ! i) = rx_session (reactions (snd s) ! j)"
    and "rx_account (reactions (snd s) ! i) = rx_account (reactions (snd s) ! j)"
  shows "rx_created_at (reactions (snd s) ! i) + 30 * second \<le> rx_created_at (reactions (snd s) ! j)"
  using goodD(8) [OF reachable_good [OF assms(1)]] assms(2-)
  unfolding cheers_spaced_def sorted_wrt_iff_nth_less by blast

definition demo_cheered :: moment where
  "demo_cheered = after_op (add_cheer bo 7 44)
     (case after_op (add_cheer bo 7 43) demo_room of (w, d) \<Rightarrow> (w\<lparr>w_step := 120\<rparr>, d))"

lemma demo_cheers:
  "map (\<lambda>x. (rx_session x, rx_account x)) (reactions (snd demo_cheered)) = [(7, 2), (7, 2)]"
  by code_simp

lemma demo_cheered_reachable: "reachable demo_cheered"
proof -
  obtain w d where c: "after_op (add_cheer bo 7 43) demo_room = (w, d)"
    by (cases "after_op (add_cheer bo 7 43) demo_room")
  have r: "reachable (w, d)"
    using reachable_step [OF demo_room_reachable served.add_cheer [of _ bo 7 43]] by (simp add: c)
  have "w_step w \<le> 120"
  proof -
    have "w_step (fst (after_op (add_cheer bo 7 43) demo_room)) \<le> 120" by code_simp
    then show ?thesis by (simp add: c)
  qed
  then have "served (w, d) (w\<lparr>w_step := 120\<rparr>, d)"
    using served.wait [of "(w, d)" "w\<lparr>w_step := 120\<rparr>"] by (simp add: advance_def)
  then have "reachable (w\<lparr>w_step := 120\<rparr>, d)" by (rule reachable_step [OF r])
  then show ?thesis unfolding demo_cheered_def c prod.case by (rule reachable_step [OF _ served.add_cheer])
qed

theorem cheers_keep_distance_witness:
  "\<exists>x y. reactions (snd demo_cheered) = [x, y] \<and> rx_created_at x + 30 * second \<le> rx_created_at y"
proof -
  obtain x y where xy: "reactions (snd demo_cheered) = [x, y]" "rx_session x = rx_session y"
    "rx_account x = rx_account y" using demo_cheers by (auto simp: map_eq_Cons_conv)
  then show ?thesis using cheers_keep_distance [OF demo_cheered_reachable, of 0 1] by simp
qed

end
