(* ===== verification/SyncProperties.thy ===== *)
theory SyncProperties
  imports SyncHandler Scenario PairHistory
begin

text \<open>
  What the sync protocol gives a device. A device \<open>follows\<close> its pair up to a cursor when its
  table is what the reducer makes of the events up to that cursor; each answered request keeps
  that, whatever the partner did since, and an answer that is not full leaves the device with
  the server's own view. A command that is sent again gets the answer it had.
\<close>

section \<open>Following the log\<close>

definition events_upto :: "uuid \<Rightarrow> int \<Rightarrow> db \<Rightarrow> pair_event list" where
  "events_upto p c d = filter (\<lambda>ev. pe_pair ev = p \<and> pe_cursor ev \<le> c) (events d)"

definition follows :: "uuid \<Rightarrow> focus_session list \<Rightarrow> int \<Rightarrow> moment \<Rightarrow> bool" where
  "follows p local c s \<longleftrightarrow> local = fold apply_event (events_upto p c (snd s)) [] \<and> c \<le> w_seq (fst s)"

lemma follows_run:
  assumes "follows p local c s" and "pair_run s t"
  shows "follows p local c t"
proof -
  obtain new where new: "events (snd t) = events (snd s) @ new"
    "\<forall>ev \<in> set new. w_seq (fst s) < pe_cursor ev" using run_new_events [OF assms(2)] by blast
  have c: "c \<le> w_seq (fst s)" using assms(1) by (simp add: follows_def)
  have "filter (\<lambda>ev. pe_pair ev = p \<and> pe_cursor ev \<le> c) new = []"
    using new(2) c by (force simp: filter_empty_conv)
  then have "events_upto p c (snd t) = events_upto p c (snd s)" by (simp add: events_upto_def new(1))
  moreover have "c \<le> w_seq (fst t)" using c pair_run_advance [OF assms(2)] by (simp add: advance_def)
  ultimately show ?thesis using assms(1) by (simp add: follows_def)
qed

lemma follows_all:
  assumes "follows p local c s" and "good s" and "\<And>ev. ev \<in> set (events (snd s)) \<Longrightarrow> pe_pair ev = p \<Longrightarrow> pe_cursor ev \<le> c"
  shows "local = server_sessions p (snd s)"
proof -
  have "events_upto p c (snd s) = filter (\<lambda>ev. pe_pair ev = p) (events (snd s))"
    unfolding events_upto_def by (rule filter_cong) (use assms(3) in auto)
  then have "local = replay p (events (snd s))" using assms(1) by (simp add: follows_def replay_def)
  also have "\<dots> = server_sessions p (snd s)"
    using goodD(10) [OF assms(2)] by (simp add: replay_inv_def replay_ok_def)
  finally show ?thesis .
qed

section \<open>One page\<close>

lemma sorted_split:
  fixes f :: "'a \<Rightarrow> int"
  assumes "sorted_wrt (<) (map f xs)"
  shows "xs = filter (\<lambda>x. f x \<le> c) xs @ filter (\<lambda>x. c < f x) xs"
  using assms
proof (induction xs)
  case (Cons x xs)
  show ?case
  proof (cases "f x \<le> c")
    case True
    then show ?thesis using Cons by auto
  next
    case False
    then have "filter (\<lambda>x. f x \<le> c) xs = []" "filter (\<lambda>x. c < f x) xs = xs"
      using Cons.prems by (auto simp: filter_empty_conv filter_id_conv)
    then show ?thesis using False by simp
  qed
qed simp

lemma sorted_filter_prefix:
  fixes f :: "'a \<Rightarrow> int"
  assumes "sorted_wrt (<) (map f (xs @ e # ys))"
  shows "filter (\<lambda>x. f x \<le> f e) (xs @ e # ys) = xs @ [e]"
proof -
  have "filter (\<lambda>x. f x \<le> f e) xs = xs" "filter (\<lambda>x. f x \<le> f e) ys = []"
    using assms by (auto simp: filter_id_conv filter_empty_conv sorted_wrt_append)
  then show ?thesis by simp
qed

lemma events_upto_take:
  assumes "log_ok d"
  shows "events_upto p (last_cursor c (take n (events_after p c d))) d
    = events_upto p c d @ take n (events_after p c d)"
proof (cases "take n (events_after p c d) = []")
  case True
  then show ?thesis by (simp only: last_cursor.simps append_Nil2)
next
  case False
  let ?F = "filter (\<lambda>ev. pe_pair ev = p) (events d)" and ?A = "events_after p c d"
  let ?T = "take n (events_after p c d)"
  have s: "sorted_wrt (<) (map pe_cursor ?F)" using assms by (simp add: log_ok_def sorted_wrt_filter_map)
  have "?F = events_upto p c d @ ?A"
    using sorted_split [OF s, of c] by (simp add: events_upto_def events_after_filter [OF assms] conj_commute)
  also have "\<dots> = events_upto p c d @ ?T @ drop n ?A" by (simp only: append_take_drop_id)
  also have "?T = butlast ?T @ [last ?T]" by (rule append_butlast_last_id [OF False, symmetric])
  finally have F: "?F = (events_upto p c d @ butlast ?T) @ last ?T # drop n ?A"
    by (simp only: append.assoc append.simps)
  have "events_upto p (pe_cursor (last ?T)) d = filter (\<lambda>ev. pe_cursor ev \<le> pe_cursor (last ?T)) ?F"
    by (simp add: events_upto_def conj_commute)
  also have "\<dots> = (events_upto p c d @ butlast ?T) @ [last ?T]"
    using sorted_filter_prefix [OF s [unfolded F]] F by simp
  also have "\<dots> = events_upto p c d @ ?T"
    using append_butlast_last_id [OF False] by (simp only: append.assoc)
  finally show ?thesis using last_cursor_last [OF False] by simp
qed

section \<open>A command again\<close>

lemma frame_again:
  assumes "bind_tx m (\<lambda>(x, y). ret (f x)) w d = (Inr r, w1, d1)"
    and "\<And>x y. m w d = (Inr (x, y), w1, d1) \<Longrightarrow> \<exists>w3. m' w2 d2 = (Inr (x, True), w3, d2)"
  shows "\<exists>w3. bind_tx m' (\<lambda>(x, y). ret (f x)) w2 d2 = (Inr r, w3, d2)"
proof -
  obtain x y where "m w d = (Inr (x, y), w1, d1)" and "r = f x" using assms(1) by (auto simp: tx_simps)
  with assms(2) obtain w3 where "m' w2 d2 = (Inr (x, True), w3, d2)" by blast
  then show ?thesis using \<open>r = f x\<close> by (simp add: bind_tx_def ret_def)
qed

lemma apply_transition_again:
  assumes rt: "retriable (id_account idn) (sc_id c) w d d1 w2 d2"
    and "apply_transition idn c a w d = (Inr x, w1, d1)"
  shows "\<exists>w3. apply_transition idn c a w2 d2 = (Inr x, w3, d2)"
  using assms(2) unfolding apply_transition_def join_session_def
  by (auto simp: raise_def split: option.splits if_splits elim!: frame_again
      dest: command_retry(2) [OF rt])

lemma apply_note_again:
  assumes rt: "retriable (id_account idn) (sc_id c) w d d1 w2 d2"
    and "apply_note idn c w d = (Inr x, w1, d1)"
  shows "\<exists>w3. apply_note idn c w2 d2 = (Inr x, w3, d2)"
  using assms(2) unfolding apply_note_def
  by (auto simp: raise_def split: option.splits sum.splits if_splits elim!: frame_again
      dest: command_retry(3) [OF rt])

lemma apply_cheer_again:
  assumes rt: "retriable (id_account idn) (sc_id c) w d d1 w2 d2"
    and "apply_cheer idn c w d = (Inr x, w1, d1)"
  shows "\<exists>w3. apply_cheer idn c w2 d2 = (Inr x, w3, d2)"
  using assms(2) unfolding apply_cheer_def
  by (auto simp: raise_def split: option.splits elim!: frame_again dest: command_retry(4) [OF rt])

lemma apply_import_again:
  assumes rt: "retriable (id_account idn) (sc_id c) w d d1 w2 d2"
    and "apply_import idn c w d = (Inr x, w1, d1)"
  shows "\<exists>w3. apply_import idn c w2 d2 = (Inr x, w3, d2)"
  using assms(2) unfolding apply_import_def
  by (auto simp: raise_def split: option.splits sum.splits if_splits elim!: frame_again
      dest: import_retry [OF rt])

lemma start_again:
  assumes "retriable (id_account idn) (sc_id c) u d d1 u2 d2"
    and "bind_tx (start_session idn (sc_id c) i) (\<lambda>(session, _). ret (applied (sc_id c) (RSession session))) u d
      = (Inr x, w1, d1)"
  shows "\<exists>w3. bind_tx (start_session idn (sc_id c) j) (\<lambda>(session, _). ret (applied (sc_id c) (RSession session))) u2 d2
      = (Inr x, w3, d2)"
  using assms(2) by (rule frame_again) (use command_retry(1) [OF assms(1)] in blast)

lemma apply_start_again:
  assumes rt: "retriable (id_account idn) (sc_id c) w d d1 w2 d2"
    and "apply_start idn c w d = (Inr x, w1, d1)"
  shows "\<exists>w3. apply_start idn c w2 d2 = (Inr x, w3, d2)"
proof (cases "sc_entity c = None \<or> sc_entity c = Some nil_uuid")
  case True
  have first: "apply_start idn c v e = bind_tx (start_session idn (sc_id c) (w_uuid v (w_step v) 0))
      (\<lambda>(session, _). ret (applied (sc_id c) (RSession session))) (tick v) e" for v e
    using True unfolding apply_start_def by (auto simp: bind_tx_def [of new_uuid] new_uuid_def)
  show ?thesis using assms(2) unfolding first by (rule start_again [OF retriable_tick [OF rt]])
next
  case False
  then obtain i where i: "sc_entity c = Some i" "i \<noteq> nil_uuid" by auto
  have first: "apply_start idn c v e = bind_tx (start_session idn (sc_id c) i)
      (\<lambda>(session, _). ret (applied (sc_id c) (RSession session))) v e" for v e
    using i unfolding apply_start_def by (simp add: bind_tx_def [of "ret i"] ret_def [of i])
  show ?thesis using assms(2) unfolding first by (rule start_again [OF rt])
qed

lemma apply_sync_command_again:
  assumes rt: "retriable (id_account idn) (sc_id c) w d d1 w2 d2"
    and "apply_sync_command idn c w d = (Inr x, w1, d1)"
  shows "\<exists>w3. apply_sync_command idn c w2 d2 = (Inr x, w3, d2)"
proof (cases "map_of transition_types (sc_type c)")
  case None
  then show ?thesis using assms(2) unfolding apply_sync_command_def
    by (auto simp: raise_def split: if_splits intro: apply_start_again [OF rt] apply_import_again [OF rt] apply_note_again [OF rt] apply_cheer_again [OF rt])
next
  case (Some a)
  then show ?thesis using assms(2) unfolding apply_sync_command_def
    by (auto simp: raise_def split: if_splits intro: apply_start_again [OF rt] apply_import_again [OF rt] apply_transition_again [OF rt])
qed

section \<open>The protocol\<close>

text \<open>A page of the log: its cursor is one that was drawn, and a page that is not full is the rest of the log.\<close>

lemma page_cursor_drawn:
  assumes "log_inv w d" and "c \<le> w_seq w"
  shows "last_cursor c (take n (events_after p c d)) \<le> w_seq w"
proof (cases "take n (events_after p c d) = []")
  case True
  then show ?thesis using assms(2) by (simp add: last_cursor_cases [of c "take n (events_after p c d)"] del: take_eq_Nil take_eq_Nil2)
next
  case False
  have "log_ok d" using assms(1) by (simp add: log_inv_def)
  moreover have "last (take n (events_after p c d)) \<in> set (events_after p c d)"
    using last_in_set [OF False] by (rule in_set_takeD)
  ultimately have "last (take n (events_after p c d)) \<in> set (events d)" by (simp add: events_after_filter)
  then show ?thesis using assms(1) last_cursor_last [OF False] by (auto simp: log_inv_def)
qed

lemma short_page_is_rest:
  assumes ok: "log_ok d" and upto: "events_upto p c' d = events_upto p c d @ events_after p c d"
    and e: "e \<in> set (events d)" "pe_pair e = p"
  shows "pe_cursor e \<le> c'"
proof -
  have "e \<in> set (events_upto p c' d)"
  proof (cases "pe_cursor e \<le> c")
    case True
    then show ?thesis using e by (simp add: upto) (simp add: events_upto_def)
  next
    case False
    then show ?thesis using e ok by (simp add: upto events_after_filter)
  qed
  then show ?thesis by (simp add: events_upto_def)
qed

text \<open>
  C3. A device that follows its pair, and applies the events of an answered sync request with
  its reducer, follows it up to the returned cursor; when the answer says that there is no
  more, the device has exactly the sessions the server has, with their notes and participants.
  The request may carry any commands and any statement in between may have failed.
\<close>

theorem sync_keeps_following:
  assumes "reachable (w, d)" and "known idn d" and "id_pair idn = Some p"
    and "follows p local (sq_cursor body) (w, d)" and "sync idn body w d = (Inr reply, w', d')"
  shows "follows p (fold apply_event (sy_events reply) local) (sy_cursor reply) (w', d') \<and>
    (sy_has_more reply \<or> fold apply_event (sy_events reply) local = server_sessions p d')"
proof -
  have g: "good (w, d)" using assms(1) by (rule reachable_good)
  have sv: "served\<^sup>*\<^sup>* (w, d) (w', d')" using assms(5,2) g by (rule sync_served)
  have g': "good (w', d')" using sv g by (rule served_good)
  have ok: "log_ok d'" using goodD(5) [OF g'] by (simp add: log_inv_def)
  let ?A = "events_after p (sq_cursor body) d'" and ?n = "page_limit (sync_limit body)"
  obtain w2 w3 where ev: "pair_events idn (sq_cursor body) (sync_limit body) w2 d'
      = (Inr (sy_events reply, sy_cursor reply), w3, d')"
    and lim: "1 \<le> sync_limit body" "sync_limit body \<le> 500"
    and more: "sy_has_more reply = (int (length (sy_events reply)) = sync_limit body)"
    using assms(5,2) g by (rule sync_answered)
  have page: "sy_events reply = take ?n ?A" "sy_cursor reply = last_cursor (sq_cursor body) (take ?n ?A)"
    using ev assms(3) by (auto simp: pair_events_def tx_simps)
  have before: "follows p local (sq_cursor body) (w', d')"
    using follows_run [OF assms(4) served_good(2) [OF sv g]] .
  have upto: "events_upto p (sy_cursor reply) d' = events_upto p (sq_cursor body) d' @ sy_events reply"
    using events_upto_take [OF ok] by (simp only: page)
  have "sy_cursor reply \<le> w_seq w'"
    using page_cursor_drawn [of w' d' "sq_cursor body"] goodD(5) [OF g'] before by (simp add: page(2) follows_def)
  then have f: "follows p (fold apply_event (sy_events reply) local) (sy_cursor reply) (w', d')"
    using before by (simp add: follows_def upto)
  moreover have "fold apply_event (sy_events reply) local = server_sessions p d'"
    if "\<not> sy_has_more reply"
  proof -
    have "length (take ?n ?A) \<noteq> ?n" using that lim more page(1) by (auto simp: page_limit_def)
    then have "sy_events reply = ?A" by (simp add: page(1))
    then have "pe_cursor e \<le> sy_cursor reply" if "e \<in> set (events d')" "pe_pair e = p" for e
      using short_page_is_rest [OF ok _ that] upto by simp
    then show ?thesis using follows_all [OF f g'] by simp
  qed
  ultimately show ?thesis by blast
qed

definition demo_sync :: sync_request where
  "demo_sync = \<lparr>sq_cursor = 0, sq_limit = 0,
     sq_commands = [\<lparr>sc_id = 41, sc_type = ''session.cheer'', sc_entity = Some 7,
         sc_expected_version = None, sc_payload = NoPayload\<rparr>,
       \<lparr>sc_id = 42, sc_type = ''session.pause'', sc_entity = Some 7,
         sc_expected_version = Some 1, sc_payload = NoPayload\<rparr>]\<rparr>"

lemma demo_sync_answered:
  "case sync bo demo_sync (fst demo_room) demo_db of
     (Inr reply, _) \<Rightarrow> \<not> sy_has_more reply \<and> map sr_applied (sy_results reply) = [True, False]
   | (Inl _, _) \<Rightarrow> False"
  by code_simp

theorem sync_keeps_following_witness:
  "\<exists>reply w d. sync bo demo_sync (fst demo_room) demo_db = (Inr reply, w, d) \<and>
     map sr_applied (sy_results reply) = [True, False] \<and>
     fold apply_event (sy_events reply) [] = server_sessions 1080 d"
proof -
  obtain reply w d where run: "sync bo demo_sync (fst demo_room) demo_db = (Inr reply, w, d)"
    and r: "\<not> sy_has_more reply" "map sr_applied (sy_results reply) = [True, False]"
    using demo_sync_answered
    by (cases "sync bo demo_sync (fst demo_room) demo_db" rule: prod_cases3) (auto split: sum.splits)
  have a: "reachable (fst demo_room, demo_db)" using demo_room_reachable by (simp add: demo_room_def)
  have b: "known bo demo_db" by code_simp
  have c: "id_pair bo = Some 1080" by (simp add: bo_def)
  have e: "follows 1080 [] (sq_cursor demo_sync) (fst demo_room, demo_db)"
    by (simp add: follows_def events_upto_def demo_sync_def demo_db_def demo_room_def)
  from sync_keeps_following [OF a b c e run] r run show ?thesis by simp
qed


definition demo_cheer :: sync_command where
  "demo_cheer = \<lparr>sc_id = 41, sc_type = ''session.cheer'', sc_entity = Some 7,
     sc_expected_version = None, sc_payload = NoPayload\<rparr>"

lemma demo_cheer_applied:
  "case apply_sync_command bo demo_cheer (fst demo_room) demo_db of
     (Inr x, _) \<Rightarrow> sr_applied x | (Inl _, _) \<Rightarrow> False"
  by code_simp


end
