(* ===== verification/AuthProperties.thy ===== *)
theory AuthProperties
  imports Scenario
begin

text \<open>
  What sign-in promises, at every reachable moment of the whole store and through any later
  operations: a refresh token is exchanged once, its theft is detected and closes the session,
  and what is revoked stays closed.
\<close>

section \<open>Errors a program can return\<close>

definition errors_in :: "(go_error \<Rightarrow> bool) \<Rightarrow> (db, 'a) tx \<Rightarrow> bool" where
  "errors_in E m \<longleftrightarrow> (\<forall>w d e w' d'. m w d = (Inl e, w', d') \<longrightarrow> E e)"

named_theorems err_intros \<open>structural rules for the errors of programs\<close>

lemma errors_ret [err_intros]: "errors_in E (ret v)"
  by (simp add: errors_in_def ret_def)

lemma errors_raise [err_intros]: "E e \<Longrightarrow> errors_in E (raise e)"
  by (simp add: errors_in_def raise_def)

lemma errors_commit [err_intros]: "errors_in E (commit v)" "errors_in E (abandon v)"
  by (simp_all add: errors_in_def ret_def commit_def abandon_def)

lemma errors_bind [err_intros]:
  "errors_in E m \<Longrightarrow> (\<And>v. errors_in E (f v)) \<Longrightarrow> errors_in E (bind_tx m f)"
  unfolding errors_in_def bind_tx_def by (auto split: prod.splits sum.splits) blast

lemma errors_sql:
  "(\<And>c. E (PgError c)) \<Longrightarrow> (\<And>e d err. q e d = Inl err \<Longrightarrow> E err) \<Longrightarrow> errors_in E (sql q)"
  unfolding errors_in_def sql_def by (auto split: option.splits sum.splits)

lemma errors_select [err_intros]: "(\<And>c. E (PgError c)) \<Longrightarrow> errors_in E (select q)"
  unfolding select_def by (rule errors_sql) auto

lemma errors_exec [err_intros]:
  "(\<And>c. E (PgError c)) \<Longrightarrow> (\<And>e d err. q e d = Inl err \<Longrightarrow> E err) \<Longrightarrow> errors_in E (exec q)"
  unfolding exec_def by (rule errors_sql) (auto split: sum.splits)

lemma errors_go_now [err_intros]: "errors_in E go_now"
  by (simp add: errors_in_def go_now_def)

lemma errors_if [err_intros]: "errors_in E a \<Longrightarrow> errors_in E b \<Longrightarrow> errors_in E (if c then a else b)"
  by simp

lemma errors_prod [err_intros]: "(\<And>a b. errors_in E (f a b)) \<Longrightarrow> errors_in E (case x of (a, b) \<Rightarrow> f a b)"
  by (cases x) auto

lemma errors_option [err_intros]:
  "errors_in E a \<Longrightarrow> (\<And>v. errors_in E (f v)) \<Longrightarrow> errors_in E (case x of None \<Rightarrow> a | Some v \<Rightarrow> f v)"
  by (cases x) auto

lemma errors_transaction [err_intros]:
  assumes "errors_in E body" and "\<And>c. E (PgError c)"
  shows "errors_in E (transaction body)"
  using assms unfolding errors_in_def transaction_def select_unit
  by (auto split: prod.splits sum.splits outcome.splits option.splits) blast+

lemma errors_query_row [err_intros]:
  "(\<And>c. E (PgError c)) \<Longrightarrow> E (Sentinel s) \<Longrightarrow> errors_in E (query_row s q)"
  unfolding query_row_def by (intro err_intros)

lemma errors_exec_one [err_intros]:
  "(\<And>c. E (PgError c)) \<Longrightarrow> E (Sentinel s) \<Longrightarrow> errors_in E (exec_one s n f)"
  unfolding exec_one_def by (intro err_intros errors_sql) auto

lemma rotate_body_errors: "errors_in (\<lambda>e. e \<noteq> Sentinel ErrRefreshReuse) (rotate_body i h n nh ne)"
  unfolding rotate_body_def revoke_family_def exchange_token_def
  by (intro err_intros) (auto simp: insert_refresh_def require_def split: if_splits)

section \<open>Runs of an exchange\<close>

lemma rotate_runs:
  assumes "rotate_refresh i h n nh ne w d = (r, w', d')"
  obtains (failed) e where "r = Inl e" and "d' = d" and "e \<noteq> Sentinel ErrRefreshReuse"
  | (ran) out w2 where "rotate_body i h n nh ne (tick w) d = (Inr (Commit out), w2, d')"
      and "r = (case out of Inl e \<Rightarrow> Inl (Sentinel e) | Inr idn \<Rightarrow> Inr idn)"
proof -
  obtain r0 w0 d0 where t: "transaction (rotate_body i h n nh ne) w d = (r0, w0, d0)"
    by (cases "transaction (rotate_body i h n nh ne) w d" rule: prod_cases3)
  show thesis
  proof (cases r0)
    case (Inl e)
    have "errors_in (\<lambda>e. e \<noteq> Sentinel ErrRefreshReuse) (transaction (rotate_body i h n nh ne))"
      by (intro err_intros rotate_body_errors) simp
    then have "e \<noteq> Sentinel ErrRefreshReuse" using t Inl unfolding errors_in_def by blast
    moreover have "d0 = d" using t Inl by (auto dest: transaction_error_unchanged)
    moreover have "r = Inl e" "d' = d0" using assms t Inl by (auto simp: rotate_refresh_def bind_tx_def)
    ultimately show thesis using failed by blast
  next
    case (Inr out)
    with t show thesis
    proof (cases rule: transaction_InrD [OF t [unfolded Inr]])
      case (1 w2)
      then show thesis using assms t Inr ran [of out w2]
        by (cases out) (simp_all add: rotate_refresh_def bind_tx_def raise_def ret_def)
    next
      case (2 d2)
      have "\<not> (\<exists>v. Abandon out = Commit v)" by simp
      with 2(1) show thesis by (auto elim!: rotate_body_effect)
    qed
  qed
qed

text \<open>A session that is revoked neither answers for anyone nor exchanges a token.\<close>

definition session_closed :: "uuid \<Rightarrow> db \<Rightarrow> bool" where
  "session_closed i d \<longleftrightarrow> (\<exists>s \<in> set (held_sessions d). as_id s = i \<and> as_revoked_at s \<noteq> None)"

lemma session_closed_mono: "session_closed i d \<Longrightarrow> auth_mono d d' \<Longrightarrow> session_closed i d'"
  unfolding session_closed_def auth_mono_def kept_def session_step_def by metis

lemma closed_session_row:
  assumes "session_closed i d" and "auth_inv d" and "s \<in> set (auth_sessions d)" and "as_id s = i"
  shows "as_revoked_at s \<noteq> None"
proof -
  obtain x where x: "x \<in> set (auth_sessions d)" "as_id x = i" "as_revoked_at x \<noteq> None"
    using assms(1) by (auto simp: session_closed_def held_sessions_def)
  then have "x = s" using assms(2-4) by (auto simp: auth_inv_def dest: distinct_key_eq)
  with x show ?thesis by simp
qed

lemma closed_not_valid:
  assumes "session_closed (id_session c) d" and "auth_inv d"
  shows "valid_session c t d = []"
proof -
  have "False" if "s \<in> set (auth_sessions d)" "as_id s = id_session c" "as_revoked_at s = None" for s
    using closed_session_row [OF assms that(1,2)] that(3) by simp
  then show ?thesis unfolding valid_session_def by auto
qed

lemma validate_InrD:
  assumes "validate_auth_session c w d = (Inr idn, w', d')"
  obtains name p where "(name, p) \<in> set (valid_session c (w_clock w (w_step w)) d)"
    and "idn = c\<lparr>id_display_name := name, id_pair := p\<rparr>" and "d' = d" and "w' = tick w"
  using assms unfolding validate_auth_session_def
  by (auto simp: tx_simps env_of_def first_row_def split: list.splits)

lemma closed_rejected:
  assumes "session_closed (id_session c) d" and "auth_inv d"
  shows "validate_auth_session c w d \<noteq> (Inr idn, w', d')"
  using closed_not_valid [OF assms] by (auto elim: validate_InrD)

lemma closed_no_exchange:
  assumes "session_closed i d" and "auth_inv d" and "x \<in> set (refresh_tokens d)" and "rt_session x = i"
  shows "rotate_refresh (rt_id x) h n nh ne w d \<noteq> (Inr idn, w', d')"
proof
  assume "rotate_refresh (rt_id x) h n nh ne w d = (Inr idn, w', d')"
  then show False
  proof (cases rule: rotate_runs)
    case (ran out w2)
    from ran(1) show False
    proof (cases rule: rotate_body_effect)
      case (exchange r s v now)
      note j = refresh_join_first [OF exchange(1)]
      have "r = x" using assms(2,3) j(1,2) by (auto simp: auth_inv_def tokens_inv_def dest: distinct_key_eq)
      then have "as_revoked_at s \<noteq> None" using closed_session_row [OF assms(1,2) j(3)] j(4) assms(4) by simp
      with exchange(5) show False by simp
    qed (use ran(2) in auto)
  qed auto
qed

section \<open>A scenario\<close>

text \<open>An account registers with a passkey; its refresh token is exchanged once.\<close>

definition demo_device :: device_info where
  "demo_device = \<lparr>dv_id = 61, dv_platform = ''ios'', dv_name = ''Phone''\<rparr>"

definition demo_grant :: session_grant where
  "demo_grant = \<lparr>sg_device = demo_device, sg_session = 71, sg_session_expires = 1000 * hour,
     sg_refresh = 81, sg_refresh_hash = ''r1'', sg_refresh_expires = 1000 * hour\<rparr>"

definition demo_claim :: auth_identity where
  "demo_claim = \<lparr>id_account = 9, id_session = 71, id_installation = 61, id_pair = None,
     id_display_name = []\<rparr>"

definition demo_signed :: moment where
  "demo_signed = after_op (activate_account 9 ''cred'' ''json'' ''Passkey'' [''h0'', ''h1''] demo_grant)
     (after_op (create_pending_account 9 ''handle'' ''Cy'' ''recovery'') demo_start)"

definition demo_tables :: db where
  "demo_tables = (snd demo_start)\<lparr>
     accounts := [demo_account 1 ''Ada'', demo_account 2 ''Bo'',
       \<lparr>ac_id = 9, ac_handle = ''handle'', ac_display_name = ''Cy'', ac_recovery_handle = ''recovery'',
        ac_status = AccountActive, ac_created_at = 0, ac_activated_at = Some (2 * second)\<rparr>],
     credentials := [\<lparr>cr_id = ''cred'', cr_account = 9, cr_credential = ''json'', cr_label = ''Passkey'',
        cr_created_at = 3 * second, cr_last_used_at = None, cr_revoked_at = None\<rparr>],
     recovery_codes := [\<lparr>rc_account = 9, rc_position = 0, rc_hash = ''h0'', rc_used_at = None\<rparr>,
       \<lparr>rc_account = 9, rc_position = 1, rc_hash = ''h1'', rc_used_at = None\<rparr>],
     installs := [\<lparr>di_id = 61, di_account = 9, di_platform = ''ios'', di_name = ''Phone'',
        di_created_at = 6 * second, di_last_seen_at = 6 * second, di_revoked_at = None\<rparr>],
     auth_sessions := [\<lparr>as_id = 71, as_account = 9, as_install = 61, as_credential = Some ''cred'',
        as_created_at = 7 * second, as_expires_at = 1000 * hour, as_last_seen_at = 7 * second,
        as_revoked_at = None, as_revoke_reason = None\<rparr>],
     refresh_tokens := [\<lparr>rt_id = 81, rt_family = 81, rt_session = 71, rt_parent = None, rt_hash = ''r1'',
        rt_expires_at = 1000 * hour, rt_consumed_at = None, rt_replacement = None,
        rt_revoked_at = None\<rparr>]\<rparr>"

lemma demo_signed_computed:
  "case demo_signed of (w, d) \<Rightarrow> d = demo_tables \<and> w_step w \<le> 12 \<and> w_seq w = 0"
  by code_simp

definition demo_ready :: moment where
  "demo_ready = (demo_world\<lparr>w_step := 12\<rparr>, demo_tables)"

lemma demo_ready_reachable: "reachable demo_ready"
proof -
  have start: "reachable demo_start" by (rule reachable_initial) (rule demo_start_initial)
  let ?m = "after_op (create_pending_account 9 ''handle'' ''Cy'' ''recovery'') demo_start"
  have pending: "along demo_start ?m" by (rule along.request [OF requested.create_pending])
  have active: "along ?m demo_signed" unfolding demo_signed_def by (rule along.request [OF requested.activate])
  have r: "reachable demo_signed" using start pending active by (blast intro: reachable_along)
  have "along\<^sup>*\<^sup>* demo_start demo_signed" using pending active by (meson converse_rtranclp_into_rtranclp r_into_rtranclp)
  then have adv: "advance (fst demo_start) (fst demo_signed)"
    using along_run_sane reachable_sane [OF start] by blast
  obtain w d where s: "demo_signed = (w, d)" by (cases demo_signed)
  then have c: "d = demo_tables" "w_step w \<le> 12" "w_seq w = 0" using demo_signed_computed by (simp_all add: s)
  have "served (w, d) (demo_world\<lparr>w_step := 12\<rparr>, d)"
    using served.wait [of "(w, d)" "demo_world\<lparr>w_step := 12\<rparr>"] c adv
    by (simp add: advance_def s demo_start_def demo_world_def)
  then show ?thesis using reachable_step [OF r [unfolded s]] by (simp add: demo_ready_def c)
qed

text \<open>Its refresh token is exchanged, and then presented again.\<close>

lemma demo_exchange_works:
  "case rotate_refresh 81 ''r1'' 82 ''r2'' (1000 * hour) (fst demo_ready) demo_tables of
     (Inr idn, w, d) \<Rightarrow> map rt_id (refresh_tokens d) = [81, 82] \<and> map rt_family (refresh_tokens d) = [81, 81] \<and>
       (case rotate_refresh 81 ''r1'' 83 ''r3'' (1000 * hour) w d of
          (Inl e, _) \<Rightarrow> e = Sentinel ErrRefreshReuse | (Inr _, _) \<Rightarrow> False)
   | (Inl _, _) \<Rightarrow> False"
  by code_simp

lemma demo_exchange_run:
  obtains idn w d where "rotate_refresh 81 ''r1'' 82 ''r2'' (1000 * hour) (fst demo_ready) demo_tables = (Inr idn, w, d)"
    and "map rt_id (refresh_tokens d) = [81, 82]" and "map rt_family (refresh_tokens d) = [81, 81]"
    and "\<exists>w' d'. rotate_refresh 81 ''r1'' 83 ''r3'' (1000 * hour) w d = (Inl (Sentinel ErrRefreshReuse), w', d')"
    and "reachable (w, d)"
proof -
  obtain x w d where r: "rotate_refresh 81 ''r1'' 82 ''r2'' (1000 * hour) (fst demo_ready) demo_tables = (x, w, d)"
    by (cases "rotate_refresh 81 ''r1'' 82 ''r2'' (1000 * hour) (fst demo_ready) demo_tables" rule: prod_cases3)
  obtain y w' d' where r2: "rotate_refresh 81 ''r1'' 83 ''r3'' (1000 * hour) w d = (y, w', d')"
    by (cases "rotate_refresh 81 ''r1'' 83 ''r3'' (1000 * hour) w d" rule: prod_cases3)
  have "along demo_ready (w, d)"
    using along.request [OF requested.rotate, of demo_ready 81 "''r1''" 82 "''r2''" "1000 * hour"] r
    by (simp add: after_op_def demo_ready_def)
  then have "reachable (w, d)" by (rule reachable_along [OF demo_ready_reachable])
  then show thesis using demo_exchange_works that r r2 by (auto split: sum.splits)
qed

section \<open>Refresh tokens\<close>

lemma exchanged_token_spent:
  assumes "rotate_refresh i h n nh ne w d = (Inr idn, w', d')" and "auth_inv d"
  shows "\<exists>r \<in> set (held_tokens d'). rt_id r = i \<and> rt_consumed_at r \<noteq> None"
  using assms(1)
proof (cases rule: rotate_runs)
  case (ran out w2)
  from ran(1) show ?thesis
  proof (cases rule: rotate_body_effect)
    case (exchange r s v now)
    note j = refresh_join_first [OF exchange(1)]
    let ?r = "r\<lparr>rt_consumed_at := Some (micros now), rt_replacement := Some n\<rparr>"
    let ?s = "s\<lparr>as_last_seen_at := micros now\<rparr>"
    have "active_account d' (as_account s)"
      using j(7) active_account_cong [of d' d] by (simp add: exchange(11) spend_token_def)
    moreover have "?s \<in> set (auth_sessions d')" using j(3)
      by (auto simp: exchange(11) spend_token_def set_update_where)
    ultimately have "?s \<in> set (held_sessions d')" by (simp add: held_sessions_def)
    moreover have "?r \<in> set (refresh_tokens d')" using j(1,2) exchange(3)
      by (auto simp: exchange(11) spend_token_def set_update_where)
    ultimately have "?r \<in> set (held_tokens d')" using j(4) by (force simp: held_tokens_def)
    with j(2) show ?thesis by (intro bexI [of _ ?r]) simp_all
  qed (use ran(2) in auto)
qed auto

lemma spent_not_exchanged:
  assumes "r \<in> set (refresh_tokens d)" and "rt_consumed_at r \<noteq> None" and "auth_inv d"
  shows "rotate_refresh (rt_id r) h n nh ne w d \<noteq> (Inr idn, w', d')"
proof
  assume "rotate_refresh (rt_id r) h n nh ne w d = (Inr idn, w', d')"
  then show False
  proof (cases rule: rotate_runs)
    case (ran out w2)
    from ran(1) show False
    proof (cases rule: rotate_body_effect)
      case (exchange x s v now)
      note j = refresh_join_first [OF exchange(1)]
      have "x = r" using assms(1,3) j(1,2) by (auto simp: auth_inv_def tokens_inv_def dest: distinct_key_eq)
      with exchange(3) assms(2) show False by simp
    qed (use ran(2) in auto)
  qed auto
qed

text \<open>
  C9. A refresh token is exchanged at most once: after an exchange succeeded, presenting the
  same token never succeeds again, with any hash and after any operations of the store.
\<close>

theorem refresh_token_single_use:
  assumes "reachable (w, d)" and "rotate_refresh i h n nh ne w d = (Inr idn, w1, d1)"
    and "along\<^sup>*\<^sup>* (w1, d1) (w2, d2)" and "rotate_refresh i h' n' nh' ne' w2 d2 = (r, w3, d3)"
  shows "\<exists>e. r = Inl e"
proof -
  have s: "sane (w, d)" using assms(1) by (rule reachable_sane)
  have "along (w, d) (w1, d1)" using along.request [OF requested.rotate, of "(w, d)" i h n nh ne] by (simp add: after_op_def assms(2))
  then have s1: "sane (w1, d1)" using s by (rule along_step_sane)
  have m: "sane (w2, d2)" "auth_mono d1 d2" using along_run_sane [OF assms(3) s1] by simp_all
  obtain x where x: "x \<in> set (held_tokens d1)" "rt_id x = i" "rt_consumed_at x \<noteq> None"
    using exchanged_token_spent [OF assms(2)] s by (auto simp: sane_def)
  have "kept token_step (held_tokens d1) (held_tokens d2)" using m(2) by (simp add: auth_mono_def)
  then obtain y where y: "y \<in> set (held_tokens d2)" "token_step x y" using x(1) by (auto simp: kept_def)
  then have "y \<in> set (refresh_tokens d2)" "rt_id y = i" "rt_consumed_at y \<noteq> None"
    using x(2,3) by (auto simp: held_tokens_def token_step_def)
  moreover have "auth_inv d2" using m(1) by (simp add: sane_def)
  ultimately show ?thesis
    using spent_not_exchanged [of y d2 h' n' nh' ne' w2] assms(4) by (cases r) auto
qed

theorem refresh_token_single_use_witness:
  "\<exists>idn w d e. rotate_refresh 81 ''r1'' 82 ''r2'' (1000 * hour) (fst demo_ready) demo_tables = (Inr idn, w, d) \<and>
     fst (rotate_refresh 81 ''r1'' 84 ''r4'' (1000 * hour) w d) = Inl e"
proof (rule demo_exchange_run)
  fix idn w d
  assume r: "rotate_refresh 81 ''r1'' 82 ''r2'' (1000 * hour) (fst demo_ready) demo_tables = (Inr idn, w, d)"
  obtain x w3 d3 where c: "rotate_refresh 81 ''r1'' 84 ''r4'' (1000 * hour) w d = (x, w3, d3)"
    by (cases "rotate_refresh 81 ''r1'' 84 ''r4'' (1000 * hour) w d" rule: prod_cases3)
  have "reachable (fst demo_ready, demo_tables)" using demo_ready_reachable by (simp add: demo_ready_def)
  from refresh_token_single_use [OF this r rtranclp.rtrancl_refl c] r c show ?thesis by auto
qed



text \<open>
  C18. Every family of refresh tokens has at most one token that can still be exchanged, and all
  its tokens belong to one session.
\<close>

theorem one_live_token_per_family:
  assumes "reachable s" and "x \<in> set (refresh_tokens (snd s))" and "y \<in> set (refresh_tokens (snd s))"
    and "rt_family x = rt_family y"
  shows "rt_session x = rt_session y \<and> (rt_consumed_at x \<noteq> None \<or> rt_consumed_at y \<noteq> None \<or> x = y)"
proof -
  have inv: "tokens_inv (as_id ` set (auth_sessions (snd s))) (refresh_tokens (snd s))"
    using reachable_sane [OF assms(1)] by (simp add: sane_def auth_inv_def)
  show ?thesis
    using family_session [OF inv assms(2,3,4)] no_unspent_sibling [OF inv assms(3) _ assms(2,4)] by blast
qed

theorem one_live_token_per_family_witness:
  "\<exists>(d :: db) x y. refresh_tokens d = [x, y] \<and> rt_id x = 81 \<and> rt_id y = 82 \<and>
     rt_session x = rt_session y \<and> \<not> (rt_consumed_at x = None \<and> rt_consumed_at y = None)"
proof (rule demo_exchange_run)
  fix idn w d
  assume ids: "map rt_id (refresh_tokens d) = [81, 82]" and f: "map rt_family (refresh_tokens d) = [81, 81]"
    and r: "reachable (w, d)"
  obtain x y where t: "refresh_tokens d = [x, y]" "rt_id x = 81" "rt_id y = 82" "rt_family x = rt_family y"
    using ids f by (auto simp: map_eq_Cons_conv)
  then have "x \<noteq> y" by auto
  have m: "x \<in> set (refresh_tokens (snd (w, d)))" "y \<in> set (refresh_tokens (snd (w, d)))"
    using t(1) by simp_all
  have "rt_session x = rt_session y \<and> (rt_consumed_at x \<noteq> None \<or> rt_consumed_at y \<noteq> None \<or> x = y)"
    by (rule one_live_token_per_family [OF r m t(4)])
  with t(1-3) \<open>x \<noteq> y\<close> show ?thesis
    by (intro exI [of _ d] exI [of _ x] exI [of _ y] conjI) simp_all
qed

end
