(* ===== verification/RevocationProperties.thy ===== *)
theory RevocationProperties
  imports AuthProperties
begin

text \<open>
  Ending sign-ins: logging out, revoking a passkey or a device closes the sessions it covers for
  good; a challenge is consumed once; and what the check of a request guarantees.
\<close>

lemma one_row: "count_where P rows = 1 \<Longrightarrow> \<exists>r \<in> set rows. P r"
  using count_where_0_iff [of P rows] by auto

lemmas one_rowD = one_row [unfolded One_nat_def]

lemma no_row_left:
  assumes "\<And>r. P r \<Longrightarrow> \<not> Q (f r)" and "\<And>r. Q r \<Longrightarrow> P r"
  shows "{r \<in> set (update_where P f rows). Q r} = {}"
  using assms unfolding set_update_where by blast

lemma run_result:
  "(case m of (Inr x, w, d) \<Rightarrow> Q x w d | (Inl _, _) \<Rightarrow> False) \<Longrightarrow> \<exists>x w d. m = (Inr x, w, d) \<and> Q x w d"
  by (auto split: prod.splits sum.splits)

lemma run_resultE:
  assumes "case m of (Inr x, w, d) \<Rightarrow> Q x w d | (Inl _, _) \<Rightarrow> False"
  obtains x w d where "m = (Inr x, w, d)" and "Q x w d"
  using run_result [OF assms] by (elim exE conjE)

section \<open>Who a request is from\<close>

lemma valid_session_row:
  assumes "(name, p) \<in> set (valid_session c t d)"
  obtains s a v where "s \<in> set (auth_sessions d)" and "as_id s = id_session c"
    and "as_account s = id_account c" and "as_install s = id_installation c"
    and "as_revoked_at s = None" and "t < as_expires_at s" and "credential_live d (as_credential s)"
    and "a \<in> set (accounts d)" and "ac_id a = id_account c" and "ac_status a = AccountActive"
    and "ac_display_name a = name" and "pair_of d (id_account c) = p"
    and "v \<in> set (installs d)" and "di_id v = id_installation c" and "di_account v = id_account c"
    and "di_revoked_at v = None"
  using assms unfolding valid_session_def by (auto split: if_splits)

lemma pair_of_iff:
  assumes "pairs_inv d"
  shows "pair_of d a = Some p \<longleftrightarrow> pair_member p a d"
proof
  assume "pair_of d a = Some p"
  then obtain m where "m \<in> set (members d)" "pm_account m = a" "pm_pair m = p"
    by (auto simp: pair_of_def dest: find_Some_in)
  then show "pair_member p a d" using pair_member_iff [OF assms] by blast
next
  assume "pair_member p a d"
  then obtain m where m: "m \<in> set (members d)" "pm_pair m = p" "pm_account m = a"
    using pair_member_iff [OF assms] by blast
  then obtain n where n: "List.find (\<lambda>m. pm_account m = a) (members d) = Some n"
    by (cases "List.find (\<lambda>m. pm_account m = a) (members d)") (auto simp: find_None_iff)
  then have "n \<in> set (members d)" "pm_account n = a" by (auto dest: find_Some_in)
  then have "n = m" using m assms by (auto simp: pairs_inv_def dest: distinct_key_eq)
  with n m show "pair_of d a = Some p" by (simp add: pair_of_def)
qed

text \<open>A session of an active account, and its closing.\<close>

lemma close_session:
  assumes "s \<in> set (auth_sessions d)" and "as_revoked_at s \<noteq> None" and "active_account d (as_account s)"
  shows "session_closed (as_id s) d"
  using assms by (auto simp: session_closed_def held_sessions_def)

lemma closed_for_good:
  assumes "session_closed i d1" and "sane (w1, d1)" and "along\<^sup>*\<^sup>* (w1, d1) (w2, d2)"
  shows "id_session c = i \<Longrightarrow> validate_auth_session c w2 d2 \<noteq> (Inr idn, w3, d3)"
    and "x \<in> set (refresh_tokens d2) \<Longrightarrow> rt_session x = i \<Longrightarrow>
      rotate_refresh (rt_id x) h n nh ne w2 d2 \<noteq> (Inr idn', w3', d3')"
proof -
  have m: "sane (w2, d2)" "auth_mono d1 d2" using along_run_sane [OF assms(3,2)] by simp_all
  have c: "session_closed i d2" using assms(1) m(2) by (rule session_closed_mono)
  have inv: "auth_inv d2" using m(1) by (simp add: sane_def)
  show "id_session c = i \<Longrightarrow> validate_auth_session c w2 d2 \<noteq> (Inr idn, w3, d3)"
    using closed_rejected [of c] c inv by blast
  show "x \<in> set (refresh_tokens d2) \<Longrightarrow> rt_session x = i \<Longrightarrow>
      rotate_refresh (rt_id x) h n nh ne w2 d2 \<noteq> (Inr idn', w3', d3')"
    by (rule closed_no_exchange [OF c inv])
qed

definition signed_out :: "uuid \<Rightarrow> moment \<Rightarrow> bool" where
  "signed_out i m \<longleftrightarrow>
     (\<forall>c idn w d. id_session c = i \<longrightarrow>
        validate_auth_session c (fst m) (snd m) \<noteq> (Inr idn, w, d)) \<and>
     (\<forall>x \<in> set (refresh_tokens (snd m)). \<forall>h n nh ne idn w d. rt_session x = i \<longrightarrow>
        rotate_refresh (rt_id x) h n nh ne (fst m) (snd m) \<noteq> (Inr idn, w, d))"

lemma closed_signed_out:
  assumes "session_closed i d" and "sane (w, d)" and "along\<^sup>*\<^sup>* (w, d) m"
  shows "signed_out i m"
  using closed_for_good [of i d w "fst m" "snd m"] assms by (auto simp: signed_out_def)

section \<open>Logging out\<close>

lemma revoke_session_effect:
  assumes "revoke_session a i reason w d = (Inr u, w', d')"
  obtains s where "s \<in> set (auth_sessions d)" and "as_id s = i" and "as_account s = a"
    and "as_revoked_at s = None"
    and "s\<lparr>as_revoked_at := Some (w_clock w (w_step w)), as_revoke_reason := Some reason\<rparr>
      \<in> set (auth_sessions d')"
    and "accounts d' = accounts d"
proof -
  have one: "count_where (\<lambda>s. as_id s = i \<and> as_account s = a \<and> as_revoked_at s = None)
      (auth_sessions d) = 1"
    and d': "d' = d\<lparr>auth_sessions := update_where (\<lambda>s. as_id s = i \<and> as_account s = a \<and>
        as_revoked_at s = None) (\<lambda>s. s\<lparr>as_revoked_at := Some (w_clock w (w_step w)),
          as_revoke_reason := Some reason\<rparr>) (auth_sessions d)\<rparr>"
    using assms unfolding revoke_session_def by (simp_all add: tx_simps env_of_def)
  then obtain s where s: "s \<in> set (auth_sessions d)" "as_id s = i" "as_account s = a"
      "as_revoked_at s = None"
    by (blast dest: one_row)
  then show thesis by (intro that [OF s]) (auto simp: d' set_update_where)
qed

text \<open>
  C23. Logging out is final: after a signed-in account revoked a session of its own, the current
  one or another, the session answers for nobody and none of its refresh tokens is exchanged,
  whatever operations follow.
\<close>

theorem logout_is_final:
  assumes "reachable (w, d)" and "validate_auth_session c w d = (Inr idn, w1, d1)"
    and "revoke_session (id_account idn) i reason w1 d1 = (Inr u, w2, d2)"
    and "along\<^sup>*\<^sup>* (w2, d2) m"
  shows "signed_out i m"
proof -
  obtain name p where v: "(name, p) \<in> set (valid_session c (w_clock w (w_step w)) d)"
    and "idn = c\<lparr>id_display_name := name, id_pair := p\<rparr>" and d1: "d1 = d" and w1: "w1 = tick w"
    using assms(2) by (rule validate_InrD)
  then have act: "active_account d (id_account idn)"
    by (auto simp: active_account_def elim!: valid_session_row)
  obtain s where s: "as_id s = i" "as_account s = id_account idn" "accounts d2 = accounts d"
      "s\<lparr>as_revoked_at := Some (w_clock w1 (w_step w1)), as_revoke_reason := Some reason\<rparr>
        \<in> set (auth_sessions d2)"
    using assms(3) d1 by (auto elim!: revoke_session_effect)
  have "session_closed i d2"
    using close_session [OF s(4)] act s(1,2) active_account_cong [OF s(3)] by simp
  moreover have "sane (w2, d2)"
  proof -
    have "served (w, d) (w1, d)" unfolding w1 using served.wait [of "(w, d)" "tick w"] by simp
    then have "sane (w1, d1)"
      using reachable_step [OF assms(1)] reachable_sane by (simp add: d1)
    moreover have "along (w1, d1) (w2, d2)"
      using along.request [OF requested.revoke_session, of "(w1, d1)" "id_account idn" i reason]
      by (simp add: after_op_def assms(3))
    ultimately show ?thesis by (rule along_step_sane [rotated])
  qed
  ultimately show ?thesis using assms(4) by (rule closed_signed_out)
qed

lemma demo_reachable: "reachable (fst demo_ready, demo_tables)"
  using demo_ready_reachable by (simp add: demo_ready_def)

lemma demo_active: "active_account demo_tables 9"
  by (simp add: active_account_def demo_tables_def)

lemma demo_logout_runs:
  "\<exists>idn w1 d1 w2 d2. validate_auth_session demo_claim (fst demo_ready) demo_tables = (Inr idn, w1, d1) \<and>
     revoke_session (id_account idn) 71 ''logout'' w1 d1 = (Inr (), w2, d2)"
proof -
  have "case validate_auth_session demo_claim (fst demo_ready) demo_tables of
      (Inr idn, w1, d1) \<Rightarrow> (case revoke_session (id_account idn) 71 ''logout'' w1 d1 of
        (Inr _, _, _) \<Rightarrow> True | (Inl _, _) \<Rightarrow> False) | (Inl _, _) \<Rightarrow> False"
    by code_simp
  then obtain idn w1 d1 where v: "validate_auth_session demo_claim (fst demo_ready) demo_tables = (Inr idn, w1, d1)"
    and "case revoke_session (id_account idn) 71 ''logout'' w1 d1 of
        (Inr _, _, _) \<Rightarrow> True | (Inl _, _) \<Rightarrow> False"
    by (auto dest!: run_result simp del: split_paired_All)
  from v run_result [OF this(2)] show ?thesis by auto
qed

theorem logout_is_final_witness:
  "\<exists>idn w1 d1 w2 d2. validate_auth_session demo_claim (fst demo_ready) demo_tables = (Inr idn, w1, d1) \<and>
     revoke_session (id_account idn) 71 ''logout'' w1 d1 = (Inr (), w2, d2) \<and> signed_out 71 (w2, d2)"
proof -
  obtain idn w1 d1 w2 d2 where r: "validate_auth_session demo_claim (fst demo_ready) demo_tables = (Inr idn, w1, d1)"
      "revoke_session (id_account idn) 71 ''logout'' w1 d1 = (Inr (), w2, d2)"
    using demo_logout_runs by blast
  from logout_is_final [OF demo_reachable r rtranclp.rtrancl_refl] r show ?thesis by blast
qed

section \<open>Revoking a passkey or a device\<close>

text \<open>Programs that only end in a commit.\<close>

definition commits :: "(db, 'a outcome) tx \<Rightarrow> bool" where
  "commits m \<longleftrightarrow> (\<forall>w d v w' d'. m w d \<noteq> (Inr (Abandon v), w', d'))"

lemma commits_commit: "commits (commit v)"
  by (simp add: commits_def run_commit)

lemma commits_bind: "(\<And>v. commits (f v)) \<Longrightarrow> commits (bind_tx m f)"
  by (simp add: commits_def run_bind)

lemma transaction_commits:
  assumes "transaction (bind_tx m f) w d = (Inr u, w', d')" and "\<And>x. commits (f x)"
  obtains x w1 d1 w2 where "m (tick w) d = (Inr x, w1, d1)" and "f x w1 d1 = (Inr (Commit u), w2, d')"
  using assms(1)
proof (cases rule: transaction_InrD)
  case (committed w2)
  then show thesis using that by (auto simp: run_bind)
next
  case (abandoned d2)
  then show thesis using commits_bind [of f m] assms(2) by (auto simp: commits_def)
qed

lemma revoked_rows_closed:
  assumes "s \<in> set (auth_sessions d)" and "P s" and "active_account d (as_account s)"
    and "auth_sessions d' = auth_sessions (revoke_sessions P reason t d)" and "accounts d' = accounts d"
  shows "session_closed (as_id s) d'"
proof -
  let ?s = "s\<lparr>as_revoked_at := (case as_revoked_at s of None \<Rightarrow> Some t | x \<Rightarrow> x),
      as_revoke_reason := Some reason\<rparr>"
  have "?s \<in> set (auth_sessions d')" using assms(1,2) by (auto simp: assms(4) revoke_sessions_def set_update_where)
  moreover have "as_revoked_at ?s \<noteq> None" by (simp split: option.split)
  moreover have "active_account d' (as_account ?s)" using assms(3) active_account_cong [OF assms(5)] by simp
  ultimately have "session_closed (as_id ?s) d'" by (rule close_session)
  then show ?thesis by simp
qed

lemma revoke_credential_effect:
  assumes "revoke_credential a c w d = (Inr u, w', d')"
  obtains x t t' where "x \<in> set (credentials d)" and "live_credential a c x"
    and "x\<lparr>cr_revoked_at := Some t\<rparr> \<in> set (credentials d')" and "accounts d' = accounts d"
    and "auth_sessions d' = auth_sessions (revoke_sessions (\<lambda>s. as_account s = a \<and>
         as_credential s = Some c) ''passkey_revoked'' t' d)"
  using assms unfolding revoke_credential_def
proof (rule transaction_commits, goal_cases)
  case (2 x w1 d1 w2)
  from 2(2) obtain r where r: "r \<in> set (credentials d)" "live_credential a c r"
    by (auto simp: tx_simps dest!: one_rowD)
  then show ?case using 2(2,3)
    by (intro 2(1) [OF r, of "e_clock (env_of (tick w))" "e_clock (env_of w1)"])
       (auto simp: tx_simps set_update_where revoke_sessions_def)
qed (intro commits_bind commits_commit)

lemma revoke_installation_effect:
  assumes "revoke_installation a i w d = (Inr u, w', d')"
  obtains v t t' where "v \<in> set (installs d)" and "live_install a i v"
    and "v\<lparr>di_revoked_at := Some t\<rparr> \<in> set (installs d')" and "accounts d' = accounts d"
    and "auth_sessions d' = auth_sessions (revoke_sessions (\<lambda>s. as_account s = a \<and>
         as_install s = i) ''installation_revoked'' t' d)"
    and "{p \<in> set (push_devices d'). pd_account p = a \<and> pd_install p = i \<and> pd_revoked_at p = None} = {}"
  using assms unfolding revoke_installation_def
proof (rule transaction_commits, goal_cases)
  case (2 x w1 d1 w2)
  let ?P = "\<lambda>s. as_account s = a \<and> as_install s = i"
  let ?t = "e_clock (env_of (tick w))" and ?t' = "e_clock (env_of w1)"
  from 2(2) obtain r where r: "r \<in> set (installs d)" "live_install a i r"
    and d1: "d1 = d\<lparr>installs := update_where (live_install a i) (\<lambda>v. v\<lparr>di_revoked_at := Some ?t\<rparr>) (installs d)\<rparr>"
    by (auto simp: tx_simps dest!: one_rowD)
  from 2(3) obtain t where d': "d' = (revoke_sessions ?P ''installation_revoked'' ?t' d1)\<lparr>push_devices :=
      update_where (\<lambda>v. pd_account v = a \<and> pd_install v = i)
         (\<lambda>v. v\<lparr>pd_revoked_at := (case pd_revoked_at v of None \<Rightarrow> Some t | t \<Rightarrow> t)\<rparr>)
         (push_devices (revoke_sessions ?P ''installation_revoked'' ?t' d1))\<rparr>"
    by (simp add: tx_simps)
  show ?case
  proof (rule 2(1) [OF r, of ?t ?t'])
    show "r\<lparr>di_revoked_at := Some ?t\<rparr> \<in> set (installs d')"
      using r by (simp add: d' d1 revoke_sessions_def set_update_where)
    show "auth_sessions d' = auth_sessions (revoke_sessions ?P ''installation_revoked'' ?t' d)"
      by (simp add: d' d1 revoke_sessions_def)
    have pd: "push_devices d' = update_where (\<lambda>v. pd_account v = a \<and> pd_install v = i)
         (\<lambda>v. v\<lparr>pd_revoked_at := (case pd_revoked_at v of None \<Rightarrow> Some t | t \<Rightarrow> t)\<rparr>)
         (push_devices (revoke_sessions ?P ''installation_revoked'' ?t' d1))"
      by (simp only: d') simp
    show "{p \<in> set (push_devices d'). pd_account p = a \<and> pd_install p = i \<and> pd_revoked_at p = None} = {}"
      unfolding pd by (rule no_row_left) (simp_all split: option.splits)
  qed (simp add: d' d1 revoke_sessions_def)
qed (intro commits_bind commits_commit)

text \<open>A passkey of an active account that is revoked stays revoked, and signs nobody in.\<close>

lemma revoked_credential_refused:
  assumes "c \<in> set (credentials d)" and "cr_revoked_at c \<noteq> None" and "auth_inv d"
  shows "create_login_session a (cr_id c) j g w d \<noteq> (Inr idn, w', d')"
proof
  assume run: "create_login_session a (cr_id c) j g w d = (Inr idn, w', d')"
  have "\<not> live_credential a (cr_id c) x" if "x \<in> set (credentials d)" for x
    using assms that by (auto simp: live_credential_def auth_inv_def dest: distinct_key_eq)
  then have none: "count_where (live_credential a (cr_id c)) (credentials d) = 0"
    by (simp add: count_where_0_iff)
  show False
    using run unfolding create_login_session_def login_body_def
    by (rule transaction_commits) (auto simp: tx_simps none intro: commits_bind commits_commit)
qed

text \<open>
  C24. Revoking a passkey ends every session that was opened with it and closes the door: from
  then on the passkey opens no session, whatever operations follow.
\<close>

theorem revoked_passkey_is_dead:
  assumes "reachable (w, d)" and "active_account d a"
    and "revoke_credential a c w d = (Inr u, w1, d1)" and "along\<^sup>*\<^sup>* (w1, d1) (w2, d2)"
  shows "(\<forall>s \<in> set (auth_sessions d). as_account s = a \<and> as_credential s = Some c \<longrightarrow>
       signed_out (as_id s) (w2, d2)) \<and>
    create_login_session b c j g w2 d2 \<noteq> (Inr idn, w3, d3)"
proof -
  have "along (w, d) (w1, d1)" using along.request [OF requested.revoke_credential, of "(w, d)" a c] by (simp add: after_op_def assms(3))
  then have s1: "sane (w1, d1)" using reachable_sane [OF assms(1)] by (rule along_step_sane)
  have m: "sane (w2, d2)" "auth_mono d1 d2" using along_run_sane [OF assms(4) s1] by simp_all
  show ?thesis
    using assms(3)
  proof (rule revoke_credential_effect)
    fix x t t'
    assume x: "x \<in> set (credentials d)" "live_credential a c x"
        "x\<lparr>cr_revoked_at := Some t\<rparr> \<in> set (credentials d1)" and ac: "accounts d1 = accounts d"
      and se: "auth_sessions d1 = auth_sessions (revoke_sessions (\<lambda>s. as_account s = a \<and>
         as_credential s = Some c) ''passkey_revoked'' t' d)"
    have "signed_out (as_id s) (w2, d2)"
      if "s \<in> set (auth_sessions d)" "as_account s = a \<and> as_credential s = Some c" for s
      using closed_signed_out [OF _ s1 assms(4)] revoked_rows_closed [OF that _ se ac] assms(2) that(2) by simp
    moreover have "create_login_session b c j g w2 d2 \<noteq> (Inr idn, w3, d3)"
    proof -
      have "x\<lparr>cr_revoked_at := Some t\<rparr> \<in> set (held_credentials d1)"
        using x assms(2) active_account_cong [OF ac] by (simp add: held_credentials_def live_credential_def)
      then obtain y where "y \<in> set (held_credentials d2)" "credential_step (x\<lparr>cr_revoked_at := Some t\<rparr>) y"
        using m(2) by (auto simp: auth_mono_def dest: keptD)
      then have "y \<in> set (credentials d2)" "cr_id y = c" "cr_revoked_at y \<noteq> None"
        using x(2) by (auto simp: held_credentials_def credential_step_def live_credential_def)
      then show ?thesis using revoked_credential_refused [of y d2] m(1) by (auto simp: sane_def)
    qed
    ultimately show ?thesis by blast
  qed
qed

theorem revoked_passkey_is_dead_witness:
  "\<exists>w d. revoke_credential 9 ''cred'' (fst demo_ready) demo_tables = (Inr (), w, d) \<and>
     signed_out 71 (w, d) \<and> (\<nexists>x w' d'. create_login_session 9 ''cred'' ''json'' demo_grant w d = (Inr x, w', d'))"
proof -
  have "case revoke_credential 9 ''cred'' (fst demo_ready) demo_tables of
      (Inr _, _, _) \<Rightarrow> True | (Inl _, _) \<Rightarrow> False" by code_simp
  then obtain w d where r: "revoke_credential 9 ''cred'' (fst demo_ready) demo_tables = (Inr (), w, d)"
    by (auto dest!: run_result)
  obtain s where s: "s \<in> set (auth_sessions demo_tables)"
      "as_account s = 9 \<and> as_credential s = Some ''cred''" "as_id s = 71"
    by (simp add: demo_tables_def)
  note dead = revoked_passkey_is_dead [OF demo_reachable demo_active r rtranclp.rtrancl_refl]
  have "signed_out 71 (w, d)"
    using dead [THEN conjunct1, THEN bspec, OF s(1), THEN mp, OF s(2)] s(3) by simp
  moreover have "create_login_session 9 ''cred'' ''json'' demo_grant w d \<noteq> (Inr x, w', d')" for x w' d'
    using dead by blast
  ultimately show ?thesis using r by blast
qed

text \<open>
  C25. Removing a device ends every session it holds, for good, and mutes it: all its push
  registrations are revoked. The device comes back only by signing in again, with a new session.
\<close>

theorem removed_device_signed_out:
  assumes "reachable (w, d)" and "active_account d a"
    and "revoke_installation a i w d = (Inr u, w1, d1)" and "along\<^sup>*\<^sup>* (w1, d1) m"
  shows "(\<forall>s \<in> set (auth_sessions d). as_account s = a \<and> as_install s = i \<longrightarrow> signed_out (as_id s) m) \<and>
    {p \<in> set (push_devices d1). pd_account p = a \<and> pd_install p = i \<and> pd_revoked_at p = None} = {}"
proof -
  have "along (w, d) (w1, d1)" using along.request [OF requested.revoke_installation, of "(w, d)" a i] by (simp add: after_op_def assms(3))
  then have s1: "sane (w1, d1)" using reachable_sane [OF assms(1)] by (rule along_step_sane)
  show ?thesis
    using assms(3)
  proof (rule revoke_installation_effect)
    fix v t t'
    assume ac: "accounts d1 = accounts d"
      and se: "auth_sessions d1 = auth_sessions (revoke_sessions (\<lambda>s. as_account s = a \<and>
         as_install s = i) ''installation_revoked'' t' d)"
      and "{p \<in> set (push_devices d1). pd_account p = a \<and> pd_install p = i \<and> pd_revoked_at p = None} = {}"
    moreover have "signed_out (as_id s) m"
      if "s \<in> set (auth_sessions d)" "as_account s = a \<and> as_install s = i" for s
      using closed_signed_out [OF _ s1 assms(4)] revoked_rows_closed [OF that _ se ac] assms(2) that(2) by simp
    ultimately show ?thesis by blast
  qed
qed

theorem removed_device_signed_out_witness:
  "\<exists>w d. revoke_installation 9 61 (fst demo_ready) demo_tables = (Inr (), w, d) \<and> signed_out 71 (w, d)"
proof -
  have "case revoke_installation 9 61 (fst demo_ready) demo_tables of
      (Inr _, _, _) \<Rightarrow> True | (Inl _, _) \<Rightarrow> False" by code_simp
  then obtain w d where r: "revoke_installation 9 61 (fst demo_ready) demo_tables = (Inr (), w, d)"
    by (auto dest!: run_result)
  obtain s where s: "s \<in> set (auth_sessions demo_tables)" "as_account s = 9 \<and> as_install s = 61" "as_id s = 71"
    by (simp add: demo_tables_def)
  have "signed_out 71 (w, d)"
    using removed_device_signed_out [OF demo_reachable demo_active r rtranclp.rtrancl_refl,
        THEN conjunct1, THEN bspec, OF s(1), THEN mp, OF s(2)] s(3) by simp
  with r show ?thesis by blast
qed

section \<open>Challenges\<close>

lemma consume_challenge_run:
  assumes "consume_challenge i p w d = (Inr g, w', d')"
  obtains c where "List.find (consumable i p (w_clock w (w_step w))) (challenges d) = Some c"
    and "g = \<lparr>cg_id = ch_id c, cg_account = ch_account c, cg_purpose = ch_purpose c,
        cg_session_data = ch_session_data c\<rparr>"
    and "d' = d\<lparr>challenges := update_where (consumable i p (w_clock w (w_step w)))
        (\<lambda>c. c\<lparr>ch_consumed_at := Some (w_clock w (w_step w))\<rparr>) (challenges d)\<rparr>"
  using assms unfolding consume_challenge_def
  by (auto simp: tx_simps env_of_def split: option.splits)

text \<open>
  A challenge is answered once: after it was consumed, no request consumes it again, for any
  purpose and after any operations. A challenge of a registration that never finished may be
  deleted with its account, so its account is nobody or an active one here.
\<close>

theorem challenge_answered_once:
  assumes "reachable (w, d)" and "consume_challenge i p w d = (Inr g, w1, d1)"
    and "cg_account g = None \<or> (\<exists>a. cg_account g = Some a \<and> active_account d a)"
    and "along\<^sup>*\<^sup>* (w1, d1) (w2, d2)"
  shows "consume_challenge i q w2 d2 \<noteq> (Inr g', w3, d3)"
proof
  assume again: "consume_challenge i q w2 d2 = (Inr g', w3, d3)"
  have "along (w, d) (w1, d1)" using along.request [OF requested.consume_challenge, of "(w, d)" i p] by (simp add: after_op_def assms(2))
  then have s1: "sane (w1, d1)" using reachable_sane [OF assms(1)] by (rule along_step_sane)
  have m: "sane (w2, d2)" "auth_mono d1 d2" using along_run_sane [OF assms(4) s1] by simp_all
  obtain c where f: "List.find (consumable i p (w_clock w (w_step w))) (challenges d) = Some c"
    and g: "cg_account g = ch_account c"
    and d1: "d1 = d\<lparr>challenges := update_where (consumable i p (w_clock w (w_step w)))
        (\<lambda>c. c\<lparr>ch_consumed_at := Some (w_clock w (w_step w))\<rparr>) (challenges d)\<rparr>"
    using assms(2) by (auto elim!: consume_challenge_run)
  let ?c = "c\<lparr>ch_consumed_at := Some (w_clock w (w_step w))\<rparr>"
  have c: "c \<in> set (challenges d)" "consumable i p (w_clock w (w_step w)) c" using find_Some_in [OF f] by simp_all
  have "?c \<in> set (challenges d1)" using c by (auto simp: d1 set_update_where)
  moreover have "active_account d1 = active_account d" by (rule active_account_cong) (simp add: d1)
  ultimately have "?c \<in> set (held_challenges d1)"
    using assms(3) by (auto simp: held_challenges_def g)
  then obtain y where "y \<in> set (held_challenges d2)" "challenge_step ?c y"
    using m(2) by (auto simp: auth_mono_def dest: keptD)
  then have y: "y \<in> set (challenges d2)" "ch_id y = i" "ch_consumed_at y \<noteq> None"
    using c(2) by (auto simp: held_challenges_def challenge_step_def consumable_def)
  from again obtain z where "List.find (consumable i q (w_clock w2 (w_step w2))) (challenges d2) = Some z"
    by (rule consume_challenge_run)
  then have z: "z \<in> set (challenges d2)" "ch_id z = i" "ch_consumed_at z = None"
    using find_Some_in by (fastforce simp: consumable_def)+
  have "y = z" using y z m(1) by (auto simp: sane_def auth_inv_def dest: distinct_key_eq)
  with y z show False by simp
qed

theorem challenge_answered_once_witness:
  "\<exists>w d g w1 d1. create_challenge 95 None ''login'' ''data'' (1000 * hour) (fst demo_ready) demo_tables = (Inr (), w, d) \<and>
     consume_challenge 95 ''login'' w d = (Inr g, w1, d1) \<and>
     (\<nexists>x w2 d2. consume_challenge 95 ''login'' w1 d1 = (Inr x, w2, d2))"
proof -
  have "case create_challenge 95 None ''login'' ''data'' (1000 * hour) (fst demo_ready) demo_tables of
      (Inr _, w, d) \<Rightarrow> (case consume_challenge 95 ''login'' w d of
        (Inr g, _, _) \<Rightarrow> cg_account g = None | (Inl _, _) \<Rightarrow> False) | (Inl _, _) \<Rightarrow> False" by code_simp
  then obtain u w d
    where "create_challenge 95 None ''login'' ''data'' (1000 * hour) (fst demo_ready) demo_tables = (Inr u, w, d)"
      and "case consume_challenge 95 ''login'' w d of (Inr g, _, _) \<Rightarrow> cg_account g = None | (Inl _, _) \<Rightarrow> False"
    by (rule run_resultE)
  then have r: "create_challenge 95 None ''login'' ''data'' (1000 * hour) (fst demo_ready) demo_tables = (Inr (), w, d)"
    and "case consume_challenge 95 ''login'' w d of (Inr g, _, _) \<Rightarrow> cg_account g = None | (Inl _, _) \<Rightarrow> False"
    by simp_all
  from run_result [OF this(2)] obtain g w1 d1
    where c: "consume_challenge 95 ''login'' w d = (Inr g, w1, d1)" "cg_account g = None" by blast
  have "along (fst demo_ready, demo_tables) (w, d)"
    using along.request [OF requested.create_challenge, of "(fst demo_ready, demo_tables)" 95 None "''login''" "''data''" "1000 * hour"] r
    by (simp add: after_op_def)
  then have "reachable (w, d)" by (rule reachable_along [OF demo_reachable])
  moreover have "cg_account g = None \<or> (\<exists>a. cg_account g = Some a \<and> active_account d a)" using c(2) by simp
  ultimately have "consume_challenge 95 ''login'' w1 d1 \<noteq> (Inr x, w2, d2)" for x w2 d2
    using c(1) by (intro challenge_answered_once [OF _ c(1) _ rtranclp.rtrancl_refl])
  with c r show ?thesis by blast
qed

section \<open>The check of a request\<close>

text \<open>
  C26. What a request may rely on after the check of its access token: the account is active and
  its name is the registered one, the pair is the one the account is a member of, and the
  session and the installation are the caller's, not revoked, and not expired by the database
  clock. The check itself changes nothing.
\<close>

theorem checked_request:
  assumes "reachable (w, d)" and "validate_auth_session c w d = (Inr idn, w', d')"
  shows "d' = d \<and> known idn d \<and> active_account d (id_account idn) \<and>
    id_account idn = id_account c \<and> id_session idn = id_session c \<and>
    (\<forall>p. id_pair idn = Some p \<longleftrightarrow> pair_member p (id_account idn) d) \<and>
    (\<exists>s \<in> set (auth_sessions d). as_id s = id_session idn \<and> as_account s = id_account idn \<and>
       as_install s = id_installation idn \<and> as_revoked_at s = None \<and>
       w_clock w (w_step w) < as_expires_at s \<and> credential_live d (as_credential s)) \<and>
    (\<exists>v \<in> set (installs d). install_key v = (id_installation idn, id_account idn) \<and> di_revoked_at v = None)"
proof -
  have inv: "pairs_inv d" using goodD(3) [OF reachable_good [OF assms(1)]] by simp
  obtain name p where v: "(name, p) \<in> set (valid_session c (w_clock w (w_step w)) d)"
    and idn: "idn = c\<lparr>id_display_name := name, id_pair := p\<rparr>" and d': "d' = d"
    using assms(2) by (rule validate_InrD)
  from v show ?thesis
  proof (rule valid_session_row)
    fix s a v
    assume r: "s \<in> set (auth_sessions d)" "as_id s = id_session c" "as_account s = id_account c"
      "as_install s = id_installation c" "as_revoked_at s = None" "w_clock w (w_step w) < as_expires_at s"
      "credential_live d (as_credential s)"
      and a: "a \<in> set (accounts d)" "ac_id a = id_account c" "ac_status a = AccountActive" "ac_display_name a = name"
      and p: "pair_of d (id_account c) = p"
      and v: "v \<in> set (installs d)" "di_id v = id_installation c" "di_account v = id_account c" "di_revoked_at v = None"
    have "known idn d" using a by (auto simp: known_def identity_of_def idn find_None_iff)
    moreover have "active_account d (id_account idn)" using a by (auto simp: active_account_def idn)
    moreover have "\<forall>q. id_pair idn = Some q \<longleftrightarrow> pair_member q (id_account idn) d"
      using pair_of_iff [OF inv, of "id_account c"] by (simp add: idn p)
    ultimately show ?thesis using r v d' by (auto simp: idn install_key_def)
  qed
qed

theorem checked_request_witness:
  "\<exists>idn w d. validate_auth_session demo_claim (fst demo_ready) demo_tables = (Inr idn, w, d) \<and>
     known idn demo_tables \<and> active_account demo_tables (id_account idn) \<and> id_pair idn = None"
proof -
  have "case validate_auth_session demo_claim (fst demo_ready) demo_tables of
      (Inr idn, _, _) \<Rightarrow> id_pair idn = None | (Inl _, _) \<Rightarrow> False" by code_simp
  then obtain idn w d where r: "validate_auth_session demo_claim (fst demo_ready) demo_tables = (Inr idn, w, d)"
      "id_pair idn = None" by (auto dest!: run_result)
  with checked_request [OF demo_reachable r(1)] show ?thesis by blast
qed

end
