(* ===== verification/Delivery.thy ===== *)
theory Delivery
  imports Along
begin

text \<open>
  One worker beside the requests. The worker of \<open>cmd/apns-worker\<close> runs alone: between two of its
  steps any requests are served, it may stop and start again with empty hands, and what it held
  comes back when the lock runs out. A batch of \<open>ApnsWorker\<close> is a run of this system.
\<close>

type_synonym delivery = "moment \<times> push_job list"

inductive delivering :: "delivery \<Rightarrow> delivery \<Rightarrow> bool" where
  serve: "requested s t \<Longrightarrow> delivering (s, hand) (t, hand)"
| idle: "advance w w' \<Longrightarrow> delivering ((w, d), hand) ((w', d), hand)"
| take_jobs: "claim_push_jobs n l w d = (Inr js, w', d') \<Longrightarrow> delivering ((w, d), []) ((w', d'), js)"
| take_none: "claim_push_jobs n l w d = (Inl e, w', d') \<Longrightarrow> delivering ((w, d), []) ((w', d'), [])"
| finish: "settle store_queue env x answer w d = (r, w', d') \<Longrightarrow>
    delivering ((w, d), x # hand) ((w', d'), hand)"
| restart: "delivering (s, hand) (s, [])"

text \<open>The moments such a run goes through are those of the whole system.\<close>

lemma delivering_along: "delivering (s, hand) (t, hand') \<Longrightarrow> along\<^sup>*\<^sup>* s t"
proof (induction "(s, hand)" "(t, hand')" rule: delivering.induct)
  case serve
  then show ?case by (auto intro: along.request)
next
  case (idle w w' d)
  then show ?case using served.wait [of "(w, d)" w'] by (metis Pair_inject along.request fst_conv r_into_rtranclp requested.shared snd_conv)
next
  case (take_jobs n l w d w' d')
  then show ?case using along.claim [of "(w, d)" n l] by (auto simp: after_op_def)
next
  case (take_none n l w d e w' d')
  then show ?case using along.claim [of "(w, d)" n l] by (auto simp: after_op_def)
next
  case (finish env x answer w d r w' d')
  then show ?case using along.settling [of "(w, d)" env x answer] by (auto simp: after_op_def)
qed simp

section \<open>Nothing is tried too often\<close>

definition delivery_inv :: "delivery \<Rightarrow> bool" where
  "delivery_inv u \<longleftrightarrow> (case u of (s, hand) \<Rightarrow> sane s \<and> sq.bounded (snd s) \<and>
     distinct (map pj_id hand) \<and> (\<forall>x \<in> set hand. sq.held (snd s) x))"

lemma requested_quiet:
  assumes "requested s t" and "sane s"
  shows "sq.quiet (snd s) (snd t)"
proof -
  have ok: "auth_inv (snd s)" "queue_ok (snd s)" "good s" using assms(2) by (simp_all add: sane_def)
  have "queue_frame (snd s) (snd t)"
    using requested_cases [OF assms(1) ok(1)]
  proof (elim disjE conjE)
    assume "served s t"
    then show ?thesis using served_refines goodD(1) [OF ok(3)] queue_frame_run by blast
  qed (simp add: frame_ok_def)
  then show ?thesis using ok(2) by (rule queue_frame_quiet)
qed

lemma delivery_inv_step:
  assumes "delivering u v" and "delivery_inv u"
  shows "delivery_inv v"
proof -
  have "sane (fst v)"
  proof (cases u; cases v)
    fix s hand t hand'
    assume uv: "u = (s, hand)" "v = (t, hand')"
    then have "along\<^sup>*\<^sup>* s t" "sane s" using assms delivering_along by (simp_all add: delivery_inv_def)
    then show ?thesis using along_run_sane by (simp add: uv)
  qed
  moreover have "sq.bounded (snd (fst v)) \<and> distinct (map pj_id (snd v)) \<and> (\<forall>x \<in> set (snd v). sq.held (snd (fst v)) x)"
    using assms
  proof (induction rule: delivering.induct)
    case (serve s t hand)
    then have "sq.quiet (snd s) (snd t)" using requested_quiet by (simp add: delivery_inv_def)
    with serve(2) show ?case by (auto simp: delivery_inv_def intro: sq.quiet_bounded sq.quiet_held)
  next
    case (take_jobs n l w d js w' d')
    have "q_claim store_queue n l w d = (Inr js, w', d')" using take_jobs(1) by (simp only: store_queue_ops)
    from sq.claimed_held [OF this] take_jobs(2) show ?case by (simp add: delivery_inv_def)
  next
    case (take_none n l w d e w' d')
    then have "d' = d" by (blast dest: claim_failure)
    with take_none(2) show ?case by (simp add: delivery_inv_def)
  next
    case (finish env x answer w d r w' d' hand)
    then have k: "sq.kept_but (pj_id x) d d'" by (intro sq.settle_kept) (simp_all add: delivery_inv_def)
    have "\<forall>y \<in> set hand. sq.held d' y"
      using finish(2) by (auto simp: delivery_inv_def intro!: sq.held_kept [OF k])
    with k finish(2) show ?case by (simp add: delivery_inv_def sq.kept_but_def)
  qed (simp_all add: delivery_inv_def)
  ultimately show ?thesis by (cases v) (simp add: delivery_inv_def)
qed

text \<open>A store whose queue was never tried, and a worker with empty hands.\<close>

definition delivery_initial :: "delivery \<Rightarrow> bool" where
  "delivery_initial u \<longleftrightarrow> (case u of (s, hand) \<Rightarrow> initial s \<and> hand = [] \<and>
     (\<forall>j \<in> set (jobs (snd s)). fresh_job j))"

definition delivered :: "delivery \<Rightarrow> bool" where
  "delivered u \<longleftrightarrow> (\<exists>u0. delivery_initial u0 \<and> delivering\<^sup>*\<^sup>* u0 u)"

lemma delivered_inv: "delivered u \<Longrightarrow> delivery_inv u"
proof -
  have start: "delivery_inv u0" if "delivery_initial u0" for u0
  proof -
    obtain s hand where u: "u0 = (s, hand)" by (cases u0)
    then have u0: "u0 = (s, [])" and s: "initial s" "\<forall>j \<in> set (jobs (snd s)). fresh_job j"
      using that by (simp_all add: delivery_initial_def)
    then have "sane s" by (intro initial_sane)
    moreover have "sq.bounded (snd s)"
      unfolding queue_bounded using \<open>sane s\<close> s(2) by (auto simp: sane_def fresh_job_def job_ok_def)
    ultimately show ?thesis by (simp add: u0 delivery_inv_def)
  qed
  have "delivering\<^sup>*\<^sup>* u0 u \<Longrightarrow> delivery_inv u0 \<Longrightarrow> delivery_inv u" for u0
    by (induction rule: rtranclp_induct) (auto intro: delivery_inv_step)
  then show "delivered u \<Longrightarrow> delivery_inv u" unfolding delivered_def using start by blast
qed

section \<open>A batch is such a run\<close>

lemma process_jobs_delivers:
  assumes "process_jobs store_queue env js p w d = (r, w', d')"
  shows "delivering\<^sup>*\<^sup>* ((w, d), js) ((w', d'), [])"
  using assms
proof (induction js arbitrary: p w d)
  case Nil
  then show ?case by (simp add: ret_def)
next
  case (Cons x js)
  obtain s w1 d1 where s: "send env x p w d = (s, w1, d1)" by (cases "send env x p w d" rule: prod_cases3)
  obtain p1 answer where v: "s = Inr (p1, answer)" "d1 = d" using send_run [OF s] by auto
  obtain r2 w2 d2 where t: "settle store_queue env x answer w1 d = (r2, w2, d2)"
    by (cases "settle store_queue env x answer w1 d" rule: prod_cases3)
  have "process_jobs store_queue env js p1 w2 d2 = (r, w', d')"
    using Cons.prems s v t by (simp add: process_job_def bind_tx_def logged_def ret_def)
  then have "delivering\<^sup>*\<^sup>* ((w2, d2), js) ((w', d'), [])" by (rule Cons.IH)
  moreover have "advance w w1" using advancesD [OF send_advances s] .
  then have "delivering ((w, d), x # js) ((w1, d), x # js)" by (rule delivering.idle)
  moreover have "delivering ((w1, d), x # js) ((w2, d2), js)" using t by (rule delivering.finish)
  ultimately show ?case by (meson converse_rtranclp_into_rtranclp)
qed

lemma process_batch_delivers:
  assumes "process_batch store_queue env p w d = (r, w', d')"
  shows "delivering\<^sup>*\<^sup>* ((w, d), []) ((w', d'), [])"
proof -
  obtain c w1 d1 where c: "claim_push_jobs (ax_batch_size env) minute w d = (c, w1, d1)"
    by (cases "claim_push_jobs (ax_batch_size env) minute w d" rule: prod_cases3)
  show ?thesis
  proof (cases c)
    case (Inl e)
    then have "w' = w1" "d' = d1" using assms c by (simp_all add: process_batch_def store_queue_ops bind_tx_def)
    with c Inl show ?thesis by (auto intro: delivering.take_none)
  next
    case (Inr js)
    then have "process_jobs store_queue env js p w1 d1 = (r, w', d')"
      using assms c by (simp add: process_batch_def store_queue_ops bind_tx_def)
    then have "delivering\<^sup>*\<^sup>* ((w1, d1), js) ((w', d'), [])" by (rule process_jobs_delivers)
    moreover have "delivering ((w, d), []) ((w1, d1), js)" using c Inr by (auto intro: delivering.take_jobs)
    ultimately show ?thesis by (meson converse_rtranclp_into_rtranclp)
  qed
qed

end
