(* ===== verification/QueueProgress.thy ===== *)
theory QueueProgress
  imports ApnsWorker
begin

text \<open>
  A batch gets its jobs on: when the database answers, every claimed job is closed or was tried
  once more. The locale extends the contract of the queue by what that needs: the operations
  succeed, marking a job sent closes it, revoking a device closes its jobs.
\<close>

definition steady :: "world \<Rightarrow> bool" where
  "steady w \<longleftrightarrow> (\<forall>n. w_fault w n = None)"

lemma steady_advance: "steady w \<Longrightarrow> advance w w' \<Longrightarrow> steady w'"
  by (simp add: steady_def advance_def)

lemma retry_job_run:
  assumes "retry_job q env job reason after w d = (r, w', d')" and "\<not> 10 \<le> pj_attempts job"
  obtains n w0 where "q_retry q (pj_id job) (w_now w n + min (if after \<le> 0
      then backoff (pj_attempts job) (ax_random env (w_step w)) else after) hour) reason w0 d = (r, w', d')"
    and "advance w w0" and "w_step w \<le> n" and "n < w_step w0"
proof (cases "after \<le> 0")
  case True
  then show thesis using assms that [of "Suc (w_step w)" "tick (tick w)"]
    by (simp add: retry_job_def bind_tx_def observe_def ret_def go_now_def advance_def tick_def)
next
  case False
  then show thesis using assms that [of "w_step w" "tick w"]
    by (simp add: retry_job_def bind_tx_def ret_def go_now_def advance_def tick_def)
qed

locale live_queue = push_queue +
  fixes known :: "'a \<Rightarrow> uuid \<Rightarrow> bool" and owner :: "'a \<Rightarrow> uuid \<Rightarrow> uuid \<Rightarrow> bool"
  assumes moves: "advances (q_sent q i)" "advances (q_retry q i t r)" "advances (q_fail q i r)"
      "advances (q_revoke q v r)" "advances (q_claim q n l)"
    and succeeds: "steady w \<Longrightarrow> \<exists>w' d'. q_sent q i w d = (Inr (), w', d')"
      "steady w \<Longrightarrow> \<exists>w' d'. q_retry q i t r w d = (Inr (), w', d')"
      "steady w \<Longrightarrow> \<exists>w' d'. q_fail q i r w d = (Inr (), w', d')"
      "steady w \<Longrightarrow> known d v \<Longrightarrow> \<exists>w' d'. q_revoke q v r w d = (Inr (), w', d')"
    and keeps: "q_sent q i w d = (Inr u, w', d') \<Longrightarrow> known d' = known d \<and> owner d' = owner d"
      "q_retry q i t r w d = (Inr u, w', d') \<Longrightarrow> known d' = known d \<and> owner d' = owner d"
      "q_fail q i r w d = (Inr u, w', d') \<Longrightarrow> known d' = known d \<and> owner d' = owner d"
      "q_revoke q v r w d = (Inr u, w', d') \<Longrightarrow> known d' = known d \<and> owner d' = owner d"
    and closes: "q_sent q i w d = (Inr u, w', d') \<Longrightarrow> \<not> is_open d' i"
      "q_revoke q v r w d = (Inr u, w', d') \<Longrightarrow> owner d v i \<Longrightarrow> \<not> is_open d' i"
    and owned: "q_claim q n l w d = (Inr js, w', d') \<Longrightarrow> valid d \<Longrightarrow> x \<in> set js \<Longrightarrow>
      known d' (pj_device x) \<and> owner d' (pj_device x) (pj_id x)"
begin

text \<open>The worker knows what it holds, and has got a job on.\<close>

definition ready :: "'a \<Rightarrow> push_job \<Rightarrow> bool" where
  "ready d x \<longleftrightarrow> tried d (pj_id x) = Some (pj_attempts x) \<and> known d (pj_device x) \<and>
     owner d (pj_device x) (pj_id x)"

definition got_on :: "'a \<Rightarrow> push_job \<Rightarrow> bool" where
  "got_on d x \<longleftrightarrow> \<not> is_open d (pj_id x) \<or> tried d (pj_id x) = Some (pj_attempts x + 1)"

definition others_kept :: "uuid \<Rightarrow> 'a \<Rightarrow> 'a \<Rightarrow> bool" where
  "others_kept i d d' \<longleftrightarrow> valid d' \<and> known d' = known d \<and> owner d' = owner d \<and>
     (\<forall>k. k \<noteq> i \<longrightarrow> tried d' k = tried d k) \<and> (\<forall>k. is_open d' k \<longrightarrow> is_open d k)"

lemma retry_gets_on:
  assumes "retry_job q env x reason after w d = (r, w', d')" and "steady w" and "valid d" and "ready d x"
  shows "r = Inr () \<and> got_on d' x \<and> others_kept (pj_id x) d d'"
proof (cases "10 \<le> pj_attempts x")
  case True
  obtain w1 d1 where f: "q_fail q (pj_id x) (''retry_limit: '' @ reason) w d = (Inr (), w1, d1)"
    using succeeds(3) [OF assms(2)] by blast
  then have "r = Inr ()" "d' = d1" using assms(1) True by (simp_all add: retry_job_def)
  with fail [OF f assms(3)] keeps(3) [OF f] show ?thesis by (simp add: got_on_def others_kept_def)
next
  case False
  obtain t w0 where run: "q_retry q (pj_id x) t reason w0 d = (r, w', d')" and "advance w w0"
    using assms(1) False by (rule retry_job_run)
  obtain w1 d1 where f: "q_retry q (pj_id x) t reason w0 d = (Inr (), w1, d1)"
    using succeeds(2) [OF steady_advance [OF assms(2) \<open>advance w w0\<close>]] by blast
  then have "r = Inr ()" "d' = d1" using run by simp_all
  with retry [OF f assms(3)] keeps(2) [OF f] assms(4) show ?thesis
    by (simp add: got_on_def others_kept_def ready_def)
qed

lemma settle_gets_on:
  assumes run: "settle q env x answer w d = (r, w', d')" and w: "steady w" and v: "valid d" and x: "ready d x"
  shows "r = Inr () \<and> got_on d' x \<and> others_kept (pj_id x) d d'"
  using run
proof (cases rule: settle_cases)
  case retried
  then show ?thesis using w v x by (rule retry_gets_on)
next
  case sending: sent
  then obtain w1 d1 where f: "q_sent q (pj_id x) w d = (Inr (), w1, d1)" using succeeds(1) [OF w] by blast
  with sending have "r = Inr ()" "d' = d1" by simp_all
  with sent [OF f v] keeps(1) [OF f] closes(1) [OF f] show ?thesis by (simp add: got_on_def others_kept_def)
next
  case (revoked reason)
  have "known d (pj_device x)" "owner d (pj_device x) (pj_id x)" using x by (simp_all add: ready_def)
  then obtain w1 d1 where f: "q_revoke q (pj_device x) reason w d = (Inr (), w1, d1)"
    using succeeds(4) [OF w] by blast
  with revoked have "r = Inr ()" "d' = d1" by simp_all
  with revoke [OF f v] keeps(4) [OF f] closes(2) [OF f] x show ?thesis
    by (simp add: got_on_def others_kept_def ready_def)
next
  case (failed reason)
  then obtain w1 d1 where f: "q_fail q (pj_id x) reason w d = (Inr (), w1, d1)" using succeeds(3) [OF w] by blast
  with failed have "r = Inr ()" "d' = d1" by simp_all
  with fail [OF f v] keeps(3) [OF f] show ?thesis by (simp add: got_on_def others_kept_def)
qed

lemma others_ready: "others_kept i d d' \<Longrightarrow> ready d x \<Longrightarrow> i \<noteq> pj_id x \<Longrightarrow> ready d' x"
  by (auto simp: others_kept_def ready_def)

lemma process_jobs_get_on:
  assumes "process_jobs q env js p w d = (r, w', d')" and "steady w" and "valid d"
    and "distinct (map pj_id js)" and "\<forall>x \<in> set js. ready d x"
  shows "(\<forall>x \<in> set js. got_on d' x) \<and> (\<forall>k. k \<notin> pj_id ` set js \<longrightarrow> tried d' k = tried d k) \<and>
    (\<forall>k. is_open d' k \<longrightarrow> is_open d k)"
  using assms
proof (induction js arbitrary: p w d)
  case Nil
  then show ?case by (simp add: ret_def)
next
  case (Cons x js)
  obtain s w0 d0 where s: "send env x p w d = (s, w0, d0)" by (cases "send env x p w d" rule: prod_cases3)
  obtain p1 answer where v: "s = Inr (p1, answer)" "d0 = d" using send_run [OF s] by auto
  obtain r1 w1 d1 where t: "settle q env x answer w0 d = (r1, w1, d1)"
    by (cases "settle q env x answer w0 d" rule: prod_cases3)
  have w0: "steady w0" using Cons.prems(2) advancesD [OF send_advances s] by (rule steady_advance)
  have g: "got_on d1 x" "others_kept (pj_id x) d d1"
    using settle_gets_on [OF t w0 Cons.prems(3)] Cons.prems(5) by simp_all
  have rest: "process_jobs q env js p1 w1 d1 = (r, w', d')"
    using Cons.prems(1) s v t by (simp add: process_job_def bind_tx_def logged_def ret_def)
  have "advances (settle q env x answer)" by (intro settle_advances moves)
  then have "advance w0 w1" using t by (rule advancesD)
  then have "steady w1" using w0 steady_advance by blast
  moreover have "valid d1" using g(2) by (simp add: others_kept_def)
  moreover have "\<forall>y \<in> set js. ready d1 y"
    using Cons.prems(4,5) by (auto intro!: others_ready [OF g(2)])
  ultimately have ih: "\<forall>y \<in> set js. got_on d' y" "\<forall>k. k \<notin> pj_id ` set js \<longrightarrow> tried d' k = tried d1 k"
    "\<forall>k. is_open d' k \<longrightarrow> is_open d1 k"
    using Cons.IH [OF rest] Cons.prems(4) by simp_all
  have "got_on d' x" using g(1) ih(2,3) Cons.prems(4) by (auto simp: got_on_def)
  with ih g(2) show ?case by (auto simp: others_kept_def)
qed

lemma batch_gets_on:
  assumes "q_claim q (ax_batch_size env) minute w d = (Inr js, w1, d1)"
    and "process_batch q env p w d = (r, w', d')" and "steady w" and "valid d"
  shows "\<forall>x \<in> set js. got_on d' x"
proof -
  have "process_jobs q env js p w1 d1 = (r, w', d')"
    using assms(1,2) by (simp add: process_batch_def bind_tx_def)
  moreover have "steady w1" using assms(3) advancesD [OF moves(5) assms(1)] by (rule steady_advance)
  moreover note c = claim [OF assms(1,4)]
  moreover have "\<forall>x \<in> set js. ready d1 x" using c owned [OF assms(1,4)] by (simp add: ready_def)
  ultimately show ?thesis using process_jobs_get_on by blast
qed

end

section \<open>The store gets its jobs on\<close>

definition device_known :: "db \<Rightarrow> uuid \<Rightarrow> bool" where
  "device_known d v \<longleftrightarrow> 0 < count_where (\<lambda>x. pd_id x = v) (push_devices d)"

definition job_owner :: "db \<Rightarrow> uuid \<Rightarrow> uuid \<Rightarrow> bool" where
  "job_owner d v i \<longleftrightarrow> (\<forall>j \<in> set (jobs d). jb_id j = i \<longrightarrow> jb_device j = v)"

lemma update_job_steady:
  assumes "steady w"
  shows "update_job i f w d = (Inr (), tick w, d\<lparr>jobs :=
    update_where (\<lambda>j. jb_id j = i) (f (e_clock (env_of w))) (jobs d)\<rparr>)"
  using assms by (simp add: update_job_def exec_def sql_def steady_def)

lemma revoke_steady:
  assumes "steady w" and "device_known d v"
  shows "\<exists>w' d'. revoke_push_token v r w d = (Inr (), w', d')"
  using assms
  by (simp add: revoke_push_token_def transaction_def select_def sql_def exec_def bind_tx_def commit_def
      ret_def steady_def device_known_def tick_def)

lemma claim_steady:
  assumes "steady w" and "0 \<le> n"
  shows "\<exists>js w' d'. claim_push_jobs n l w d = (Inr js, w', d')"
  using assms
  by (simp add: claim_push_jobs_def transaction_def select_def sql_def bind_tx_def commit_def ret_def
      steady_def claim_rows_def require_def Let_def tick_def)

lemma count_update_where:
  assumes "\<And>x. P x \<Longrightarrow> Q (f x) = Q x"
  shows "count_where Q (update_where P f rows) = count_where Q rows"
  by (induction rows) (use assms in \<open>auto simp: count_where_def\<close>)

lemma store_keeps:
  assumes "\<And>c j. jb_id (f c j) = jb_id j" and "\<And>c j. jb_device (f c j) = jb_device j"
    and "update_job i f w d = (Inr u, w', d')"
  shows "device_known d' = device_known d \<and> job_owner d' = job_owner d"
proof -
  obtain c where d': "d' = d\<lparr>jobs := update_where (\<lambda>j. jb_id j = i) (f c) (jobs d)\<rparr>"
    using assms(3) by (auto simp: update_job_def tx_simps)
  show ?thesis
    unfolding d' device_known_def job_owner_def by (simp add: all_update_where assms(1,2) fun_eq_iff)
qed

lemma revoke_keeps:
  assumes "d' = fail_device_jobs v r c (d\<lparr>push_devices := update_where (\<lambda>x. pd_id x = v) (revoke_device_row c') (push_devices d)\<rparr>)"
  shows "device_known d' = device_known d" and "job_owner d' = job_owner d"
    and "job_owner d v i \<Longrightarrow> \<not> job_open d' i"
proof -
  show "device_known d' = device_known d"
    by (simp add: assms fail_device_jobs_def device_known_def count_update_where revoke_device_row_def fun_eq_iff)
  show "job_owner d' = job_owner d"
    by (simp add: assms fail_device_jobs_def job_owner_def all_update_where fun_eq_iff)
  show "\<not> job_open d' i" if "job_owner d v i"
  proof -
    have "\<not> (\<exists>j \<in> set (update_where (\<lambda>j. jb_device j = v \<and> unfinished j) (\<lambda>j. j\<lparr>jb_failed_at :=
          (case jb_failed_at j of None \<Rightarrow> Some c | Some t \<Rightarrow> Some t), jb_locked_until := None,
          jb_last_error := Some r\<rparr>) rows). jb_id j = i \<and> unfinished j)"
      if "\<forall>j \<in> set rows. jb_id j = i \<longrightarrow> jb_device j = v" for rows
      using that by (induction rows) (auto simp: unfinished_def split: option.splits)
    then show ?thesis using that by (simp add: job_open_def job_owner_def assms fail_device_jobs_def)
  qed
qed

interpretation live: live_queue store_queue queue_ok times_tried job_open device_known job_owner
proof unfold_locales
  show "advances (q_sent store_queue i)" "advances (q_retry store_queue i t r)" "advances (q_fail store_queue i r)"
    "advances (q_revoke store_queue v r)" "advances (q_claim store_queue n l)" for i t r v n l
    unfolding store_queue_ops by (intro adv_intros)+
  show "\<exists>w' d'. q_sent store_queue i w d = (Inr (), w', d')" "\<exists>w' d'. q_retry store_queue i t r w d = (Inr (), w', d')"
    "\<exists>w' d'. q_fail store_queue i r w d = (Inr (), w', d')" if "steady w" for i t r w d
    unfolding store_queue_ops update_job_steady [OF that] by simp_all
  show "\<exists>w' d'. q_revoke store_queue v r w d = (Inr (), w', d')" if "steady w" "device_known d v" for v r w d
    using revoke_steady [OF that] unfolding store_queue_ops .
  show "device_known d' = device_known d \<and> job_owner d' = job_owner d"
    if "q_sent store_queue i w d = (Inr u, w', d')" for i w d u w' d'
    using store_keeps [OF _ _ that [unfolded store_queue_ops]] by (simp add: sent_row_def)
  show "device_known d' = device_known d \<and> job_owner d' = job_owner d"
    if "q_retry store_queue i t r w d = (Inr u, w', d')" for i t r w d u w' d'
    using store_keeps [OF _ _ that [unfolded store_queue_ops]] by (simp add: retry_row_def)
  show "device_known d' = device_known d \<and> job_owner d' = job_owner d"
    if "q_fail store_queue i r w d = (Inr u, w', d')" for i r w d u w' d'
    using store_keeps [OF _ _ that [unfolded store_queue_ops]] by (simp add: failed_row_def)
  show "device_known d' = device_known d \<and> job_owner d' = job_owner d"
    if "q_revoke store_queue v r w d = (Inr u, w', d')" for v r w d u w' d'
    using that [unfolded store_queue_ops] by (rule revoke_run) (use revoke_keeps in blast)
  show "\<not> job_open d' i" if run: "q_sent store_queue i w d = (Inr u, w', d')" for i w d u w' d'
  proof -
    have closed: "\<not> (\<exists>j \<in> set (update_where (\<lambda>j. jb_id j = i) (sent_row c) rows). jb_id j = i \<and> unfinished j)" for c rows
      by (induction rows) (auto simp: sent_row_def unfinished_def)
    obtain c where "d' = d\<lparr>jobs := update_where (\<lambda>j. jb_id j = i) (sent_row c) (jobs d)\<rparr>"
      using run [unfolded store_queue_ops] by (auto simp: update_job_def tx_simps)
    then show ?thesis using closed by (simp add: job_open_def)
  qed
  show "\<not> job_open d' i" if "q_revoke store_queue v r w d = (Inr u, w', d')" "job_owner d v i" for v r w d u w' d' i
    using that(1) [unfolded store_queue_ops] by (rule revoke_run) (use revoke_keeps(3) that(2) in blast)
  show "device_known d' (pj_device x) \<and> job_owner d' (pj_device x) (pj_id x)"
    if run: "q_claim store_queue n l w d = (Inr js, w', d')" and ok: "queue_ok d" and mem: "x \<in> set js"
    for n l w d js w' d' x
    using run [unfolded store_queue_ops]
  proof (rule claim_run)
    fix c
    assume js: "js = map push_job_of (take (nat n) (claim_candidates c d))"
      and d': "d' = lock_jobs (map pj_id js) (c + whole_seconds l * second) d"
    obtain j v where x: "x = push_job_of (j, v)" "(j, v) \<in> set (claim_candidates c d)"
      using mem by (auto simp: js dest: in_set_takeD)
    then have jv: "j \<in> set (jobs d)" "v \<in> set (push_devices d)" "pd_id v = jb_device j"
      using claim_candidates_set by blast+
    have "device_known d (pd_id v)" using jv(2) unfolding device_known_def neq0_conv [symmetric] count_where_0_iff by blast
    moreover have "job_owner d (jb_device j) (jb_id j)"
      using jv(1) ok unfolding job_owner_def queue_ok_def by (metis distinct_key_eq)
    ultimately show ?thesis using jv(3) x(1)
      by (simp add: d' push_job_of_def lock_jobs_def device_known_def job_owner_def all_update_where)
  qed
qed

end
