(* ===== verification/PushProperties.thy ===== *)
theory PushProperties
  imports RevocationProperties Delivery QueueProgress
begin

text \<open>
  What the notification queue promises: a bounded number of attempts, no job in two hands at once,
  nothing sent to a device that was signed out, payloads Apple accepts, and a settlement of every
  answer that brings the job closer to its end.
\<close>

section \<open>A queue with one job\<close>

definition bo_install :: install_row where
  "bo_install = \<lparr>di_id = 82, di_account = 2, di_platform = ''ios'', di_name = ''phone'',
     di_created_at = 0, di_last_seen_at = 0, di_revoked_at = None\<rparr>"

definition push_start :: moment where
  "push_start = (demo_world, (snd demo_start)\<lparr>installs := [bo_install]\<rparr>)"

text \<open>Bo's phone registers for notifications, and Ada opens the room.\<close>

definition push_registered :: moment where
  "push_registered =
     after_op (register_push_device id 2 82 ''token'' ''cipher'' ''sandbox'' ''along'') push_start"

definition push_opened :: moment where
  "push_opened = after_op (start_session (ada\<lparr>id_pair := Some 1100\<rparr>) 31 7) (after_op (accept_pair_invite 2 ''hash'')
     (after_op (create_pair_invite 1 5 ''hash'' hour) push_registered))"

lemma push_start_initial: "initial push_start"
  by (auto simp: initial_def push_start_def demo_start_def clock_ok_def demo_world_def mono_def min_def auth_inv_def
      tokens_inv_def queue_ok_def empty_db_def demo_account_def bo_install_def)

lemma push_registered_reachable: "reachable push_registered"
  unfolding push_registered_def
  by (rule reachable_along [OF reachable_initial [OF push_start_initial] along.request [OF requested.register_push]])

lemma push_opened_reachable: "reachable push_opened"
  unfolding push_opened_def
  by (intro reachable_step [OF _ served.start] reachable_step [OF _ served.accept_invite]
      reachable_step [OF _ served.create_invite] push_registered_reachable)

definition bo_job :: job_row where
  "bo_job = \<lparr>jb_id = 1320, jb_pair = 1100, jb_recipient = 2, jb_device = 1000, jb_cursor = 2,
     jb_kind = ''focus_started'', jb_payload = \<lparr>pp_title = ''Along'',
       pp_body = ''Your partner started a focus.'', pp_deep_link = ''along:///focus''\<rparr>,
     jb_attempts = 0, jb_available_at = 32 * second, jb_locked_until = None, jb_sent_at = None,
     jb_failed_at = None, jb_last_error = None, jb_created_at = 32 * second\<rparr>"

definition push_view :: focus_session where
  "push_view = (demo_session SessionOpen 1 [\<lparr>pt_account = 1, pt_display_name = ''Ada'',
     pt_joined_at = 24 * second\<rparr>])\<lparr>ses_pair := 1100, ses_started_at := 24 * second,
     ses_ends_at := 1524 * second\<rparr>"

definition push_db :: db where
  "push_db = (snd demo_start)\<lparr>installs := [bo_install],
     pairs := [\<lparr>pr_id = 1100, pr_created_at = 12 * second, pr_dissolved_at = None\<rparr>],
     members := [\<lparr>pm_pair = 1100, pm_account = 1, pm_joined_at = 13 * second\<rparr>,
       \<lparr>pm_pair = 1100, pm_account = 2, pm_joined_at = 13 * second\<rparr>],
     invites := [\<lparr>iv_id = 5, iv_created_by = 1, iv_token_hash = ''hash'', iv_expires_at = hour,
       iv_accepted_by = Some 2, iv_accepted_at = Some (14 * second), iv_revoked_at = None\<rparr>],
     sessions := [demo_row\<lparr>fs_pair := 1100, fs_state := SessionOpen, fs_started_at := 24 * second,
       fs_ends_at := 1524 * second, fs_version := 1, fs_updated_at := 25 * second\<rparr>],
     session_members := [\<lparr>sm_session = 7, sm_account = 1, sm_joined_at = 24 * second\<rparr>],
     idempotency := [\<lparr>ik_account = 1, ik_key = 31, ik_operation = ''session.start'',
       ik_response = RSession push_view, ik_expires_at = 604833 * second\<rparr>],
     events := [\<lparr>pe_cursor = 1, pe_pair = 1100, pe_type = ''pair.created'', pe_entity = Some 1100,
         pe_actor = Some 2, pe_payload = PPairCreated 1100 [1, 2], pe_created_at = 15 * second\<rparr>,
       \<lparr>pe_cursor = 2, pe_pair = 1100, pe_type = ''session.started'', pe_entity = Some 7,
         pe_actor = Some 1, pe_payload = PSession push_view, pe_created_at = 30 * second\<rparr>],
     push_devices := [\<lparr>pd_id = 1000, pd_account = 2, pd_install = 82, pd_token_hash = ''token'',
       pd_token_cipher = ''cipher'', pd_environment = ''sandbox'', pd_topic = ''along'',
       pd_created_at = second, pd_revoked_at = None\<rparr>],
     jobs := [bo_job],
     notified := [\<lparr>hint_pair = 1100, hint_cursor = 1\<rparr>, \<lparr>hint_pair = 1100, hint_cursor = 2\<rparr>]\<rparr>"

definition push_room :: moment where
  "push_room = (demo_world\<lparr>w_step := 40, w_seq := 2\<rparr>, push_db)"

lemma push_opened_computed:
  "case push_opened of (w, d) \<Rightarrow> d = push_db \<and> w_step w \<le> 40 \<and> w_seq w = 2"
  by code_simp

lemma push_room_waits: "requested push_opened push_room"
proof -
  obtain w d where o: "push_opened = (w, d)" by (cases push_opened)
  have c: "d = push_db" "w_step w \<le> 40" "w_seq w = 2" using push_opened_computed by (simp_all add: o)
  have "along\<^sup>*\<^sup>* push_start push_opened"
    unfolding push_opened_def push_registered_def
    by (meson along.request requested.shared requested.register_push served.start served.accept_invite
        served.create_invite rtranclp.rtrancl_into_rtrancl rtranclp.rtrancl_refl)
  then have "advance (fst push_start) w"
    using along_run_sane [OF _ initial_sane [OF push_start_initial]] by (auto simp: o)
  then have "served (w, d) (demo_world\<lparr>w_step := 40, w_seq := 2\<rparr>, d)"
    using served.wait [of "(w, d)" "demo_world\<lparr>w_step := 40, w_seq := 2\<rparr>"] c
    by (simp add: advance_def push_start_def)
  then show ?thesis by (simp add: push_room_def o c requested.shared)
qed

lemma push_room_reachable: "reachable push_room"
  by (rule reachable_along [OF push_opened_reachable along.request [OF push_room_waits]])

lemma push_room_jobs: "jobs (snd push_room) = [bo_job]"
  by (simp add: push_room_def push_db_def)

section \<open>Attempts\<close>

lemma reachable_queue: "reachable s \<Longrightarrow> queue_ok (snd s)"
  using reachable_sane by (simp add: sane_def)

lemma push_room_delivered: "delivered (push_room, [])"
proof -
  have start: "delivery_initial (push_start, [])"
    using push_start_initial by (simp add: delivery_initial_def push_start_def demo_start_def empty_db_def)
  have then_serve: "delivering\<^sup>*\<^sup>* u (s, []) \<Longrightarrow> requested s t \<Longrightarrow> delivering\<^sup>*\<^sup>* u (t, [])" for u s t
    by (meson delivering.serve rtranclp.rtrancl_into_rtrancl)
  have "delivering\<^sup>*\<^sup>* (push_start, []) (push_room, [])"
    unfolding push_registered_def
    by (rule then_serve [OF _ push_room_waits], unfold push_opened_def push_registered_def)
      (intro then_serve [OF _ requested.shared [OF served.start]]
        then_serve [OF _ requested.shared [OF served.accept_invite]]
        then_serve [OF _ requested.shared [OF served.create_invite]]
        then_serve [OF _ requested.register_push] rtranclp.rtrancl_refl)
  with start show ?thesis unfolding delivered_def by blast
qed



section \<open>Payloads\<close>

lemma small_push_document: "small_push p \<Longrightarrow> length (apns_document p) \<le> 4096"
  using json_string_length [of "pp_title p"] json_string_length [of "pp_body p"]
    json_string_length [of "pp_deep_link p"]
  by (simp add: small_push_def apns_document_length)

text \<open>
  C33. Every notification the store has queued fits in the four KiB Apple accepts: encoding it
  never fails.
\<close>

theorem queued_payloads_fit:
  assumes "reachable (w, d)" and "j \<in> set (jobs d)"
  shows "\<exists>bytes. apns_payload (jb_payload j) = Inr bytes \<and> length bytes \<le> 4096"
proof -
  have "small_push (jb_payload j)" using reachable_queue [OF assms(1)] assms(2) by (simp add: queue_ok_def)
  from small_push_document [OF this] show ?thesis by (simp add: apns_payload_def)
qed

lemma queued_payloads_fit_witness: "\<exists>bytes. apns_payload (jb_payload bo_job) = Inr bytes"
  using queued_payloads_fit [of "fst push_room" "snd push_room" bo_job] push_room_reachable
  by (auto simp: push_room_jobs)

section \<open>Claims\<close>

lemma pair_run_queue:
  "pair_run s t \<Longrightarrow> (\<exists>js. jobs (snd t) = jobs (snd s) @ js) \<and> push_devices (snd t) = push_devices (snd s)"
proof (induction rule: rtranclp_induct)
  case (step t u)
  have "(\<exists>js. jobs (snd u) = jobs (snd t) @ js) \<and> push_devices (snd u) = push_devices (snd t)"
    using step(2) by (induction rule: pair_step.induct) (auto simp: add_event_def put_session_def)
  then show ?case using step(3) by auto
qed simp

lemma served_queue:
  assumes "served\<^sup>*\<^sup>* (w, d) (w', d')" and "reachable (w, d)"
  shows "set (jobs d) \<subseteq> set (jobs d')" and "push_devices d' = push_devices d" and "queue_ok d'"
  using pair_run_queue [OF served_good(2) [OF assms(1) reachable_good [OF assms(2)]]]
    reachable_queue [OF reachable_run [OF assms(2,1)]] by auto

text \<open>What a claim returns, row by row.\<close>

lemma claimed_row:
  assumes "claim_push_jobs n l w d = (Inr js, w', d')" and "x \<in> set js"
  obtains j v where "j \<in> set (jobs d)" and "v \<in> set (push_devices d)" and "x = push_job_of (j, v)"
    and "claimable (w_clock w (Suc (w_step w))) j" and "pd_id v = jb_device j" and "pd_revoked_at v = None"
  using assms(1)
proof (rule claim_run)
  fix c
  assume c: "js = map push_job_of (take (nat n) (claim_candidates c d))" "c = w_clock w (Suc (w_step w))"
  then obtain j v where jv: "x = push_job_of (j, v)" "(j, v) \<in> set (claim_candidates c d)"
    using assms(2) by (auto dest: in_set_takeD)
  then have "j \<in> set (jobs d)" "v \<in> set (push_devices d)" "claimable c j" "pd_id v = jb_device j" "pd_revoked_at v = None"
    by (auto simp: claim_candidates_joined)
  with jv c(2) that show thesis by blast
qed

lemma claim_reachable:
  assumes "reachable (w, d)" and "claim_push_jobs n l w d = (r, w', d')"
  shows "reachable (w', d')"
  using reachable_along [OF assms(1) along.claim [of "(w, d)" n l]] assms(2) by (simp add: after_op_def)


definition push_claimed where
  "push_claimed = claim_push_jobs 50 minute (fst push_room) (snd push_room)"

text \<open>A second worker that claims five seconds later is given nothing.\<close>

lemma push_claimed_computed:
  "case push_claimed of (Inr js, w, d) \<Rightarrow> map pj_id js = [1320] \<and> w_step w = 43 \<and>
       w_clock w (Suc (w_step w)) \<le> w_clock (fst push_room) (Suc (w_step (fst push_room))) + whole_seconds minute * second \<and>
       (case claim_push_jobs 50 minute w d of (Inr _, _, _) \<Rightarrow> True | (Inl _, _) \<Rightarrow> False)
   | (Inl _, _) \<Rightarrow> False"
  by code_simp


text \<open>
  A device that was removed is muted at once: whatever requests are served after it, no claim
  hands out a notification for one of its registrations.
\<close>

theorem removed_device_muted:
  assumes "reachable (w, d)" and "revoke_installation a i w d = (Inr u, w1, d1)"
    and "served\<^sup>*\<^sup>* (w1, d1) (w2, d2)" and "claim_push_jobs n l w2 d2 = (Inr js, w3, d3)"
  shows "\<forall>x \<in> set js. \<forall>v \<in> set (push_devices d2). pd_account v = a \<and> pd_install v = i \<longrightarrow> pd_id v \<noteq> pj_device x"
proof (intro ballI impI notI)
  fix x v
  assume x: "x \<in> set js" and v: "v \<in> set (push_devices d2)" "pd_account v = a \<and> pd_install v = i"
    and same: "pd_id v = pj_device x"
  have muted: "{p \<in> set (push_devices d1). pd_account p = a \<and> pd_install p = i \<and> pd_revoked_at p = None} = {}"
    using assms(2) by (rule revoke_installation_effect)
  have "along (w, d) (w1, d1)"
    using along.request [OF requested.revoke_installation, of "(w, d)" a i] by (simp add: after_op_def assms(2))
  note q = served_queue [OF assms(3) reachable_along [OF assms(1) this]]
  obtain j y where y: "y \<in> set (push_devices d2)" "x = push_job_of (j, y)" "pd_revoked_at y = None"
    by (rule claimed_row [OF assms(4) x])
  have u: "distinct (map pd_id (push_devices d2))" using q(3) by (simp add: queue_ok_def)
  have "pd_id v = pd_id y" using same y(2) by (simp add: push_job_of_def)
  then have vy: "v = y" using u v(1) y(1) by (intro distinct_key_eq [where k = pd_id])
  have "y \<in> {p \<in> set (push_devices d1). pd_account p = a \<and> pd_install p = i \<and> pd_revoked_at p = None}"
    using v y(1,3) unfolding vy q(2) by simp
  then show False unfolding muted by simp
qed

lemma revoke_installation_steady:
  assumes "steady w" and "count_where (live_install a i) (installs d) = 1"
  shows "\<exists>w' d'. revoke_installation a i w d = (Inr (), w', d') \<and>
    map (\<lambda>v. (pd_id v, pd_account v, pd_install v)) (push_devices d') =
    map (\<lambda>v. (pd_id v, pd_account v, pd_install v)) (push_devices d)"
  using assms
  by (simp add: revoke_installation_def transaction_def select_def sql_def exec_def exec_one_def bind_tx_def
      commit_def ret_def steady_def tick_def revoke_sessions_def map_update_where)

lemma removed_device_muted_witness:
  "\<exists>w1 d1 js w2 d2. revoke_installation 2 82 (fst push_room) (snd push_room) = (Inr (), w1, d1) \<and>
     claim_push_jobs 50 minute w1 d1 = (Inr js, w2, d2) \<and> (\<forall>x \<in> set js. pj_device x \<noteq> 1000)"
proof -
  have s: "steady (fst push_room)" by (simp add: push_room_def steady_def demo_world_def)
  have "count_where (live_install 2 82) (installs (snd push_room)) = 1"
    by (simp add: push_room_def push_db_def bo_install_def live_install_def count_where_def)
  then obtain w1 d1 where r: "revoke_installation 2 82 (fst push_room) (snd push_room) = (Inr (), w1, d1)"
    and v: "map (\<lambda>v. (pd_id v, pd_account v, pd_install v)) (push_devices d1) =
      map (\<lambda>v. (pd_id v, pd_account v, pd_install v)) (push_devices (snd push_room))"
    using revoke_installation_steady [OF s] by blast
  note s
  moreover have "advance (fst push_room) w1"
    using r by (rule advancesD [rotated]) (unfold revoke_installation_def, intro adv_intros)
  ultimately have "steady w1" by (rule steady_advance)
  then obtain js w2 d2 where k: "claim_push_jobs 50 minute w1 d1 = (Inr js, w2, d2)"
    using claim_steady [of w1 50 minute d1] by auto
  have "reachable (fst push_room, snd push_room)" using push_room_reachable by simp
  note muted = removed_device_muted [OF this r rtranclp.rtrancl_refl k]
  have "(1000, 2, 82) \<in> set (map (\<lambda>v. (pd_id v, pd_account v, pd_install v)) (push_devices d1))"
    unfolding v by (simp add: push_room_def push_db_def)
  then obtain y where "y \<in> set (push_devices d1)" "pd_id y = 1000" "pd_account y = 2 \<and> pd_install y = 82" by auto
  with muted have "\<forall>x \<in> set js. pj_device x \<noteq> 1000" by auto
  with r k show ?thesis by (intro exI conjI)
qed

section \<open>Settling\<close>

text \<open>
  C29. Every batch gets its jobs on: as long as the database answers, each job it has claimed is
  closed afterwards or was tried once more, whatever Apple answered. Together with the bound on the
  attempts, no notification stays in the queue for more than eleven batches that claim it.
\<close>

theorem batch_makes_progress:
  assumes "queue_ok d" and "\<forall>n. w_fault w n = None"
    and "claim_push_jobs (ax_batch_size env) minute w d = (Inr js, w1, d1)"
    and "process_batch store_queue env p w d = (r, w2, d2)"
  shows "\<forall>x \<in> set js. (\<forall>j \<in> set (jobs d2). jb_id j = pj_id x \<longrightarrow> \<not> unfinished j) \<or>
    (\<exists>j \<in> set (jobs d2). jb_id j = pj_id x \<and> jb_attempts j = pj_attempts x + 1)"
proof -
  have claim: "q_claim store_queue (ax_batch_size env) minute w d = (Inr js, w1, d1)"
    using assms(3) by (simp only: store_queue_ops)
  have "\<forall>x \<in> set js. live.got_on d2 x"
    using claim assms(4) _ assms(1) by (rule live.batch_gets_on) (simp add: steady_def assms(2))
  then show ?thesis
    unfolding live.got_on_def job_open_def times_tried_def by (auto dest!: find_Some_in)
qed

definition push_env :: apns_env where
  "push_env = \<lparr>ax_decrypt = Inr, ax_sign = (\<lambda>_. Inr ''jwt''),
     ax_http = (\<lambda>_ _. Inr \<lparr>rp_status = 503, rp_reason = Some ''Busy'', rp_retry_after = []\<rparr>),
     ax_random = (\<lambda>_. Some 5), ax_batch_size = 50\<rparr>"

lemma batch_makes_progress_witness:
  "\<exists>(x :: push_job) p r w d. pj_id x = 1320 \<and> process_batch store_queue push_env p (fst push_room) (snd push_room) = (r, w, d) \<and>
     (filter (\<lambda>j. jb_id j = 1320 \<and> unfinished j) (jobs d) = [] \<or>
      (\<exists>j \<in> set (jobs d). jb_id j = 1320 \<and> jb_attempts j = pj_attempts x + 1))"
proof -
  obtain js w1 d1 where c: "claim_push_jobs 50 minute (fst push_room) (snd push_room) = (Inr js, w1, d1)"
    and f: "map pj_id js = [1320]"
    using push_claimed_computed unfolding push_claimed_def by (auto elim!: run_resultE)
  then obtain x where x: "x \<in> set js" "pj_id x = 1320" by auto
  fix p :: token_provider
  obtain r w d where b: "process_batch store_queue push_env p (fst push_room) (snd push_room) = (r, w, d)"
    by (cases "process_batch store_queue push_env p (fst push_room) (snd push_room)" rule: prod_cases3)
  have "\<forall>n. w_fault (fst push_room) n = None" by (simp add: push_room_def demo_world_def)
  moreover have "claim_push_jobs (ax_batch_size push_env) minute (fst push_room) (snd push_room) = (Inr js, w1, d1)"
    using c by (simp add: push_env_def)
  ultimately have "(\<forall>j \<in> set (jobs d). jb_id j = pj_id x \<longrightarrow> \<not> unfinished j) \<or>
      (\<exists>j \<in> set (jobs d). jb_id j = pj_id x \<and> jb_attempts j = pj_attempts x + 1)"
    using batch_makes_progress [OF reachable_queue [OF push_room_reachable] _ _ b] x(1) by blast
  then have "filter (\<lambda>j. jb_id j = 1320 \<and> unfinished j) (jobs d) = [] \<or>
      (\<exists>j \<in> set (jobs d). jb_id j = 1320 \<and> jb_attempts j = pj_attempts x + 1)"
    unfolding x(2) filter_empty_conv by blast
  with b x(2) show ?thesis by - (rule exI [of _ x], intro exI conjI)
qed

section \<open>What an answer does to a job\<close>

text \<open>The answers that are worth another attempt, and those after which the device is given up.\<close>

definition retryable :: "go_error + apns_result \<Rightarrow> bool" where
  "retryable answer \<longleftrightarrow> (case answer of Inl _ \<Rightarrow> True
     | Inr a \<Rightarrow> re_status a = 429 \<or> 500 \<le> re_status a)"

definition device_gone :: "go_error + apns_result \<Rightarrow> bool" where
  "device_gone answer \<longleftrightarrow> (case answer of Inl _ \<Rightarrow> False
     | Inr a \<Rightarrow> re_status a = 410 \<or> re_status a = 400 \<and> re_reason a \<in> {''BadDeviceToken'', ''DeviceTokenNotForTopic''})"

definition accepted :: "go_error + apns_result \<Rightarrow> bool" where
  "accepted answer \<longleftrightarrow> (case answer of Inl _ \<Rightarrow> False | Inr a \<Rightarrow> re_status a = 200)"

lemmas answer_defs = retryable_def device_gone_def accepted_def

lemma settle_verdict:
  "settle q env job answer =
     (if accepted answer then q_sent q (pj_id job)
      else if device_gone answer then q_revoke q (pj_device job) (re_reason (projr answer))
      else if retryable answer then (case answer of Inl _ \<Rightarrow> retry_job q env job ''transport_error'' 0
        | Inr a \<Rightarrow> retry_job q env job (re_reason a) (re_retry_after a))
      else q_fail q (pj_id job) (if re_reason (projr answer) = [] then ''apns_status_'' @ show_int (re_status (projr answer))
        else re_reason (projr answer)))"
  by (cases answer) (simp add: settle_def answer_defs, force simp: settle_def answer_defs)

lemma updated_row:
  assumes "update_job i f w d = (Inr u, w', d')" and "j \<in> set (jobs d)" and "jb_id j = i"
  shows "f (w_clock w (w_step w)) j \<in> set (jobs d')"
  using assms by (auto simp: update_job_def tx_simps set_update_where env_of_def)

lemma verdict_exclusive:
  "accepted answer \<Longrightarrow> \<not> retryable answer \<and> \<not> device_gone answer"
  "device_gone answer \<Longrightarrow> \<not> retryable answer"
  by (auto simp: answer_defs split: sum.splits)

lemma retried_row:
  assumes "retry_job store_queue env job reason after w d = (Inr u, w', d')"
    and "j \<in> set (jobs d)" and "jb_id j = pj_id job"
  shows "(if 10 \<le> pj_attempts job
     then \<exists>c. failed_row (''retry_limit: '' @ reason) c j \<in> set (jobs d')
     else \<exists>n. w_step w \<le> n \<and> n < w_step w' \<and> retry_row (w_now w n + min (if after \<le> 0
       then backoff (pj_attempts job) (ax_random env (w_step w)) else after) hour) reason j \<in> set (jobs d'))"
proof (cases "10 \<le> pj_attempts job")
  case True
  then have "update_job (pj_id job) (failed_row (''retry_limit: '' @ reason)) w d = (Inr u, w', d')"
    using assms(1) by (simp add: retry_job_def store_queue_ops)
  from updated_row [OF this assms(2,3)] True show ?thesis by auto
next
  case False
  from assms(1) False show ?thesis
  proof (rule retry_job_run)
    fix n w0
    let ?t = "w_now w n + min (if after \<le> 0 then backoff (pj_attempts job) (ax_random env (w_step w)) else after) hour"
    assume run: "q_retry store_queue (pj_id job) ?t reason w0 d = (Inr u, w', d')"
      and n: "w_step w \<le> n" "n < w_step w0"
    have up: "update_job (pj_id job) (\<lambda>_. retry_row ?t reason) w0 d = (Inr u, w', d')"
      using run unfolding store_queue_ops .
    have "w_step w0 \<le> w_step w'" using advancesD [OF advances_queue(1) up] by (simp add: advance_def)
    with updated_row [OF up assms(2,3)] n False show ?thesis by auto
  qed
qed

lemma revoked_row:
  assumes "revoke_push_token v r w d = (Inr u, w', d')" and "j \<in> set (jobs d)" and "jb_device j = v" and "unfinished j"
  shows "\<exists>j' \<in> set (jobs d'). jb_id j' = jb_id j \<and> jb_locked_until j' = None \<and> jb_sent_at j' = None \<and>
      jb_failed_at j' \<noteq> None \<and> jb_attempts j' = jb_attempts j"
    and "\<forall>k \<in> set (jobs d'). jb_device k = v \<longrightarrow> \<not> unfinished k"
    and "\<forall>x \<in> set (push_devices d'). pd_id x = v \<longrightarrow> pd_revoked_at x \<noteq> None"
proof -
  obtain c c' where d': "d' = fail_device_jobs v r c' (d\<lparr>push_devices :=
      update_where (\<lambda>x. pd_id x = v) (revoke_device_row c) (push_devices d)\<rparr>)"
    using assms(1) by (rule revoke_run)
  let ?f = "\<lambda>j. j\<lparr>jb_failed_at := (case jb_failed_at j of None \<Rightarrow> Some c' | Some t \<Rightarrow> Some t),
      jb_locked_until := None, jb_last_error := Some r\<rparr>"
  have closed: "\<forall>k \<in> set (update_where (\<lambda>j. jb_device j = v \<and> unfinished j) ?f rows). jb_device k = v \<longrightarrow> \<not> unfinished k" for rows
    by (induction rows) (auto simp: unfinished_def split: option.splits)
  have muted: "\<forall>x \<in> set (update_where (\<lambda>x. pd_id x = v) (revoke_device_row c) rows). pd_id x = v \<longrightarrow> pd_revoked_at x \<noteq> None" for rows
    by (induction rows) (auto simp: revoke_device_row_def split: option.splits)
  have j: "jobs d' = update_where (\<lambda>j. jb_device j = v \<and> unfinished j) ?f (jobs d)"
    by (simp add: d' fail_device_jobs_def)
  have "?f j \<in> set (jobs d')" using assms(2-4) unfolding j set_update_where by blast
  then show "\<exists>j' \<in> set (jobs d'). jb_id j' = jb_id j \<and> jb_locked_until j' = None \<and> jb_sent_at j' = None \<and>
      jb_failed_at j' \<noteq> None \<and> jb_attempts j' = jb_attempts j"
    by (rule bexI [rotated]) (use assms(4) in \<open>simp add: unfinished_def\<close>)
  show "\<forall>k \<in> set (jobs d'). jb_device k = v \<longrightarrow> \<not> unfinished k"
    unfolding j by (rule closed)
  show "\<forall>x \<in> set (push_devices d'). pd_id x = v \<longrightarrow> pd_revoked_at x \<noteq> None"
    using muted by (simp add: d' fail_device_jobs_def)
qed

text \<open>What the answer should make of a row.\<close>

definition settled_row :: "go_error + apns_result \<Rightarrow> int \<Rightarrow> job_row \<Rightarrow> job_row \<Rightarrow> bool" where
  "settled_row answer attempts j j' \<longleftrightarrow> jb_id j' = jb_id j \<and> jb_locked_until j' = None \<and>
     (jb_sent_at j' \<noteq> None \<longleftrightarrow> accepted answer) \<and>
     (unfinished j' \<longleftrightarrow> retryable answer \<and> attempts < 10) \<and>
     jb_attempts j' = jb_attempts j + (if accepted answer \<or> device_gone answer then 0 else 1)"

definition device_closed :: "uuid \<Rightarrow> db \<Rightarrow> bool" where
  "device_closed v d \<longleftrightarrow> (\<forall>k \<in> set (jobs d). jb_device k = v \<longrightarrow> \<not> unfinished k) \<and>
     (\<forall>x \<in> set (push_devices d). pd_id x = v \<longrightarrow> pd_revoked_at x \<noteq> None)"

text \<open>
  C30. What becomes of a job after Apple's answer: it is unlocked; it counts as sent exactly when
  the answer was 200; it stays open exactly when another attempt is worth it and fewer than ten
  were made; a device that is gone costs no attempt, but is revoked and loses all its open jobs.
\<close>

theorem job_settled:
  assumes "settle store_queue env job answer w d = (Inr u, w', d')" and "j \<in> set (jobs d)"
    and "jb_id j = pj_id job" and "jb_device j = pj_device job" and "unfinished j"
  shows "(\<exists>j' \<in> set (jobs d'). settled_row answer (pj_attempts job) j j') \<and>
    (device_gone answer \<longrightarrow> device_closed (pj_device job) d')"
proof -
  note open_row = assms(5) [unfolded unfinished_def] settled_row_def unfinished_def
  consider (acc) "accepted answer" | (gone) "device_gone answer" | (retry) "retryable answer"
    | (fail) "\<not> accepted answer" "\<not> device_gone answer" "\<not> retryable answer" by blast
  then show ?thesis
  proof cases
    case acc
    note no = verdict_exclusive(1) [OF acc]
    have "update_job (pj_id job) sent_row w d = (Inr u, w', d')"
      using assms(1) acc unfolding settle_verdict store_queue_ops by simp
    note row = updated_row [OF this assms(2,3)]
    show ?thesis using no acc by (intro conjI bexI [OF _ row]) (simp_all add: sent_row_def open_row)
  next
    case gone
    have no: "\<not> accepted answer" "\<not> retryable answer" using gone verdict_exclusive by blast+
    then have "revoke_push_token (pj_device job) (re_reason (projr answer)) w d = (Inr u, w', d')"
      using assms(1) gone unfolding settle_verdict store_queue_ops by simp
    note r = revoked_row [OF this assms(2,4,5)]
    from r(1) obtain k where k: "k \<in> set (jobs d')" "jb_id k = jb_id j" "jb_locked_until k = None"
      "jb_sent_at k = None" "jb_failed_at k \<noteq> None" "jb_attempts k = jb_attempts j" by blast
    then have "settled_row answer (pj_attempts job) j k" using no gone by (simp add: settled_row_def unfinished_def)
    with k(1) r(2,3) show ?thesis by (auto simp: device_closed_def)
  next
    case retry
    have no: "\<not> accepted answer" "\<not> device_gone answer" using retry verdict_exclusive by blast+
    then obtain reason after where "retry_job store_queue env job reason after w d = (Inr u, w', d')"
      using assms(1) retry unfolding settle_verdict by (cases answer) auto
    note r = retried_row [OF this assms(2,3)]
    show ?thesis
    proof (cases "10 \<le> pj_attempts job")
      case True
      with r obtain c where row: "failed_row (''retry_limit: '' @ reason) c j \<in> set (jobs d')" by auto
      show ?thesis using no True by (intro conjI bexI [OF _ row]) (simp_all add: failed_row_def open_row)
    next
      case False
      with r obtain t where row: "retry_row t reason j \<in> set (jobs d')" by auto
      show ?thesis using no False retry by (intro conjI bexI [OF _ row]) (simp_all add: retry_row_def open_row)
    qed
  next
    case fail
    then obtain reason where "update_job (pj_id job) (failed_row reason) w d = (Inr u, w', d')"
      using assms(1) unfolding settle_verdict store_queue_ops by auto
    note row = updated_row [OF this assms(2,3)]
    show ?thesis using fail by (intro conjI bexI [OF _ row]) (simp_all add: failed_row_def open_row)
  qed
qed

text \<open>
  C31. When a job is tried again: within the hour, not before the time Apple asked for unless that is
  longer, and otherwise after a delay that doubles with every attempt, with up to a second of
  jitter.
\<close>

theorem retry_schedule:
  assumes "settle store_queue env job answer w d = (Inr u, w', d')" and "j \<in> set (jobs d)"
    and "jb_id j = pj_id job" and "retryable answer" and "0 \<le> pj_attempts job" and "pj_attempts job < 10"
  shows "\<exists>j' \<in> set (jobs d'). jb_id j' = jb_id j \<and>
    (\<exists>n delay. w_step w \<le> n \<and> n < w_step w' \<and> jb_available_at j' = micros (w_now w n + delay) \<and>
      0 < delay \<and> delay \<le> hour \<and>
      (let asked = (case answer of Inl _ \<Rightarrow> 0 | Inr a \<Rightarrow> re_retry_after a) in
       if 0 < asked then delay = min asked hour
       else second * 2 ^ nat (pj_attempts job) \<le> delay \<and> delay < second * 2 ^ nat (pj_attempts job) + second))"
proof -
  define asked where "asked = (case answer of Inl _ \<Rightarrow> 0 | Inr a \<Rightarrow> re_retry_after a)"
  have no: "\<not> accepted answer" "\<not> device_gone answer" using assms(4) verdict_exclusive by blast+
  then obtain reason where "retry_job store_queue env job reason asked w d = (Inr u, w', d')"
    using assms(1,4) unfolding settle_verdict asked_def by (cases answer) auto
  from retried_row [OF this assms(2,3)] assms(6) obtain n where n: "w_step w \<le> n" "n < w_step w'"
    and row: "retry_row (w_now w n + min (if asked \<le> 0 then backoff (pj_attempts job) (ax_random env (w_step w))
        else asked) hour) reason j \<in> set (jobs d')" by auto
  define b where "b = backoff (pj_attempts job) (ax_random env (w_step w))"
  have b: "second * 2 ^ nat (pj_attempts job) \<le> b" "b < second * 2 ^ nat (pj_attempts job) + second"
    using assms(6) unfolding b_def by (rule backoff_window)+
  have "(2::int) ^ nat (pj_attempts job) \<le> 2 ^ 9" using assms(6) by (intro power_increasing) auto
  then have "b \<le> hour" using b(2) by simp
  moreover have "0 < b" using b(1) by (rule less_le_trans [rotated]) simp
  ultimately have d: "min b hour = b" "0 < b" "b \<le> hour" by simp_all
  show ?thesis unfolding asked_def [symmetric] Let_def
  proof (rule bexI [OF _ row], intro conjI)
    show "\<exists>m delay. w_step w \<le> m \<and> m < w_step w' \<and> jb_available_at (retry_row (w_now w n +
        min (if asked \<le> 0 then backoff (pj_attempts job) (ax_random env (w_step w)) else asked) hour) reason j)
        = micros (w_now w m + delay) \<and> 0 < delay \<and> delay \<le> hour \<and>
      (if 0 < asked then delay = min asked hour else second * 2 ^ nat (pj_attempts job) \<le> delay \<and>
        delay < second * 2 ^ nat (pj_attempts job) + second)"
      by (rule exI [of _ n], rule exI [of _ "if 0 < asked then min asked hour else b"])
         (use n d b in \<open>simp add: retry_row_def b_def [symmetric]\<close>)
  qed (simp add: retry_row_def)
qed

definition bo_push :: push_job where
  "bo_push = \<lparr>pj_id = 1320, pj_device = 1000, pj_token_cipher = ''cipher'', pj_environment = ''sandbox'',
     pj_topic = ''along'', pj_payload = jb_payload bo_job, pj_attempts = 0\<rparr>"

text \<open>Apple is busy: the job stays open, and comes back after one or two seconds.\<close>

definition busy :: "go_error + apns_result" where
  "busy = Inr \<lparr>re_status = 503, re_reason = ''Busy'', re_retry_after = 0\<rparr>"

lemma busy_settles:
  obtains w d where "settle store_queue push_env bo_push busy (fst push_room) (snd push_room) = (Inr (), w, d)"
proof -
  have "case settle store_queue push_env bo_push busy (fst push_room) (snd push_room) of
      (Inr _, _, _) \<Rightarrow> True | (Inl _, _) \<Rightarrow> False" by code_simp
  then show thesis using that by (auto elim!: run_resultE)
qed

lemma job_settled_witness:
  "\<exists>w d. settle store_queue push_env bo_push busy (fst push_room) (snd push_room) = (Inr (), w, d) \<and>
     (\<exists>j \<in> set (jobs d). settled_row busy 0 bo_job j)"
proof -
  obtain w d where s: "settle store_queue push_env bo_push busy (fst push_room) (snd push_room) = (Inr (), w, d)"
    by (rule busy_settles)
  have "\<exists>j \<in> set (jobs d). settled_row busy 0 bo_job j"
    using job_settled [OF s, of bo_job, THEN conjunct1]
    by (simp add: push_room_jobs bo_job_def bo_push_def unfinished_def)
  with s show ?thesis by blast
qed

lemma retry_schedule_witness:
  "\<exists>w d. settle store_queue push_env bo_push busy (fst push_room) (snd push_room) = (Inr (), w, d) \<and>
     (\<exists>j \<in> set (jobs d). \<exists>n delay. jb_available_at j = micros (w_now (fst push_room) n + delay) \<and>
        second \<le> delay \<and> delay < 2 * second)"
proof -
  obtain w d where s: "settle store_queue push_env bo_push busy (fst push_room) (snd push_room) = (Inr (), w, d)"
    by (rule busy_settles)
  have "\<exists>j \<in> set (jobs d). \<exists>n delay. jb_available_at j = micros (w_now (fst push_room) n + delay) \<and>
        second \<le> delay \<and> delay < 2 * second"
    using retry_schedule [OF s, of bo_job]
    by (auto simp: push_room_jobs bo_job_def bo_push_def busy_def retryable_def)
  with s show ?thesis by blast
qed

end
