(* ===== verification/Base64.thy ===== *)
theory Base64
  imports GoNumbers
begin

text \<open>
  What the server uses of \<open>encoding/base64\<close>: encoding and decoding without padding, over the
  standard and the URL alphabet. Decoding skips line breaks and ignores the unused low bits of the
  last character, as the package does unless it is asked to be strict.
\<close>

fun sextets :: "nat list \<Rightarrow> nat list" where
  "sextets [] = []"
| "sextets [a] = [a div 4, (a mod 4) * 16]"
| "sextets [a, b] = [a div 4, (a mod 4) * 16 + b div 16, (b mod 16) * 4]"
| "sextets (a # b # c # r) = a div 4 # ((a mod 4) * 16 + b div 16) #
     ((b mod 16) * 4 + c div 64) # (c mod 64) # sextets r"

fun octets :: "nat list \<Rightarrow> nat list option" where
  "octets [] = Some []"
| "octets [x] = None"
| "octets [x, y] = Some [x * 4 + y div 16]"
| "octets [x, y, z] = Some [x * 4 + y div 16, (y mod 16) * 16 + z div 4]"
| "octets (x # y # z # u # r) = map_option (\<lambda>bs. (x * 4 + y div 16) #
     ((y mod 16) * 16 + z div 4) # ((z mod 4) * 64 + u) # bs) (octets r)"

definition letters :: string where
  "letters = ''ABCDEFGHIJKLMNOPQRSTUVWXYZabcdefghijklmnopqrstuvwxyz0123456789''"

definition std_alphabet :: string where
  "std_alphabet = letters @ ''+/''"

definition url_alphabet :: string where
  "url_alphabet = letters @ ''-_''"

fun index_of :: "'a \<Rightarrow> 'a list \<Rightarrow> nat option" where
  "index_of x [] = None"
| "index_of x (y # ys) = (if x = y then Some 0 else map_option Suc (index_of x ys))"

definition base64_encode :: "string \<Rightarrow> bytes \<Rightarrow> string" where
  "base64_encode alphabet bs = map ((!) alphabet) (sextets (map byte_of bs))"

definition base64_decode :: "string \<Rightarrow> string \<Rightarrow> bytes option" where
  "base64_decode alphabet s =
     (let places = map (\<lambda>c. index_of c alphabet) (filter (\<lambda>c. c \<notin> {CHR 0x0A, CHR 0x0D}) s)
      in if None \<in> set places then None
         else map_option (map char_of) (octets (map the places)))"

section \<open>Round trip\<close>

lemma high_bits: "a < 256 \<Longrightarrow> a div 4 < 64 \<and> a div 16 < 16 \<and> a div 64 < (4 :: nat)"
  by (simp add: less_mult_imp_div_less)

lemma join_bounds:
  assumes "a < 256" and "b < (256 :: nat)"
  shows "(a mod 4) * 16 + b div 16 < 64" and "(a mod 16) * 4 + b div 64 < 64"
proof -
  have "a mod 4 \<le> 3" "a mod 16 \<le> 15" by (simp_all flip: less_Suc_eq_le)
  then show "(a mod 4) * 16 + b div 16 < 64" "(a mod 16) * 4 + b div 64 < 64"
    using high_bits [OF assms(2)] by linarith+
qed

lemma sextets_bound: "\<forall>b \<in> set bs. b < 256 \<Longrightarrow> n \<in> set (sextets bs) \<Longrightarrow> n < 64"
proof (induction bs rule: sextets.induct)
  case (2 a)
  then show ?case using high_bits [of a] join_bounds(1) [of a 0] by auto
next
  case (3 a b)
  then show ?case using high_bits [of a] join_bounds(1) [of a b] join_bounds(2) [of b 0] by auto
next
  case (4 a b c r)
  then show ?case using high_bits [of a] join_bounds(1) [of a b] join_bounds(2) [of b c] by auto
qed simp

lemma octets_sextets: "\<forall>b \<in> set bs. b < 256 \<Longrightarrow> octets (sextets bs) = Some bs"
proof (induction bs rule: sextets.induct)
  case (3 a b)
  then show ?case using high_bits [of b] by simp
next
  case (4 a b c r)
  then show ?case using high_bits [of b] high_bits [of c] by simp
qed simp_all

lemma index_of_nth: "distinct xs \<Longrightarrow> i < length xs \<Longrightarrow> index_of (xs ! i) xs = Some i"
proof (induction xs arbitrary: i)
  case (Cons x xs)
  then show ?case by (cases i) auto
qed simp

definition alphabet_ok :: "string \<Rightarrow> bool" where
  "alphabet_ok a \<longleftrightarrow> distinct a \<and> length a = 64 \<and> set a \<inter> {CHR 0x0A, CHR 0x0D} = {}"

lemma alphabets: "alphabet_ok std_alphabet" "alphabet_ok url_alphabet"
  by (simp_all add: alphabet_ok_def std_alphabet_def url_alphabet_def letters_def)

lemma base64_places:
  assumes "alphabet_ok al" and "\<forall>n \<in> set ns. n < 64"
  shows "map (\<lambda>c. index_of c al) (filter (\<lambda>c. c \<notin> {CHR 0x0A, CHR 0x0D}) (map ((!) al) ns)) = map Some ns"
proof -
  have "al ! n \<notin> {CHR 0x0A, CHR 0x0D}" "index_of (al ! n) al = Some n" if "n \<in> set ns" for n
  proof -
    have n: "n < length al" using assms that by (simp add: alphabet_ok_def)
    then have "al ! n \<in> set al" by (rule nth_mem)
    then show "al ! n \<notin> {CHR 0x0A, CHR 0x0D}" using assms(1) unfolding alphabet_ok_def by blast
    show "index_of (al ! n) al = Some n" using assms(1) n by (simp add: alphabet_ok_def index_of_nth)
  qed
  then show ?thesis by (induction ns) auto
qed

lemma base64_decode_encode: "alphabet_ok al \<Longrightarrow> base64_decode al (base64_encode al bs) = Some bs"
proof -
  assume al: "alphabet_ok al"
  have b: "\<forall>b \<in> set (map byte_of bs). b < 256" by simp
  have "\<forall>n \<in> set (sextets (map byte_of bs)). n < 64" using sextets_bound [OF b] by blast
  note p = base64_places [OF al this]
  show ?thesis unfolding base64_decode_def base64_encode_def p Let_def
    by (simp add: image_iff octets_sextets [OF b] comp_def)
qed

lemma base64_encode_set: "alphabet_ok al \<Longrightarrow> set (base64_encode al bs) \<subseteq> set al"
proof -
  assume al: "alphabet_ok al"
  have "\<forall>b \<in> set (map byte_of bs). b < 256" by simp
  from sextets_bound [OF this] al show ?thesis by (auto simp: base64_encode_def alphabet_ok_def)
qed

end
