(* ===== verification/Tokens.thy ===== *)
theory Tokens
  imports Base64 ApnsClient
begin

text \<open>
  Access tokens and opaque refresh tokens: \<open>internal/auth/token.go\<close>. The JWT library, the UUID
  library, SHA-256 and Argon2 are parameters, the fields of \<open>auth_env\<close>; so are the random source
  and the Unicode tables behind \<open>strings.ToUpper\<close>. What the code relies on is stated as laws on
  these fields.
\<close>

record claims =
  cl_session :: string
  cl_installation :: string
  cl_issuer :: string
  cl_subject :: string
  cl_audience :: "string list"
  cl_expires :: time
  cl_not_before :: time
  cl_issued :: time
  cl_id :: string

record auth_env =
  ae_random :: "nat \<Rightarrow> nat \<Rightarrow> go_error + bytes"
  ae_sha256 :: "bytes \<Rightarrow> bytes"
  ae_argon2 :: "string \<Rightarrow> bytes \<Rightarrow> nat \<Rightarrow> nat \<Rightarrow> nat \<Rightarrow> nat \<Rightarrow> bytes"
  ae_upper :: "string \<Rightarrow> string"
  ae_show_uuid :: "uuid \<Rightarrow> string"
  ae_parse_uuid :: "string \<Rightarrow> uuid option"
  ae_jwt_sign :: "claims \<Rightarrow> go_error + string"
  ae_jwt_parse :: "string \<Rightarrow> string \<Rightarrow> duration \<Rightarrow> time \<Rightarrow> string \<Rightarrow> go_error + claims"
  ae_access_ttl :: duration
  ae_refresh_ttl :: duration
  ae_challenge_ttl :: duration

text \<open>A value the environment answers with at the present step, or the error it fails with.\<close>

definition ask :: "(nat \<Rightarrow> go_error + 'a) \<Rightarrow> ('d, 'a) tx" where
  "ask f = bind_tx (observe f) (\<lambda>r. case r of Inl e \<Rightarrow> raise e | Inr v \<Rightarrow> ret v)"

definition random_bytes :: "auth_env \<Rightarrow> nat \<Rightarrow> ('d, bytes) tx" where
  "random_bytes env n = ask (\<lambda>step. ae_random env step n)"

section \<open>Access tokens\<close>

text \<open>\<open>jwt.NewNumericDate\<close> keeps whole seconds.\<close>

definition numeric_date :: "time \<Rightarrow> time" where
  "numeric_date t = t - t mod second"

definition claims_of :: "auth_env \<Rightarrow> auth_identity \<Rightarrow> time \<Rightarrow> uuid \<Rightarrow> claims" where
  "claims_of env idn now i = \<lparr>cl_session = ae_show_uuid env (id_session idn),
     cl_installation = ae_show_uuid env (id_installation idn), cl_issuer = ''along-server'',
     cl_subject = ae_show_uuid env (id_account idn), cl_audience = [''along-mobile''],
     cl_expires = numeric_date (now + ae_access_ttl env), cl_not_before = numeric_date (now - 5 * second),
     cl_issued = numeric_date now, cl_id = ae_show_uuid env i\<rparr>"

definition issue_token :: "auth_env \<Rightarrow> auth_identity \<Rightarrow> ('d, string \<times> time) tx" where
  "issue_token env idn =
     bind_tx go_now (\<lambda>now.
     bind_tx new_uuid (\<lambda>i.
     bind_tx (ask (\<lambda>_. ae_jwt_sign env (claims_of env idn now i))) (\<lambda>signed.
     ret (signed, now + ae_access_ttl env))))"

definition parse_claims :: "auth_env \<Rightarrow> claims \<Rightarrow> go_error + auth_identity" where
  "parse_claims env c = (case ae_parse_uuid env (cl_subject c) of
       None \<Rightarrow> Inl (Plain ''invalid account subject'')
     | Some a \<Rightarrow> (case ae_parse_uuid env (cl_session c) of
           None \<Rightarrow> Inl (Plain ''invalid session claim'')
         | Some s \<Rightarrow> (case ae_parse_uuid env (cl_installation c) of
               None \<Rightarrow> Inl (Plain ''invalid installation claim'')
             | Some i \<Rightarrow> Inr \<lparr>id_account = a, id_session = s, id_installation = i, id_pair = None,
                 id_display_name = []\<rparr>)))"

definition parse_access :: "auth_env \<Rightarrow> string \<Rightarrow> ('d, auth_identity) tx" where
  "parse_access env raw =
     bind_tx go_now (\<lambda>now.
     case ae_jwt_parse env ''along-server'' ''along-mobile'' (5 * second) now raw of
       Inl _ \<Rightarrow> raise (Plain ''invalid access token'')
     | Inr c \<Rightarrow> (case parse_claims env c of Inl e \<Rightarrow> raise e | Inr idn \<Rightarrow> ret idn))"

section \<open>Refresh tokens\<close>

text \<open>\<open>strings.Split\<close> at one byte.\<close>

fun split_at :: "char \<Rightarrow> string \<Rightarrow> string list" where
  "split_at sep [] = [[]]"
| "split_at sep (c # s) =
     (if c = sep then [] # split_at sep s
      else (case split_at sep s of [] \<Rightarrow> [[c]] | p # ps \<Rightarrow> (c # p) # ps))"

definition new_opaque_token :: "auth_env \<Rightarrow> ('d, uuid \<times> string \<times> bytes) tx" where
  "new_opaque_token env =
     bind_tx new_uuid (\<lambda>i.
     bind_tx (random_bytes env 32) (\<lambda>secret.
     let raw = ae_show_uuid env i @ ''.'' @ base64_encode url_alphabet secret
     in ret (i, raw, ae_sha256 env raw)))"

definition malformed_token :: go_error where
  "malformed_token = Plain ''malformed refresh token''"

definition parse_opaque_token :: "auth_env \<Rightarrow> string \<Rightarrow> go_error + uuid \<times> bytes" where
  "parse_opaque_token env raw = (case split_at (CHR ''.'') raw of
       [a, b] \<Rightarrow> (case ae_parse_uuid env a of
           None \<Rightarrow> Inl malformed_token
         | Some i \<Rightarrow> (case base64_decode url_alphabet b of
               None \<Rightarrow> Inl malformed_token
             | Some secret \<Rightarrow> if length secret \<noteq> 32 then Inl malformed_token
                 else Inr (i, ae_sha256 env raw)))
     | _ \<Rightarrow> Inl malformed_token)"

section \<open>The laws of the libraries\<close>

text \<open>
  \<open>uuid.Parse\<close> reads what \<open>String\<close> writes, hexadecimal digits and hyphens. \<open>crypto/rand\<close> fills the
  whole slice. A signed token is accepted with its claims from \<open>nbf\<close> to \<open>exp\<close>, each with leeway,
  under its issuer and audience. Argon2 returns as many bytes as it is asked for.
\<close>

definition uuid_law :: "auth_env \<Rightarrow> bool" where
  "uuid_law env \<longleftrightarrow> (\<forall>i. ae_parse_uuid env (ae_show_uuid env i) = Some i \<and> CHR ''.'' \<notin> set (ae_show_uuid env i))"

definition random_law :: "auth_env \<Rightarrow> bool" where
  "random_law env \<longleftrightarrow> (\<forall>step n bs. ae_random env step n = Inr bs \<longrightarrow> length bs = n)"

definition jwt_law :: "auth_env \<Rightarrow> bool" where
  "jwt_law env \<longleftrightarrow> (\<forall>c raw iss aud leeway now. ae_jwt_sign env c = Inr raw \<and> cl_issuer c = iss \<and>
     aud \<in> set (cl_audience c) \<and> cl_not_before c - leeway \<le> now \<and> now < cl_expires c + leeway \<longrightarrow>
     ae_jwt_parse env iss aud leeway now raw = Inr c)"

definition argon2_law :: "auth_env \<Rightarrow> bool" where
  "argon2_law env \<longleftrightarrow> (\<forall>code salt t m p n. length (ae_argon2 env code salt t m p n) = n)"

section \<open>Facts\<close>

lemma split_at_none: "sep \<notin> set s \<Longrightarrow> split_at sep s = [s]"
  by (induction s) auto

lemma split_at_append: "sep \<notin> set a \<Longrightarrow> split_at sep (a @ sep # b) = a # split_at sep b"
  by (induction a) auto

lemma url_no_dot: "CHR ''.'' \<notin> set (base64_encode url_alphabet bs)"
  using base64_encode_set [OF alphabets(2), of bs] by (auto simp: url_alphabet_def letters_def)

lemma parse_new_token:
  assumes "uuid_law env" and "length secret = 32"
  shows "parse_opaque_token env (ae_show_uuid env i @ ''.'' @ base64_encode url_alphabet secret)
    = Inr (i, ae_sha256 env (ae_show_uuid env i @ ''.'' @ base64_encode url_alphabet secret))"
  using assms
  by (simp add: parse_opaque_token_def uuid_law_def split_at_append split_at_none url_no_dot
      base64_decode_encode alphabets)

lemma new_opaque_token_run:
  assumes "new_opaque_token env w d = (Inr (i, raw, h), w', d')" and "uuid_law env" and "random_law env"
  shows "parse_opaque_token env raw = Inr (i, h)" and "d' = d"
  using assms parse_new_token [OF assms(2)]
  unfolding new_opaque_token_def random_bytes_def ask_def
  by (auto simp: bind_tx_def new_uuid_def observe_def raise_def ret_def Let_def random_law_def split: sum.splits)

lemma parse_issued_claims:
  "uuid_law env \<Longrightarrow> parse_claims env (claims_of env idn now i) =
     Inr \<lparr>id_account = id_account idn, id_session = id_session idn,
       id_installation = id_installation idn, id_pair = None, id_display_name = []\<rparr>"
  by (simp add: parse_claims_def claims_of_def uuid_law_def)

lemma numeric_date_bounds: "t - second < numeric_date t \<and> numeric_date t \<le> t"
  by (simp add: numeric_date_def)

end
