(* ===== verification/Ascii.thy ===== *)
theory Ascii
  imports GoNumbers
begin

text \<open>
  ASCII strings, where a rune is a byte: what \<open>strings.TrimSpace\<close>, \<open>strings.ToUpper\<close> and a loop over
  the runes make of them.
\<close>

definition is_ascii :: "string \<Rightarrow> bool" where
  "is_ascii s \<longleftrightarrow> (\<forall>c \<in> set s. byte_of c < 128)"

definition upper_ascii :: "char \<Rightarrow> char" where
  "upper_ascii c = (if between 97 122 (byte_of c) then char_of (byte_of c - 32) else c)"

definition ascii_space :: "char \<Rightarrow> bool" where
  "ascii_space c \<longleftrightarrow> is_space (byte_of c)"

lemma is_ascii_simps [simp]:
  "is_ascii []" "is_ascii (c # s) \<longleftrightarrow> byte_of c < 128 \<and> is_ascii s" "is_ascii (s @ t) \<longleftrightarrow> is_ascii s \<and> is_ascii t"
  by (auto simp: is_ascii_def)

lemma upper_ascii_byte: "byte_of c < 128 \<Longrightarrow> byte_of (upper_ascii c) < 128"
  by (auto simp: upper_ascii_def byte_of_def)

lemma is_ascii_upper: "is_ascii s \<Longrightarrow> is_ascii (map upper_ascii s)"
  by (auto simp: is_ascii_def upper_ascii_byte)

lemma runes_of_ascii: "is_ascii s \<Longrightarrow> runes s = map (\<lambda>c. (byte_of c, [c])) s"
  by (simp add: runes_ascii is_ascii_def)

lemma dropWhile_map: "dropWhile P (map f xs) = map f (dropWhile (\<lambda>x. P (f x)) xs)"
  by (induction xs) simp_all

lemma concat_singletons: "concat (map (\<lambda>x. [x]) xs) = xs"
  by (induction xs) simp_all

lemma trim_ascii:
  "is_ascii s \<Longrightarrow> trim_space s = rev (dropWhile ascii_space (rev (dropWhile ascii_space s)))"
  by (simp add: trim_space_def runes_of_ascii dropWhile_map rev_map comp_def concat_singletons
      flip: ascii_space_def [abs_def])

text \<open>Spaces around a string are trimmed, and only spaces.\<close>

lemma trim_spaces:
  assumes "is_ascii (a @ s @ b)" and "\<forall>c \<in> set a. ascii_space c" and "\<forall>c \<in> set b. ascii_space c"
  obtains pre post where "s = pre @ trim_space (a @ s @ b) @ post" and "\<forall>c \<in> set pre. ascii_space c"
    and "\<forall>c \<in> set post. ascii_space c"
proof (cases "\<forall>c \<in> set s. ascii_space c")
  case True
  then have "trim_space (a @ s @ b) = []"
    using assms by (simp add: trim_ascii dropWhile_eq_Nil_conv [THEN iffD2])
  with True that [of s "[]"] show thesis by simp
next
  case False
  let ?t = "dropWhile ascii_space s"
  let ?u = "dropWhile ascii_space (rev ?t)"
  obtain c where "c \<in> set s" "\<not> ascii_space c" using False by blast
  then have d: "dropWhile ascii_space (a @ s @ b) = ?t @ b"
    using assms(2) by (simp add: dropWhile_append1 dropWhile_append2)
  have n: "\<exists>c \<in> set (rev ?t). \<not> ascii_space c"
    using False by (metis dropWhile_eq_Nil_conv hd_dropWhile hd_in_set set_rev)
  have "trim_space (a @ s @ b) = rev (dropWhile ascii_space (rev b @ rev ?t))"
    using assms by (simp add: trim_ascii d)
  also have "\<dots> = rev ?u" using assms(3) by (subst dropWhile_append2) auto
  finally have u: "trim_space (a @ s @ b) = rev ?u" .
  have "s = takeWhile ascii_space s @ ?t" by simp
  also have "?t = rev (takeWhile ascii_space (rev ?t) @ ?u)" by simp
  also have "\<dots> = rev ?u @ rev (takeWhile ascii_space (rev ?t))" by (simp only: rev_append)
  finally have "s = takeWhile ascii_space s @ trim_space (a @ s @ b) @ rev (takeWhile ascii_space (rev ?t))"
    by (simp only: u)
  then show thesis using that by (metis set_rev set_takeWhileD)
qed

end
