(* ===== verification/Recovery.thy ===== *)
theory Recovery
  imports Tokens Ascii
begin

text \<open>
  Recovery codes and handles: \<open>internal/auth/recovery.go\<close>. A code is stored as an Argon2 hash in the
  PHC format, written by \<open>hash_recovery_code\<close> and read back by \<open>verify_recovery_code\<close>.
\<close>

section \<open>Upper case\<close>

text \<open>
  \<open>strings.ToUpper\<close> maps ASCII strings byte by byte; any other string goes through the Unicode
  tables, which are a parameter.
\<close>

definition to_upper :: "auth_env \<Rightarrow> string \<Rightarrow> string" where
  "to_upper env s = (if is_ascii s then map upper_ascii s else ae_upper env s)"

section \<open>Codes\<close>

definition recovery_alphabet :: string where
  "recovery_alphabet = ''ABCDEFGHJKLMNPQRSTUVWXYZ23456789''"

definition code_of :: "bytes \<Rightarrow> string" where
  "code_of random = (let raw = map (\<lambda>b. recovery_alphabet ! (byte_of b mod length recovery_alphabet)) random
     in take 4 raw @ ''-'' @ take 4 (drop 4 raw) @ ''-'' @ drop 8 raw)"

definition generate_recovery_codes :: "auth_env \<Rightarrow> nat \<Rightarrow> ('d, string list) tx" where
  "generate_recovery_codes env count =
     map_each (replicate count ()) (\<lambda>_. bind_tx (random_bytes env 12) (\<lambda>random. ret (code_of random)))"

text \<open>\<open>WriteRune\<close> writes U+FFFD for what is not a code point.\<close>

definition write_rune :: "nat \<times> string \<Rightarrow> string" where
  "write_rune x = (if fst x = rune_error then [CHR 0xEF, CHR 0xBF, CHR 0xBD] else snd x)"

definition normalize_code :: "auth_env \<Rightarrow> string \<Rightarrow> string" where
  "normalize_code env code = concat (map write_rune
     (filter (\<lambda>x. fst x \<noteq> 45 \<and> fst x \<noteq> 32) (runes (to_upper env (trim_space code)))))"

section \<open>Hashes\<close>

definition phc_string :: "nat \<Rightarrow> nat \<Rightarrow> nat \<Rightarrow> bytes \<Rightarrow> bytes \<Rightarrow> string" where
  "phc_string memory iterations parallelism salt hash =
     ''$argon2id$v=19$m='' @ show_nat memory @ '',t='' @ show_nat iterations @ '',p='' @
     show_nat parallelism @ ''$'' @ base64_encode std_alphabet salt @ ''$'' @
     base64_encode std_alphabet hash"

definition hash_with_salt :: "auth_env \<Rightarrow> string \<Rightarrow> bytes \<Rightarrow> string" where
  "hash_with_salt env code salt = phc_string 65536 3 1 salt
     (ae_argon2 env (normalize_code env code) salt 3 65536 1 32)"

definition hash_recovery_code :: "auth_env \<Rightarrow> string \<Rightarrow> ('d, string) tx" where
  "hash_recovery_code env code =
     bind_tx (random_bytes env 16) (\<lambda>salt. ret (hash_with_salt env code salt))"

text \<open>\<open>strconv.ParseUint(s, 10, 32)\<close>.\<close>

definition parse_uint32 :: "string \<Rightarrow> nat option" where
  "parse_uint32 s = (case digits_value s of
       None \<Rightarrow> None
     | Some n \<Rightarrow> if n < 2 ^ 32 then Some n else None)"

text \<open>One \<open>key=value\<close> of the parameters; \<open>parallelism\<close> is cut to a byte.\<close>

definition read_parameter :: "string \<Rightarrow> nat \<times> nat \<times> nat \<Rightarrow> (nat \<times> nat \<times> nat) option" where
  "read_parameter v mtp = (case (cut_at (CHR ''='') v, mtp) of
       (None, _) \<Rightarrow> None
     | (Some (key, text), m, t, p) \<Rightarrow> (case parse_uint32 text of
           None \<Rightarrow> None
         | Some n \<Rightarrow> Some (if key = ''m'' then (n, t, p) else if key = ''t'' then (m, n, p)
             else if key = ''p'' then (m, t, n mod 256) else (m, t, p))))"

fun read_parameters :: "string list \<Rightarrow> nat \<times> nat \<times> nat \<Rightarrow> (nat \<times> nat \<times> nat) option" where
  "read_parameters [] mtp = Some mtp"
| "read_parameters (v # vs) mtp = (case read_parameter v mtp of
       None \<Rightarrow> None | Some mtp' \<Rightarrow> read_parameters vs mtp')"

definition verify_hash :: "auth_env \<Rightarrow> string \<Rightarrow> nat \<times> nat \<times> nat \<Rightarrow> string \<Rightarrow> string \<Rightarrow> bool" where
  "verify_hash env code mtp salt_text hash_text = (case mtp of (memory, iterations, parallelism) \<Rightarrow>
     if memory = 0 \<or> iterations = 0 \<or> parallelism = 0 then False
     else (case base64_decode std_alphabet salt_text of
         None \<Rightarrow> False
       | Some salt \<Rightarrow> (case base64_decode std_alphabet hash_text of
             None \<Rightarrow> False
           | Some expected \<Rightarrow> ae_argon2 env (normalize_code env code) salt iterations memory parallelism
               (length expected) = expected)))"

definition verify_recovery_code :: "auth_env \<Rightarrow> string \<Rightarrow> string \<Rightarrow> bool" where
  "verify_recovery_code env code encoded = (case split_at (CHR ''$'') encoded of
       [_, kind, version, parameters, salt, hash] \<Rightarrow>
         if kind \<noteq> ''argon2id'' \<or> version \<noteq> ''v=19'' then False
         else (case read_parameters (split_at (CHR '','') parameters) (0, 0, 0) of
             None \<Rightarrow> False
           | Some mtp \<Rightarrow> verify_hash env code mtp salt hash)
     | _ \<Rightarrow> False)"

section \<open>Handles\<close>

definition recovery_handle :: "auth_env \<Rightarrow> ('d, string) tx" where
  "recovery_handle env =
     bind_tx (random_bytes env 10) (\<lambda>random. ret (to_upper env (base64_encode url_alphabet random)))"

section \<open>A hash verifies its own code\<close>

lemma std_no_dollar: "CHR ''$'' \<notin> set (base64_encode std_alphabet bs)"
  using base64_encode_set [OF alphabets(1), of bs] by (auto simp: std_alphabet_def letters_def)

lemma show_nat_digit: "c \<in> set (show_nat n) \<Longrightarrow> c \<noteq> CHR ''$'' \<and> c \<noteq> CHR '',''"
  using show_nat_digits [of c n] by (auto simp: between_def byte_of_def)

lemma split_phc:
  "split_at (CHR ''$'') (phc_string m t p salt hash) = [[], ''argon2id'', ''v=19'',
     ''m='' @ show_nat m @ '',t='' @ show_nat t @ '',p='' @ show_nat p,
     base64_encode std_alphabet salt, base64_encode std_alphabet hash]"
proof -
  let ?ps = "''m='' @ show_nat m @ '',t='' @ show_nat t @ '',p='' @ show_nat p"
  have p: "CHR ''$'' \<notin> set ?ps" using show_nat_digit by fastforce
  have phc: "phc_string m t p salt hash = CHR ''$'' # ''argon2id'' @ CHR ''$'' # ''v=19'' @ CHR ''$'' # ?ps @
      CHR ''$'' # base64_encode std_alphabet salt @ CHR ''$'' # base64_encode std_alphabet hash"
    by (simp add: phc_string_def)
  show ?thesis unfolding phc
    using split_at_append [OF p] by (simp add: split_at_append split_at_none std_no_dollar)
qed

lemma split_parameters:
  "split_at (CHR '','') (''m='' @ show_nat m @ '',t='' @ show_nat t @ '',p='' @ show_nat p) =
     [''m='' @ show_nat m, ''t='' @ show_nat t, ''p='' @ show_nat p]"
proof -
  have "CHR '','' \<notin> set (show_nat n)" for n using show_nat_digit by blast
  then show ?thesis by (simp add: split_at_append split_at_none)
qed

lemma read_written_parameters:
  assumes "m < 2 ^ 32" and "t < 2 ^ 32" and "p < 256"
  shows "read_parameters [''m='' @ show_nat m, ''t='' @ show_nat t, ''p='' @ show_nat p] (0, 0, 0) = Some (m, t, p)"
  using assms by (simp add: read_parameter_def parse_uint32_def digits_show_nat)

lemma verify_phc:
  assumes "m < 2 ^ 32" and "t < 2 ^ 32" and "p < 256"
  shows "verify_recovery_code env code (phc_string m t p salt hash) =
    verify_hash env code (m, t, p) (base64_encode std_alphabet salt) (base64_encode std_alphabet hash)"
proof -
  have "(''argon2id'' \<noteq> ''argon2id'' \<or> ''v=19'' \<noteq> ''v=19'') = False" by simp
  then show ?thesis
    unfolding verify_recovery_code_def split_phc list.case split_parameters
      read_written_parameters [OF assms] option.case by (simp only: if_False)
qed

lemma verify_hashed:
  assumes "argon2_law env"
  shows "verify_recovery_code env attempt (hash_with_salt env code salt) \<longleftrightarrow>
    ae_argon2 env (normalize_code env attempt) salt 3 65536 1 32 =
    ae_argon2 env (normalize_code env code) salt 3 65536 1 32"
proof -
  have "verify_recovery_code env attempt (hash_with_salt env code salt) = verify_hash env attempt (65536, 3, 1)
      (base64_encode std_alphabet salt) (base64_encode std_alphabet (ae_argon2 env (normalize_code env code) salt 3 65536 1 32))"
    unfolding hash_with_salt_def by (rule verify_phc) simp_all
  then show ?thesis
    using assms by (simp add: verify_hash_def base64_decode_encode alphabets argon2_law_def)
qed

end
