(* ===== verification/AuthService.thy ===== *)
theory AuthService
  imports Recovery Along
begin

text \<open>
  The sign-in service: \<open>internal/auth/service.go\<close>. It draws identifiers and secrets, runs the passkey
  ceremonies and calls the store. The WebAuthn library is a parameter, the fields of \<open>passkeys\<close>,
  over the library's types of credentials, ceremonies, options and requests.

  The library asks its caller for the user of a discoverable login once, with the identifiers in the
  response. That callback reads the store, so it is split: \<open>pk_login_asks\<close> is what the library
  hands to the callback, if it gets that far, and \<open>pk_finish_login\<close> what it makes of the answer.
\<close>

record 'c webauthn_user =
  wu_account :: webauthn_account
  wu_credentials :: "'c list"

record ('c, 's, 'o, 'r) passkeys =
  pk_begin_registration :: "nat \<Rightarrow> 'c webauthn_user \<Rightarrow> go_error + 'o \<times> 's"
  pk_finish_registration :: "nat \<Rightarrow> 'c webauthn_user \<Rightarrow> 's \<Rightarrow> 'r \<Rightarrow> go_error + 'c"
  pk_begin_login :: "nat \<Rightarrow> go_error + 'o \<times> 's"
  pk_login_asks :: "nat \<Rightarrow> 's \<Rightarrow> 'r \<Rightarrow> go_error + bytes \<times> bytes"
  pk_finish_login :: "nat \<Rightarrow> go_error + 'c webauthn_user \<Rightarrow> 's \<Rightarrow> 'r \<Rightarrow> go_error + 'c"
  pk_encode_session :: "'s \<Rightarrow> go_error + bytes"
  pk_decode_session :: "bytes \<Rightarrow> go_error + 's"
  pk_encode_credential :: "'c \<Rightarrow> go_error + bytes"
  pk_decode_credential :: "bytes \<Rightarrow> go_error + 'c"
  pk_credential_id :: "'c \<Rightarrow> bytes"

record 'o ceremony_options =
  co_challenge :: uuid
  co_public_key :: 'o

record token_pair =
  tk_access :: string
  tk_type :: string
  tk_expires_in :: int
  tk_expires_at :: time
  tk_refresh :: string

record recovery_kit =
  rk_account :: uuid
  rk_handle :: string
  rk_codes :: "string list"

record auth_result =
  au_tokens :: token_pair
  au_account :: account
  au_kit :: "recovery_kit option"

section \<open>Errors as values\<close>

definition attempt :: "('d, 'a) tx \<Rightarrow> ('d, go_error + 'a) tx" where
  "attempt m w d = (case m w d of (r, w', d') \<Rightarrow> (Inr r, w', d'))"

definition of_result :: "go_error + 'a \<Rightarrow> ('d, 'a) tx" where
  "of_result r = (case r of Inl e \<Rightarrow> raise e | Inr v \<Rightarrow> ret v)"

text \<open>Any error of the program is replaced by one API error.\<close>

definition or_refuse :: "app_error \<Rightarrow> ('d, 'a) tx \<Rightarrow> ('d, 'a) tx" where
  "or_refuse e m = bind_tx (attempt m) (\<lambda>r. case r of Inl _ \<Rightarrow> raise (as_error e) | Inr v \<Rightarrow> ret v)"

text \<open>When the program fails, a clean-up runs, whatever it returns, and the error goes on.\<close>

definition or_clean_up :: "('d, unit) tx \<Rightarrow> ('d, 'a) tx \<Rightarrow> ('d, 'a) tx" where
  "or_clean_up clean m = bind_tx (attempt m) (\<lambda>r. case r of
       Inl e \<Rightarrow> bind_tx (attempt clean) (\<lambda>_. raise e)
     | Inr v \<Rightarrow> ret v)"

definition ceremony_expired :: "string \<Rightarrow> app_error" where
  "ceremony_expired message = app_new 410 ''ceremony_expired'' message"

definition invalid_response :: "int \<Rightarrow> go_error \<Rightarrow> go_error" where
  "invalid_response status cause = as_error (app_wrap status ''invalid_passkey_response''
     ''The passkey response could not be verified.'' cause)"

definition invalid_recovery :: "string \<Rightarrow> app_error" where
  "invalid_recovery message = app_new 401 ''invalid_recovery'' message"

section \<open>Helpers\<close>

primrec decode_all :: "(bytes \<Rightarrow> go_error + 'c) \<Rightarrow> bytes list \<Rightarrow> go_error + 'c list" where
  "decode_all f [] = Inr []"
| "decode_all f (raw # rest) = (case f raw of
       Inl e \<Rightarrow> Inl (Wrapped ''decode passkey credential'' e)
     | Inr c \<Rightarrow> map_sum id ((#) c) (decode_all f rest))"

definition hydrate_user ::
  "('c, 's, 'o, 'r) passkeys \<Rightarrow> webauthn_account \<Rightarrow> go_error + 'c webauthn_user" where
  "hydrate_user pk account = map_sum id (\<lambda>cs. \<lparr>wu_account = account, wu_credentials = cs\<rparr>)
     (decode_all (pk_decode_credential pk) (wa_credentials account))"

definition clean_label :: "string \<Rightarrow> string" where
  "clean_label label = (let trimmed = trim_space label in
     if trimmed = [] then ''Passkey'' else concat (map write_rune (take 80 (runes trimmed))))"

definition decode_credential_id :: "string \<Rightarrow> bytes option" where
  "decode_credential_id value = (case base64_decode url_alphabet value of
       None \<Rightarrow> None
     | Some decoded \<Rightarrow> if decoded = [] then None else Some decoded)"

definition new_recovery_kit :: "auth_env \<Rightarrow> ('d, string list \<times> string list) tx" where
  "new_recovery_kit env =
     bind_tx (generate_recovery_codes env 10) (\<lambda>codes.
     bind_tx (map_each codes (hash_recovery_code env)) (\<lambda>hashes.
     ret (codes, hashes)))"

text \<open>\<open>int64(s.accessTTL.Seconds())\<close>.\<close>

definition auth_result_of ::
  "auth_env \<Rightarrow> auth_identity \<Rightarrow> string \<Rightarrow> recovery_kit option \<Rightarrow> (db, auth_result) tx" where
  "auth_result_of env identity refresh_raw kit =
     bind_tx (issue_token env identity) (\<lambda>(access, expires_at).
     bind_tx (get_account (id_account identity)) (\<lambda>account.
     ret \<lparr>au_tokens = \<lparr>tk_access = access, tk_type = ''Bearer'',
         tk_expires_in = whole_seconds (ae_access_ttl env),
         tk_expires_at = expires_at, tk_refresh = refresh_raw\<rparr>,
       au_account = account\<lparr>acc_installation := Some (id_installation identity)\<rparr>, au_kit = kit\<rparr>))"

text \<open>What every new session is made of: an identifier, a refresh token and the two expiries.\<close>

definition new_grant :: "auth_env \<Rightarrow> device_info \<Rightarrow> ('d, session_grant \<times> string) tx" where
  "new_grant env device =
     bind_tx new_uuid (\<lambda>session_id.
     bind_tx (new_opaque_token env) (\<lambda>(refresh_id, raw, hash).
     bind_tx go_now (\<lambda>now.
     ret (\<lparr>sg_device = device, sg_session = session_id, sg_session_expires = now + ae_refresh_ttl env,
        sg_refresh = refresh_id, sg_refresh_hash = hash, sg_refresh_expires = now + ae_refresh_ttl env\<rparr>,
        raw))))"

text \<open>The options of a ceremony, and its challenge kept in the store.\<close>

definition open_ceremony ::
  "auth_env \<Rightarrow> ('c, 's, 'o, 'r) passkeys \<Rightarrow> uuid option \<Rightarrow> string \<Rightarrow> 'o \<times> 's \<Rightarrow> (db, 'o ceremony_options) tx" where
  "open_ceremony env pk account_id purpose begun =
     bind_tx (of_result (pk_encode_session pk (snd begun))) (\<lambda>session_json.
     bind_tx new_uuid (\<lambda>challenge_id.
     bind_tx go_now (\<lambda>now.
     bind_tx (create_challenge challenge_id account_id purpose session_json (now + ae_challenge_ttl env)) (\<lambda>_.
     ret \<lparr>co_challenge = challenge_id, co_public_key = fst begun\<rparr>))))"

section \<open>Registration\<close>

definition begin_account_registration ::
  "auth_env \<Rightarrow> ('c, 's, 'o, 'r) passkeys \<Rightarrow> string \<Rightarrow> (db, 'o ceremony_options) tx" where
  "begin_account_registration env pk display_name = (let name = trim_space display_name in
     if rune_count name < 1 \<or> 80 < rune_count name then
       raise (as_error (app_new 422 ''invalid_display_name'' ''Use a name between 1 and 80 characters.''))
     else
     bind_tx (wrap_error ''generate WebAuthn user handle'' (random_bytes env 64)) (\<lambda>user_handle.
     bind_tx (wrap_error ''generate recovery handle'' (recovery_handle env)) (\<lambda>handle.
     bind_tx new_uuid (\<lambda>i.
     bind_tx (create_pending_account i user_handle name handle) (\<lambda>account.
     or_clean_up (delete_pending_account (acc_id account)) (
       bind_tx (wrap_error ''begin registration'' (ask (\<lambda>n. pk_begin_registration pk n
         \<lparr>wu_account = \<lparr>wa_account = account, wa_credentials = []\<rparr>, wu_credentials = []\<rparr>)))
       (open_ceremony env pk (Some (acc_id account)) ''register_account'')))))))"

definition finish_passkey ::
  "('c, 's, 'o, 'r) passkeys \<Rightarrow> string \<Rightarrow> 'c webauthn_user \<Rightarrow> bytes \<Rightarrow> 'r \<Rightarrow> ('d, bytes \<times> bytes) tx" where
  "finish_passkey pk message user session_data request =
     bind_tx (of_result (map_sum (\<lambda>e. if message = [] then e else Wrapped message e) id
       (pk_decode_session pk session_data))) (\<lambda>session.
     bind_tx (observe (\<lambda>n. pk_finish_registration pk n user session request)) (\<lambda>r. case r of
       Inl e \<Rightarrow> raise (invalid_response 400 e)
     | Inr credential \<Rightarrow>
         bind_tx (of_result (pk_encode_credential pk credential)) (\<lambda>json.
         ret (pk_credential_id pk credential, json))))"

definition finish_account_registration ::
  "auth_env \<Rightarrow> ('c, 's, 'o, 'r) passkeys \<Rightarrow> uuid \<Rightarrow> 'r \<Rightarrow> device_info \<Rightarrow> string \<Rightarrow> (db, auth_result) tx" where
  "finish_account_registration env pk challenge_id request device label =
     bind_tx (or_refuse (ceremony_expired ''Start the passkey setup again.'')
       (consume_challenge challenge_id ''register_account'')) (\<lambda>challenge.
     case cg_account challenge of
       None \<Rightarrow> raise (as_error (ceremony_expired ''Start the passkey setup again.''))
     | Some account_id \<Rightarrow>
         bind_tx (get_webauthn_account_by_id account_id) (\<lambda>account.
         bind_tx (of_result (hydrate_user pk account)) (\<lambda>user.
         bind_tx (finish_passkey pk ''decode registration ceremony'' user (cg_session_data challenge) request)
           (\<lambda>(credential_id, json).
         bind_tx (new_recovery_kit env) (\<lambda>(codes, hashes).
         bind_tx (new_grant env device) (\<lambda>(grant, refresh_raw).
         bind_tx (activate_account (acc_id (wa_account account)) credential_id json (clean_label label)
           hashes grant) (\<lambda>identity.
         auth_result_of env identity refresh_raw (Some \<lparr>rk_account = acc_id (wa_account account),
           rk_handle = acc_recovery_handle (wa_account account), rk_codes = codes\<rparr>))))))))"

section \<open>Login\<close>

definition begin_login ::
  "auth_env \<Rightarrow> ('c, 's, 'o, 'r) passkeys \<Rightarrow> (db, 'o ceremony_options) tx" where
  "begin_login env pk =
     bind_tx (wrap_error ''begin passkey login'' (ask (pk_begin_login pk)))
       (open_ceremony env pk None ''login'')"

text \<open>The callback: the account of the handle, if the passkey is one of its own.\<close>

definition user_of_response ::
  "('c, 's, 'o, 'r) passkeys \<Rightarrow> bytes \<Rightarrow> bytes \<Rightarrow> (db, 'c webauthn_user) tx" where
  "user_of_response pk raw_id user_handle =
     bind_tx (attempt (get_webauthn_account_by_handle user_handle)) (\<lambda>r. case r of
       Inl _ \<Rightarrow> raise (Plain ''unknown passkey'')
     | Inr account \<Rightarrow>
         bind_tx (of_result (hydrate_user pk account)) (\<lambda>user.
         if raw_id \<notin> pk_credential_id pk ` set (wu_credentials user)
         then raise (Plain ''passkey does not belong to account'')
         else ret user))"

definition verify_login ::
  "('c, 's, 'o, 'r) passkeys \<Rightarrow> 's \<Rightarrow> 'r \<Rightarrow> (db, 'c webauthn_user \<times> 'c) tx" where
  "verify_login pk session request =
     bind_tx (observe (\<lambda>n. pk_login_asks pk n session request)) (\<lambda>asked. case asked of
       Inl e \<Rightarrow> raise (invalid_response 401 e)
     | Inr (raw_id, user_handle) \<Rightarrow>
         bind_tx (attempt (user_of_response pk raw_id user_handle)) (\<lambda>selected.
         bind_tx (observe (\<lambda>n. pk_finish_login pk n selected session request)) (\<lambda>r.
         case (selected, r) of
           (Inr user, Inr credential) \<Rightarrow> ret (user, credential)
         | (_, Inl e) \<Rightarrow> raise (invalid_response 401 e)
         | (Inl _, Inr _) \<Rightarrow> raise (as_error (app_new 401 ''invalid_passkey_response''
             ''The passkey response could not be verified.'')))))"

definition finish_login ::
  "auth_env \<Rightarrow> ('c, 's, 'o, 'r) passkeys \<Rightarrow> uuid \<Rightarrow> 'r \<Rightarrow> device_info \<Rightarrow> (db, auth_result) tx" where
  "finish_login env pk challenge_id request device =
     bind_tx (or_refuse (ceremony_expired ''Start passkey sign-in again.'')
       (consume_challenge challenge_id ''login'')) (\<lambda>challenge.
     bind_tx (of_result (map_sum (Wrapped ''decode login ceremony'') id
       (pk_decode_session pk (cg_session_data challenge)))) (\<lambda>session.
     bind_tx (verify_login pk session request) (\<lambda>(user, credential).
     bind_tx (of_result (pk_encode_credential pk credential)) (\<lambda>json.
     bind_tx (new_grant env device) (\<lambda>(grant, refresh_raw).
     bind_tx (create_login_session (acc_id (wa_account (wu_account user))) (pk_credential_id pk credential)
       json grant) (\<lambda>identity.
     auth_result_of env identity refresh_raw None))))))"

section \<open>Further passkeys\<close>

definition begin_add_passkey ::
  "auth_env \<Rightarrow> ('c, 's, 'o, 'r) passkeys \<Rightarrow> uuid \<Rightarrow> (db, 'o ceremony_options) tx" where
  "begin_add_passkey env pk account_id =
     bind_tx (get_webauthn_account_by_id account_id) (\<lambda>account.
     bind_tx (of_result (hydrate_user pk account)) (\<lambda>user.
     bind_tx (ask (\<lambda>n. pk_begin_registration pk n user))
       (open_ceremony env pk (Some account_id) ''add_passkey'')))"

definition finish_add_passkey ::
  "('c, 's, 'o, 'r) passkeys \<Rightarrow> uuid \<Rightarrow> uuid \<Rightarrow> 'r \<Rightarrow> string \<Rightarrow> (db, unit) tx" where
  "finish_add_passkey pk account_id challenge_id request label =
     bind_tx (or_refuse (ceremony_expired ''Start passkey setup again.'')
       (consume_challenge challenge_id ''add_passkey'')) (\<lambda>challenge.
     if cg_account challenge \<noteq> Some account_id
     then raise (as_error (ceremony_expired ''Start passkey setup again.''))
     else
     bind_tx (get_webauthn_account_by_id account_id) (\<lambda>account.
     bind_tx (of_result (hydrate_user pk account)) (\<lambda>user.
     bind_tx (finish_passkey pk [] user (cg_session_data challenge) request) (\<lambda>(credential_id, json).
     add_credential account_id credential_id json (clean_label label)))))"

section \<open>Recovery and refresh\<close>

definition recover ::
  "auth_env \<Rightarrow> string \<Rightarrow> string \<Rightarrow> device_info \<Rightarrow> (db, auth_result) tx" where
  "recover env handle code device =
     bind_tx (or_refuse (invalid_recovery ''The recovery details are not valid.'')
       (recovery_codes_of (to_upper env (trim_space handle)))) (\<lambda>(account, records).
     case List.find (\<lambda>r. verify_recovery_code env code (rr_hash r)) records of
       None \<Rightarrow> raise (as_error (invalid_recovery ''The recovery details are not valid.''))
     | Some record \<Rightarrow>
         bind_tx (new_grant env device) (\<lambda>(grant, refresh_raw).
         bind_tx (or_refuse (invalid_recovery ''The recovery code was already used.'')
           (use_recovery_code (acc_id account) (rr_position record) grant)) (\<lambda>identity.
         auth_result_of env identity refresh_raw None)))"

definition refresh_error :: "go_error \<Rightarrow> app_error" where
  "refresh_error e = (if errors_is e (Sentinel ErrRefreshReuse)
     then app_new 401 ''refresh_reuse_detected'' ''This session was revoked because a refresh token was reused.''
     else ErrUnauthorized)"

definition refresh :: "auth_env \<Rightarrow> string \<Rightarrow> (db, auth_result) tx" where
  "refresh env raw = (case parse_opaque_token env raw of
       Inl _ \<Rightarrow> raise (as_error ErrUnauthorized)
     | Inr (old_id, old_hash) \<Rightarrow>
         bind_tx (new_opaque_token env) (\<lambda>(new_id, new_raw, new_hash).
         bind_tx go_now (\<lambda>now.
         bind_tx (attempt (rotate_refresh old_id old_hash new_id new_hash (now + ae_refresh_ttl env))) (\<lambda>r.
         case r of
           Inl e \<Rightarrow> raise (as_error (refresh_error e))
         | Inr identity \<Rightarrow> auth_result_of env identity new_raw None))))"

definition regenerate_recovery_codes :: "auth_env \<Rightarrow> uuid \<Rightarrow> (db, recovery_kit) tx" where
  "regenerate_recovery_codes env account_id =
     bind_tx (get_account account_id) (\<lambda>account.
     bind_tx (new_recovery_kit env) (\<lambda>(codes, hashes).
     bind_tx (replace_recovery_codes account_id hashes) (\<lambda>_.
     ret \<lparr>rk_account = account_id, rk_handle = acc_recovery_handle account, rk_codes = codes\<rparr>)))"

end
