(* ===== verification/SignInRuns.thy ===== *)
theory SignInRuns
  imports AuthService RevocationProperties
begin

text \<open>
  The programs of the sign-in service from the outside: what a run that succeeds says of its parts,
  and the rules to compose runs forwards.
\<close>

section \<open>Runs\<close>

lemma run_attempt [tx_simps]: "attempt m w d = (Inr x, w', d') \<longleftrightarrow> m w d = (x, w', d')"
  by (auto simp: attempt_def split: prod.splits)

lemma run_of_result [tx_simps]: "of_result r w d = (Inr v, w', d') \<longleftrightarrow> r = Inr v \<and> w' = w \<and> d' = d"
  by (auto simp: of_result_def tx_simps split: sum.splits)

lemma run_observe [tx_simps]:
  "observe f w d = (Inr v, w', d') \<longleftrightarrow> v = f (w_step w) \<and> w' = tick w \<and> d' = d"
  by (auto simp: observe_def)

lemma run_ask [tx_simps]:
  "ask f w d = (Inr v, w', d') \<longleftrightarrow> f (w_step w) = Inr v \<and> w' = tick w \<and> d' = d"
  by (auto simp: ask_def tx_simps split: sum.splits)

lemma run_or_refuse [tx_simps]: "or_refuse e m w d = (Inr v, w', d') \<longleftrightarrow> m w d = (Inr v, w', d')"
  by (auto simp: or_refuse_def attempt_def bind_tx_def raise_def ret_def split: prod.splits sum.splits)

lemma run_random [tx_simps]:
  "random_bytes env n w d = (Inr v, w', d') \<longleftrightarrow> ae_random env (w_step w) n = Inr v \<and> w' = tick w \<and> d' = d"
  by (simp add: random_bytes_def run_ask)

lemma run_wrap_error [tx_simps]: "wrap_error msg m w d = (Inr v, w', d') \<longleftrightarrow> m w d = (Inr v, w', d')"
  by (auto simp: wrap_error_def split: prod.splits sum.splits)

lemma run_checked:
  "(case x of Inl e \<Rightarrow> raise (g e) | Inr y \<Rightarrow> f y) w d = (Inr v, w', d') \<longleftrightarrow>
   (\<exists>y. x = Inr y \<and> f y w d = (Inr v, w', d'))"
  by (cases x) (simp_all add: run_raise)

text \<open>Programs that only read leave the rows alone.\<close>

lemma sign_in_reads:
  "get_account a w d = (Inr v, w', d') \<Longrightarrow> d' = d"
  "issue_token env idn w d = (Inr t, w', d') \<Longrightarrow> d' = d"
  by (auto simp: get_account_def issue_token_def tx_simps)

lemma map_each_reads:
  assumes "\<And>x w d v w' d'. f x w d = (Inr v, w', d') \<Longrightarrow> d' = d"
  shows "map_each xs f w d = (Inr vs, w', d') \<Longrightarrow> d' = d"
  by (induction xs arbitrary: w vs) (auto simp: tx_simps dest: assms)

lemma new_recovery_kit_reads: "new_recovery_kit env w d = (Inr v, w', d') \<Longrightarrow> d' = d"
  unfolding new_recovery_kit_def generate_recovery_codes_def hash_recovery_code_def
  by (auto simp: tx_simps dest!: map_each_reads [rotated])

lemma auth_result_run:
  assumes "auth_result_of env idn raw kit w d = (Inr res, w', d')"
  shows "d' = d \<and> tk_refresh (au_tokens res) = raw \<and> acc_id (au_account res) = id_account idn \<and>
    active_account d (id_account idn)"
  using assms
  by (auto simp: auth_result_of_def tx_simps issue_token_def get_account_def account_of_row_def active_account_def
      dest: find_Some_in)

lemma new_grant_run:
  assumes "new_grant env device w d = (Inr (g, raw), w', d')" and "uuid_law env" and "random_law env"
  shows "d' = d \<and> parse_opaque_token env raw = Inr (sg_refresh g, sg_refresh_hash g) \<and> sg_device g = device"
  using assms new_opaque_token_run [OF _ assms(2,3)] unfolding new_grant_def
  by (auto simp: tx_simps)

section \<open>What is handed out works\<close>

text \<open>The refresh token of a result can be exchanged: its row is there, for a live session.\<close>

definition token_live :: "uuid \<Rightarrow> bytes \<Rightarrow> uuid \<Rightarrow> db \<Rightarrow> bool" where
  "token_live i h a d \<longleftrightarrow> (\<exists>r \<in> set (refresh_tokens d). rt_id r = i \<and> rt_hash r = h \<and>
     rt_consumed_at r = None \<and> rt_revoked_at r = None \<and>
     (\<exists>s \<in> set (auth_sessions d). as_id s = rt_session r \<and> as_account s = a \<and> as_revoked_at s = None))"

lemma create_session_live:
  assumes "create_session a c g w d = (Inr u, w', d')"
  shows "token_live (sg_refresh g) (sg_refresh_hash g) a d'"
  using assms unfolding create_session_def token_live_def
  by (auto simp: tx_simps auth_write_defs split: if_splits)

lemma activate_live:
  assumes "activate_account a c j l hs g w d = (Inr idn, w', d')"
  shows "token_live (sg_refresh g) (sg_refresh_hash g) a d' \<and> idn = granted a g"
  using assms unfolding activate_account_def
proof (cases rule: transaction_InrD)
  case (committed w2)
  then show ?thesis by (auto simp: activate_body_def tx_simps dest!: create_session_live)
qed (auto simp: activate_body_def tx_simps)

lemma login_live:
  assumes "create_login_session a c j g w d = (Inr idn, w', d')"
  shows "token_live (sg_refresh g) (sg_refresh_hash g) a d' \<and> idn = granted a g"
  using assms unfolding create_login_session_def
proof (cases rule: transaction_InrD)
  case (committed w2)
  then show ?thesis by (auto simp: login_body_def tx_simps dest!: create_session_live)
qed (auto simp: login_body_def tx_simps)

lemma recovery_live:
  assumes "use_recovery_code a n g w d = (Inr idn, w', d')"
  shows "token_live (sg_refresh g) (sg_refresh_hash g) a d' \<and> idn = granted a g"
  using assms unfolding use_recovery_code_def
proof (cases rule: transaction_InrD)
  case (committed w2)
  then show ?thesis by (auto simp: use_recovery_body_def tx_simps dest!: create_session_live)
qed (auto simp: use_recovery_body_def tx_simps)

lemma rotate_live:
  assumes "rotate_refresh i h n nh ne w d = (Inr idn, w', d')"
  shows "token_live n nh (id_account idn) d'"
  using assms
proof (cases rule: rotate_runs)
  case (ran out w2)
  from ran(1) show ?thesis
  proof (cases rule: rotate_body_effect)
    case (exchange r s v now)
    note j = refresh_join_first [OF exchange(1)]
    have "s\<lparr>as_last_seen_at := micros now\<rparr> \<in> set (auth_sessions d')"
      using j(3) by (auto simp: exchange(11) set_update_where)
    moreover have "successor r n nh ne \<in> set (refresh_tokens d')" by (simp add: exchange(11))
    ultimately have "token_live n nh (as_account s) d'"
      unfolding token_live_def using j(4) exchange(5) by (intro bexI conjI) (simp_all add: successor_def)
    with ran(2) exchange(9) show ?thesis by auto
  qed (use ran(2) in auto)
qed auto

text \<open>The four ways to sign in, each with a result.\<close>

inductive signs_in :: "auth_env \<Rightarrow> ('c, 's, 'o, 'r) passkeys \<Rightarrow> (db, auth_result) tx \<Rightarrow> bool"
  for env :: auth_env and pk :: "('c, 's, 'o, 'r) passkeys" where
  registering: "signs_in env pk (finish_account_registration env pk challenge_id request device label)"
| logging_in: "signs_in env pk (finish_login env pk challenge_id request device)"
| recovering: "signs_in env pk (recover env handle code device)"
| refreshing: "signs_in env pk (refresh env raw)"

lemma granted_result:
  assumes "token_live (sg_refresh g) (sg_refresh_hash g) a d1 \<and> idn = granted a g"
    and "auth_result_of env idn raw kit w1 d1 = (Inr res, w', d')"
    and "parse_opaque_token env raw = Inr (sg_refresh g, sg_refresh_hash g)"
  shows "\<exists>i h. parse_opaque_token env (tk_refresh (au_tokens res)) = Inr (i, h) \<and>
    token_live i h (acc_id (au_account res)) d' \<and> active_account d' (acc_id (au_account res))"
  using assms auth_result_run [OF assms(2)] by (auto simp: granted_def)

section \<open>Who may sign in\<close>

lemma map_sum_Inr: "map_sum f g x = Inr y \<longleftrightarrow> (\<exists>z. x = Inr z \<and> y = g z)"
  by (cases x) auto

lemma user_of_response_run:
  assumes "user_of_response pk raw_id handle w d = (x, w', d')"
  shows "d' = d \<and> (\<forall>user. x = Inr user \<longrightarrow> raw_id \<in> pk_credential_id pk ` set (wu_credentials user) \<and>
    (\<exists>a \<in> set (accounts d). ac_handle a = handle \<and> acc_id (wa_account (wu_account user)) = ac_id a \<and>
      decode_all (pk_decode_credential pk) (map cr_credential (sort_key cr_created_at
        (filter (\<lambda>c. cr_account c = ac_id a \<and> cr_revoked_at c = None) (credentials d)))) = Inr (wu_credentials user)))"
proof -
  obtain y w1 d1 where g: "get_webauthn_account_by_handle handle w d = (y, w1, d1)"
    by (cases "get_webauthn_account_by_handle handle w d" rule: prod_cases3)
  have d1: "d1 = d" using g
    unfolding get_webauthn_account_by_handle_def get_webauthn_account_def query_row_def
    by (auto simp: bind_tx_def select_def sql_def raise_def ret_def split: option.splits)
  show ?thesis
  proof (cases y)
    case (Inl e)
    then show ?thesis using assms g d1
      by (auto simp: user_of_response_def bind_tx_def attempt_def raise_def)
  next
    case (Inr account)
    then obtain a where a: "a \<in> set (accounts d)" "ac_handle a = handle" "account = \<lparr>wa_account = account_of_row a,
       wa_credentials = map cr_credential (sort_key cr_created_at
         (filter (\<lambda>c. cr_account c = ac_id a \<and> cr_revoked_at c = None) (credentials d)))\<rparr>"
      using g by (auto simp: get_webauthn_account_by_handle_def get_webauthn_account_def tx_simps dest!: find_Some_in)
    have "d' = d" "hydrate_user pk account = Inr user \<and> raw_id \<in> pk_credential_id pk ` set (wu_credentials user)"
      if "x = Inr user" for user
      using assms g d1 Inr that
      by (auto simp: user_of_response_def bind_tx_def attempt_def raise_def ret_def of_result_def
          split: sum.splits if_splits)
    moreover have "d' = d" using assms g d1 Inr
      by (auto simp: user_of_response_def bind_tx_def attempt_def raise_def ret_def of_result_def
          split: sum.splits if_splits)
    moreover have "acc_id (wa_account (wu_account user)) = ac_id a \<and>
        decode_all (pk_decode_credential pk) (wa_credentials account) = Inr (wu_credentials user)"
      if "hydrate_user pk account = Inr user" for user
      using that a(3) by (auto simp: hydrate_user_def map_sum_Inr account_of_row_def)
    ultimately show ?thesis using a by auto
  qed
qed

lemma verify_login_run:
  assumes "verify_login pk session request w d = (Inr (user, credential), w', d')"
  obtains n k raw_id handle w1 w2 where "d' = d"
    and "pk_login_asks pk n session request = Inr (raw_id, handle)"
    and "user_of_response pk raw_id handle w1 d = (Inr user, w2, d)"
    and "pk_finish_login pk k (Inr user) session request = Inr credential"
proof -
  obtain raw_id handle where ask: "pk_login_asks pk (w_step w) session request = Inr (raw_id, handle)"
    and rest: "bind_tx (attempt (user_of_response pk raw_id handle)) (\<lambda>selected.
         bind_tx (observe (\<lambda>n. pk_finish_login pk n selected session request)) (\<lambda>r.
         case (selected, r) of
           (Inr user, Inr credential) \<Rightarrow> ret (user, credential)
         | (_, Inl e) \<Rightarrow> raise (invalid_response 401 e)
         | (Inl _, Inr _) \<Rightarrow> raise (as_error (app_new 401 ''invalid_passkey_response''
             ''The passkey response could not be verified.'')))) (tick w) d = (Inr (user, credential), w', d')"
    using assms unfolding verify_login_def
    by (auto simp: run_checked run_bind run_observe split: prod.splits)
  obtain x w2 d2 where u: "user_of_response pk raw_id handle (tick w) d = (x, w2, d2)"
    by (cases "user_of_response pk raw_id handle (tick w) d" rule: prod_cases3)
  then have "d2 = d" using user_of_response_run by blast
  with rest u obtain c where "x = Inr user" "pk_finish_login pk (w_step w2) (Inr user) session request = Inr credential" "d' = d"
    by (cases x; cases "pk_finish_login pk (w_step w2) x session request")
       (auto simp: tx_simps attempt_def)
  with that ask u \<open>d2 = d\<close> show thesis by blast
qed

lemma consumed_row:
  assumes "consume_challenge i p w d = (Inr g, w', d')"
  shows "\<exists>c \<in> set (challenges d). ch_id c = i \<and> ch_purpose c = p \<and> ch_consumed_at c = None \<and>
      cg_session_data g = ch_session_data c \<and> cg_account g = ch_account c"
    and "credentials d' = credentials d \<and> accounts d' = accounts d"
  using assms
  by (auto simp: consume_challenge_def tx_simps consumable_def dest!: find_Some_in split: option.splits)

lemma login_credential:
  assumes "create_login_session a c j g w d = (Inr idn, w', d')"
  shows "\<exists>x \<in> set (credentials d). live_credential a c x"
  using assms unfolding create_login_session_def
proof (cases rule: transaction_InrD)
  case (committed w2)
  then show ?thesis by (auto simp: login_body_def tx_simps dest!: one_rowD)
qed (auto simp: login_body_def tx_simps)

lemma recovery_used:
  assumes "use_recovery_code a n g w d = (Inr idn, w', d')"
  shows "{y \<in> set (recovery_codes d'). unused_code a n y} = {}"
  using assms unfolding use_recovery_code_def use_recovery_body_def
proof (rule transaction_commits)
  show "commits (bind_tx (create_session a [] g) (\<lambda>_. commit (granted a g)))" for x :: unit
    by (intro commits_bind commits_commit)
  fix x w1 d1 w2
  assume first: "exec_one ErrConflict (\<lambda>_ d. count_where (unused_code a n) (recovery_codes d))
       (\<lambda>e d. d\<lparr>recovery_codes := update_where (unused_code a n) (\<lambda>r. r\<lparr>rc_used_at := Some (e_clock e)\<rparr>)
         (recovery_codes d)\<rparr>) (tick w) d = (Inr x, w1, d1)"
    and rest: "bind_tx (create_session a [] g) (\<lambda>_. commit (granted a g)) w1 d1 = (Inr (Commit idn), w2, d')"
  obtain t where d1: "recovery_codes d1 = update_where (unused_code a n) (\<lambda>r. r\<lparr>rc_used_at := Some t\<rparr>) (recovery_codes d)"
    using first by (auto simp: tx_simps)
  have "recovery_codes d' = recovery_codes d1"
    using rest by (auto simp: create_session_def tx_simps auth_write_defs split: if_splits)
  then show ?thesis unfolding d1 by (simp add: no_row_left unused_code_def)
qed

section \<open>Running forwards\<close>

lemma run_step: "m w d = (Inr v, w', d') \<Longrightarrow> bind_tx m f w d = f v w' d'"
  by (simp add: bind_tx_def)

lemma run_value: "bind_tx (ret v) f w d = f v w d"
  by (simp add: bind_tx_def ret_def)

lemma refuse_step: "m w d = (Inr v, w', d') \<Longrightarrow> or_refuse e m w d = (Inr v, w', d')"
  by (simp add: or_refuse_def attempt_def bind_tx_def ret_def)

lemma new_grant_store:
  "new_grant env device w d = (case new_grant env device w () of (r, w', _) \<Rightarrow> (r, w', d))"
  by (simp add: new_grant_def new_opaque_token_def random_bytes_def ask_def bind_tx_def new_uuid_def
      observe_def go_now_def ret_def raise_def Let_def split: sum.splits)

lemma advances_attempt [adv_intros]: "advances m \<Longrightarrow> advances (attempt m)"
  by (auto simp: advances_def attempt_def split: prod.splits) (metis fst_conv snd_conv)

lemma advances_of_result [adv_intros]: "advances (of_result r)"
  by (unfold of_result_def, intro adv_intros)

lemma advances_ask [adv_intros]: "advances (ask f)"
  by (unfold ask_def, intro adv_intros)

lemma advances_user_of_response [adv_intros]: "advances (user_of_response pk raw_id handle)"
  by (unfold user_of_response_def get_webauthn_account_by_handle_def get_webauthn_account_def, intro adv_intros)

lemma advances_verify_login [adv_intros]: "advances (verify_login pk session request)"
  unfolding verify_login_def
  by (intro adv_intros)

lemma advances_new_grant [adv_intros]: "advances (new_grant env device)"
  unfolding new_grant_def new_opaque_token_def random_bytes_def Let_def by (intro adv_intros)

lemma advances_consume [adv_intros]: "advances (consume_challenge i p)"
  unfolding consume_challenge_def by (intro adv_intros)

lemma advances_recovery_codes_of [adv_intros]: "advances (recovery_codes_of h)"
  unfolding recovery_codes_of_def by (intro adv_intros)

end
