(* ===== verification/SignInScenario.thy ===== *)
theory SignInScenario
  imports SignInRuns
begin

text \<open>
  Concrete libraries and runs of the sign-in service on the database of the scenario: a refresh, a
  passkey login and a recovery.
\<close>

section \<open>Sign-ins in the scenario\<close>

definition demo_env :: auth_env where
  "demo_env = \<lparr>ae_random = (\<lambda>_ n. Inr (replicate n (CHR ''x''))), ae_sha256 = (\<lambda>_. ''r1''),
     ae_argon2 = (\<lambda>code _ _ _ _ n. take n (code @ replicate n (CHR ''-''))), ae_upper = id,
     ae_show_uuid = show_nat, ae_parse_uuid = digits_value, ae_jwt_sign = (\<lambda>c. Inr (cl_subject c)),
     ae_jwt_parse = (\<lambda>_ _ _ _ _. Inl NoRows), ae_access_ttl = minute, ae_refresh_ttl = hour,
     ae_challenge_ttl = minute\<rparr>"


lemma demo_env_laws: "uuid_law demo_env" "random_law demo_env" "argon2_law demo_env"
proof -
  have "CHR ''.'' \<notin> set (show_nat n)" for n
    using show_nat_digits [of "CHR ''.''" n] by (auto simp: between_def byte_of_def)
  then show "uuid_law demo_env" by (simp add: uuid_law_def demo_env_def digits_show_nat)
qed (auto simp: random_law_def argon2_law_def demo_env_def)

definition demo_passkeys :: "(bytes, bytes, unit, bytes) passkeys" where
  "demo_passkeys = \<lparr>pk_begin_registration = (\<lambda>_ _. Inr ((), ''session'')),
     pk_finish_registration = (\<lambda>_ _ _ r. Inr r), pk_begin_login = (\<lambda>_. Inr ((), ''session'')),
     pk_login_asks = (\<lambda>_ _ r. Inr (r, ''handle'')),
     pk_finish_login = (\<lambda>_ selected _ r. case selected of Inl e \<Rightarrow> Inl e | Inr u \<Rightarrow> Inr r),
     pk_encode_session = Inr, pk_decode_session = Inr, pk_encode_credential = Inr,
     pk_decode_credential = (\<lambda>_. Inr ''cred''), pk_credential_id = id\<rparr>"

definition demo_refresh_token :: string where
  "demo_refresh_token = ''81.eHh4eHh4eHh4eHh4eHh4eHh4eHh4eHh4eHh4eHh4eHg''"


text \<open>Cy logs in with the passkey \<open>cred\<close>.\<close>

definition demo_ceremony :: moment where
  "demo_ceremony = (fst demo_ready, demo_tables\<lparr>challenges := [\<lparr>ch_id = 95, ch_account = None,
     ch_purpose = ''login'', ch_session_data = ''session'', ch_expires_at = 1000 * hour,
     ch_consumed_at = None\<rparr>]\<rparr>)"

definition demo_phone :: device_info where
  "demo_phone = \<lparr>dv_id = 61, dv_platform = ''ios'', dv_name = ''Phone''\<rparr>"

text \<open>The run of a program of the scenario, from its computed outcome.\<close>

lemma demo_run:
  assumes "advances m"
    and "case m (demo_world\<lparr>w_step := n\<rparr>) d of
        (Inr x, w, e) \<Rightarrow> P x \<and> e = d' \<and> w_step w = k \<and> w_seq w = 0 | (Inl _, _) \<Rightarrow> False"
  obtains x where "m (demo_world\<lparr>w_step := n\<rparr>) d = (Inr x, demo_world\<lparr>w_step := k\<rparr>, d')" and "P x"
proof -
  from assms(2) obtain x w e where r: "m (demo_world\<lparr>w_step := n\<rparr>) d = (Inr x, w, e)"
    and p: "P x \<and> e = d' \<and> w_step w = k \<and> w_seq w = 0" by (rule run_resultE)
  have "w = demo_world\<lparr>w_step := k\<rparr>"
    using advancesD [OF assms(1) r] p by (simp add: advance_def demo_world_def)
  with r p that show thesis by simp
qed

definition demo_challenged :: db where
  "demo_challenged = (snd demo_ceremony)\<lparr>challenges := [\<lparr>ch_id = 95, ch_account = None, ch_purpose = ''login'',
     ch_session_data = ''session'', ch_expires_at = 1000 * hour, ch_consumed_at = Some (12 * second)\<rparr>]\<rparr>"

definition demo_new_grant :: "session_grant" where
  "demo_new_grant = \<lparr>sg_device = demo_phone, sg_session = 1160, sg_session_expires = 19 * second + hour,
     sg_refresh = 1170, sg_refresh_hash = ''r1'', sg_refresh_expires = 19 * second + hour\<rparr>"

lemma demo_consumed:
  "consume_challenge 95 ''login'' (demo_world\<lparr>w_step := 12\<rparr>) (snd demo_ceremony) =
    (Inr \<lparr>cg_id = 95, cg_account = None, cg_purpose = ''login'', cg_session_data = ''session''\<rparr>,
     demo_world\<lparr>w_step := 13\<rparr>, demo_challenged)"
proof (rule demo_run [OF advances_consume])
  show "case consume_challenge 95 ''login'' (demo_world\<lparr>w_step := 12\<rparr>) (snd demo_ceremony) of
      (Inr x, w, e) \<Rightarrow> x = \<lparr>cg_id = 95, cg_account = None, cg_purpose = ''login'', cg_session_data = ''session''\<rparr> \<and>
        e = demo_challenged \<and> w_step w = 13 \<and> w_seq w = 0 | (Inl _, _) \<Rightarrow> False"
    by code_simp
qed simp

lemma demo_verified:
  "\<exists>u. verify_login demo_passkeys ''session'' ''cred'' (demo_world\<lparr>w_step := 13\<rparr>) demo_challenged =
     (Inr (u, ''cred''), demo_world\<lparr>w_step := 16\<rparr>, demo_challenged) \<and> acc_id (wa_account (wu_account u)) = 9"
proof (rule demo_run [OF advances_verify_login])
  show "case verify_login demo_passkeys ''session'' ''cred'' (demo_world\<lparr>w_step := 13\<rparr>) demo_challenged of
      (Inr x, w, e) \<Rightarrow> (snd x = ''cred'' \<and> acc_id (wa_account (wu_account (fst x))) = 9) \<and>
        e = demo_challenged \<and> w_step w = 16 \<and> w_seq w = 0 | (Inl _, _) \<Rightarrow> False"
    by code_simp
qed auto

lemma demo_granted:
  "new_grant demo_env demo_phone (demo_world\<lparr>w_step := 16\<rparr>) d =
    (Inr (demo_new_grant, ''1170.eHh4eHh4eHh4eHh4eHh4eHh4eHh4eHh4eHh4eHh4eHg''), demo_world\<lparr>w_step := 20\<rparr>, d)"
proof -
  have "new_grant demo_env demo_phone (demo_world\<lparr>w_step := 16\<rparr>) () =
    (Inr (demo_new_grant, ''1170.eHh4eHh4eHh4eHh4eHh4eHh4eHh4eHh4eHh4eHh4eHg''), demo_world\<lparr>w_step := 20\<rparr>, ())"
  proof (rule demo_run [OF advances_new_grant])
    show "case new_grant demo_env demo_phone (demo_world\<lparr>w_step := 16\<rparr>) () of
        (Inr x, w, e) \<Rightarrow> x = (demo_new_grant, ''1170.eHh4eHh4eHh4eHh4eHh4eHh4eHh4eHh4eHh4eHh4eHg'') \<and>
          e = () \<and> w_step w = 20 \<and> w_seq w = 0 | (Inl _, _) \<Rightarrow> False"
      by code_simp
  qed simp
  then show ?thesis by (subst new_grant_store) simp
qed

text \<open>The end of a sign-in: a session is opened and answered.\<close>

lemma demo_answered:
  "case bind_tx (create_login_session 9 ''cred'' ''cred'' demo_new_grant)
      (\<lambda>idn. auth_result_of demo_env idn ''1170.eHh4eHh4eHh4eHh4eHh4eHh4eHh4eHh4eHh4eHh4eHg'' None)
      (demo_world\<lparr>w_step := 20\<rparr>) demo_challenged of (Inr _, _, _) \<Rightarrow> True | (Inl _, _) \<Rightarrow> False"
  by code_simp

lemma demo_login_run:
  "\<exists>res w d. finish_login demo_env demo_passkeys 95 ''cred'' demo_phone (demo_world\<lparr>w_step := 12\<rparr>)
     (snd demo_ceremony) = (Inr res, w, d)"
proof -
  obtain u where v: "verify_login demo_passkeys ''session'' ''cred'' (demo_world\<lparr>w_step := 13\<rparr>) demo_challenged =
     (Inr (u, ''cred''), demo_world\<lparr>w_step := 16\<rparr>, demo_challenged)" "acc_id (wa_account (wu_account u)) = 9"
    using demo_verified by auto
  have pk: "pk_decode_session demo_passkeys = Inr" "pk_encode_credential demo_passkeys = Inr" "pk_credential_id demo_passkeys = id"
    by (simp_all add: demo_passkeys_def)
  obtain res w d where r: "bind_tx (create_login_session 9 ''cred'' ''cred'' demo_new_grant)
      (\<lambda>idn. auth_result_of demo_env idn ''1170.eHh4eHh4eHh4eHh4eHh4eHh4eHh4eHh4eHh4eHh4eHg'' None)
      (demo_world\<lparr>w_step := 20\<rparr>) demo_challenged = (Inr res, w, d)" by (rule run_resultE [OF demo_answered])
  have c: "or_refuse e (consume_challenge 95 ''login'') (demo_world\<lparr>w_step := 12\<rparr>) (snd demo_ceremony) =
    (Inr \<lparr>cg_id = 95, cg_account = None, cg_purpose = ''login'', cg_session_data = ''session''\<rparr>,
     demo_world\<lparr>w_step := 13\<rparr>, demo_challenged)" for e
    by (rule refuse_step) (rule demo_consumed)
  have "finish_login demo_env demo_passkeys 95 ''cred'' demo_phone (demo_world\<lparr>w_step := 12\<rparr>)
     (snd demo_ceremony) = (Inr res, w, d)"
    by (simp add: finish_login_def of_result_def pk run_value v(2) r
        run_step [of "or_refuse e (consume_challenge 95 ''login'')" for e, OF c]
        run_step [of "verify_login demo_passkeys ''session'' ''cred''", OF v(1)]
        run_step [of "new_grant demo_env demo_phone", OF demo_granted])
  then show ?thesis by blast
qed

text \<open>Cy has lost the phone, and recovers the account with the first code.\<close>

definition demo_lost :: db where
  "demo_lost = demo_challenged\<lparr>accounts := update_where (\<lambda>a. ac_id a = 9)
       (\<lambda>a. a\<lparr>ac_recovery_handle := ''RECOVERY''\<rparr>) (accounts demo_tables),
     recovery_codes := [\<lparr>rc_account = 9, rc_position = 0,
       rc_hash = phc_string 8 1 1 ''salt'' ''ABC'', rc_used_at = None\<rparr>]\<rparr>"

lemma demo_codes:
  "\<exists>a. recovery_codes_of ''RECOVERY'' (demo_world\<lparr>w_step := 14\<rparr>) demo_lost =
    (Inr (a, [\<lparr>rr_position = 0, rr_hash = phc_string 8 1 1 ''salt'' ''ABC''\<rparr>]),
     demo_world\<lparr>w_step := 16\<rparr>, demo_lost) \<and> acc_id a = 9"
proof (rule demo_run [OF advances_recovery_codes_of])
  show "case recovery_codes_of ''RECOVERY'' (demo_world\<lparr>w_step := 14\<rparr>) demo_lost of
      (Inr x, w, e) \<Rightarrow> (acc_id (fst x) = 9 \<and> snd x = [\<lparr>rr_position = 0, rr_hash = phc_string 8 1 1 ''salt'' ''ABC''\<rparr>]) \<and>
        e = demo_lost \<and> w_step w = 16 \<and> w_seq w = 0 | (Inl _, _) \<Rightarrow> False"
    by code_simp
qed auto

lemma demo_handle: "to_upper demo_env (trim_space '' recovery'') = ''RECOVERY''"
proof -
  have "map upper_ascii ''recovery'' = ''RECOVERY''" by code_simp
  moreover have "trim_space '' recovery'' = ''recovery''"
    by (simp add: trim_ascii byte_of_def ascii_space_def is_space_def between_def)
  ultimately show ?thesis by (simp add: to_upper_def byte_of_def)
qed

lemma demo_code_verified:
  "verify_recovery_code demo_env ''abcd efgh jklm'' (phc_string 8 1 1 ''salt'' ''ABC'')"
proof -
  have u: "map upper_ascii ''abcd efgh jklm'' = ''ABCD EFGH JKLM''" by code_simp
  have "trim_space ''abcd efgh jklm'' = ''abcd efgh jklm''"
    by (simp add: trim_ascii byte_of_def ascii_space_def is_space_def between_def)
  then have "to_upper demo_env (trim_space ''abcd efgh jklm'') = ''ABCD EFGH JKLM''"
    using u by (simp add: to_upper_def byte_of_def)
  then have "normalize_code demo_env ''abcd efgh jklm'' = ''ABCDEFGHJKLM''"
    by (simp add: normalize_code_def runes_of_ascii byte_of_def write_rune_def rune_error_def del: runes.simps)
  then have "verify_hash demo_env ''abcd efgh jklm'' (8, 1, 1) (base64_encode std_alphabet ''salt'')
      (base64_encode std_alphabet ''ABC'')"
    by (simp add: verify_hash_def base64_decode_encode alphabets demo_env_def)
  then show ?thesis by (simp add: verify_phc)
qed

lemma demo_recovered:
  "case bind_tx (use_recovery_code 9 0 demo_new_grant)
      (\<lambda>idn. auth_result_of demo_env idn ''1170.eHh4eHh4eHh4eHh4eHh4eHh4eHh4eHh4eHh4eHh4eHg'' None)
      (demo_world\<lparr>w_step := 20\<rparr>) demo_lost of (Inr _, _, _) \<Rightarrow> True | (Inl _, _) \<Rightarrow> False"
  by code_simp

lemma demo_recovery_run:
  "\<exists>res w d. recover demo_env '' recovery'' ''abcd efgh jklm'' demo_phone (demo_world\<lparr>w_step := 14\<rparr>) demo_lost =
     (Inr res, w, d)"
proof -
  obtain a where a: "recovery_codes_of ''RECOVERY'' (demo_world\<lparr>w_step := 14\<rparr>) demo_lost =
      (Inr (a, [\<lparr>rr_position = 0, rr_hash = phc_string 8 1 1 ''salt'' ''ABC''\<rparr>]), demo_world\<lparr>w_step := 16\<rparr>, demo_lost)"
      "acc_id a = 9"
    using demo_codes by auto
  obtain res w d where r: "bind_tx (use_recovery_code 9 0 demo_new_grant)
      (\<lambda>idn. auth_result_of demo_env idn ''1170.eHh4eHh4eHh4eHh4eHh4eHh4eHh4eHh4eHh4eHh4eHg'' None)
      (demo_world\<lparr>w_step := 20\<rparr>) demo_lost = (Inr res, w, d)" by (rule run_resultE [OF demo_recovered])
  have c: "or_refuse e (recovery_codes_of ''RECOVERY'') (demo_world\<lparr>w_step := 14\<rparr>) demo_lost =
    (Inr (a, [\<lparr>rr_position = 0, rr_hash = phc_string 8 1 1 ''salt'' ''ABC''\<rparr>]), demo_world\<lparr>w_step := 16\<rparr>, demo_lost)" for e
    by (rule refuse_step) (rule a)
  obtain idn w1 d1 where u: "use_recovery_code 9 0 demo_new_grant (demo_world\<lparr>w_step := 20\<rparr>) demo_lost = (Inr idn, w1, d1)"
    and l: "auth_result_of demo_env idn ''1170.eHh4eHh4eHh4eHh4eHh4eHh4eHh4eHh4eHh4eHh4eHg'' None w1 d1 = (Inr res, w, d)"
    using r by (auto simp: run_bind)
  have "or_refuse e (use_recovery_code 9 0 demo_new_grant) (demo_world\<lparr>w_step := 20\<rparr>) demo_lost = (Inr idn, w1, d1)" for e
    using u by (rule refuse_step)
  then have "recover demo_env '' recovery'' ''abcd efgh jklm'' demo_phone (demo_world\<lparr>w_step := 14\<rparr>) demo_lost =
     (Inr res, w, d)"
    by (simp add: recover_def demo_handle demo_code_verified [simplified] a(2) l
        run_step [of "or_refuse e (recovery_codes_of ''RECOVERY'')" for e, OF c]
        run_step [of "new_grant demo_env demo_phone", OF demo_granted]
        run_step [of "or_refuse e (use_recovery_code 9 0 demo_new_grant)" for e])
  then show ?thesis by blast
qed

end
