(* ===== verification/RecoveryCodes.thy ===== *)
theory RecoveryCodes
  imports SignInScenario
begin

text \<open>Recovery codes from the sheet they are written down on to the hash that accepts them.\<close>

section \<open>Reading a code\<close>

text \<open>What is left of an ASCII string when case, blanks and hyphens do not count.\<close>

definition reading :: "string \<Rightarrow> string" where
  "reading s = filter (\<lambda>c. c \<noteq> CHR ''-'' \<and> c \<noteq> CHR '' '') (map upper_ascii s)"

lemma reading_append: "reading (s @ t) = reading s @ reading t"
  by (simp add: reading_def)

lemma byte_of_inj: "byte_of a = byte_of b \<longleftrightarrow> a = b"
  by (simp add: byte_of_def)

lemma normalize_ascii:
  assumes "is_ascii s"
  shows "normalize_code env s = reading (trim_space s)"
proof -
  have a: "is_ascii (trim_space s)"
    using assms by (auto simp: trim_ascii is_ascii_def dest!: set_dropWhileD)
  have w: "concat (map write_rune (map (\<lambda>c. (byte_of c, [c])) xs)) = xs" if "is_ascii xs" for xs
    using that by (induction xs) (auto simp: write_rune_def rune_error_def)
  have b: "byte_of c \<noteq> 45 \<and> byte_of c \<noteq> 32 \<longleftrightarrow> c \<noteq> CHR ''-'' \<and> c \<noteq> CHR '' ''" for c
    using byte_of_inj [of c "CHR ''-''"] byte_of_inj [of c "CHR '' ''"] by (simp add: byte_of_def)
  have "is_ascii (reading (trim_space s))"
    using is_ascii_upper [OF a] by (auto simp: reading_def is_ascii_def)
  note e = w [OF this]
  let ?ys = "map upper_ascii (trim_space s)"
  have "filter (\<lambda>x. fst x \<noteq> 45 \<and> fst x \<noteq> 32) (map (\<lambda>c. (byte_of c, [c])) ?ys) =
      map (\<lambda>c. (byte_of c, [c])) (reading (trim_space s))"
    by (simp add: filter_map comp_def b reading_def)
  then show ?thesis
    by (simp only: normalize_code_def to_upper_def a if_True runes_of_ascii [OF is_ascii_upper [OF a]] e)
qed

lemma reading_trimmed:
  assumes "is_ascii (pre @ s @ post)" and "\<forall>c \<in> set pre. ascii_space c" and "\<forall>c \<in> set post. ascii_space c"
    and "\<forall>c \<in> set (reading s). \<not> ascii_space c"
  shows "normalize_code env (pre @ s @ post) = reading s"
proof -
  obtain p q where s: "s = p @ trim_space (pre @ s @ post) @ q"
    and p: "\<forall>c \<in> set p. ascii_space c" and q: "\<forall>c \<in> set q. ascii_space c"
    using assms(1-3) by (rule trim_spaces)
  have up: "upper_ascii c = c" if "ascii_space c" for c
    using that by (auto simp: upper_ascii_def ascii_space_def is_space_def between_def)
  have sp: "ascii_space c" if "c \<in> set (reading p) \<union> set (reading q)" for c
    using that p q up by (auto simp: reading_def)
  have r: "reading s = reading p @ reading (trim_space (pre @ s @ post)) @ reading q"
    using reading_append s by metis
  have "set (reading p) \<union> set (reading q) \<subseteq> set (reading s)"
    unfolding r by auto
  then have e: "c \<notin> set (reading p) \<union> set (reading q)" for c using sp assms(4) by blast
  have "reading p = []" "reading q = []" using e [of "hd (reading p)"] e [of "hd (reading q)"] by force+
  then show ?thesis using r assms(1) by (simp add: normalize_ascii)
qed

section \<open>The codes that are handed out\<close>

lemma alphabet_letters: "set recovery_alphabet \<subseteq> {c. byte_of c < 128 \<and> \<not> ascii_space c \<and> upper_ascii c = c \<and> c \<noteq> CHR ''-''}"
  by (simp add: recovery_alphabet_def ascii_space_def is_space_def between_def upper_ascii_def byte_of_def)

lemma code_letters: "set (code_of bs) \<subseteq> insert (CHR ''-'') (set recovery_alphabet)"
proof -
  have "recovery_alphabet ! (byte_of b mod length recovery_alphabet) \<in> set recovery_alphabet" for b
    by (rule nth_mem) (simp add: recovery_alphabet_def)
  then show ?thesis
    by (auto simp: code_of_def Let_def dest!: in_set_takeD in_set_dropD)
qed

lemma code_reading:
  shows "is_ascii (code_of bs)" and "\<forall>c \<in> set (reading (code_of bs)). \<not> ascii_space c"
proof -
  have "byte_of c < 128 \<and> (upper_ascii c = CHR ''-'' \<or> \<not> ascii_space (upper_ascii c))" if "c \<in> set (code_of bs)" for c
  proof (cases "c = CHR ''-''")
    case False
    then have "c \<in> set recovery_alphabet" using that code_letters by blast
    then show ?thesis using alphabet_letters by auto
  qed (simp add: byte_of_def upper_ascii_def between_def)
  then show "is_ascii (code_of bs)" and "\<forall>c \<in> set (reading (code_of bs)). \<not> ascii_space c"
    by (auto simp: is_ascii_def reading_def)
qed

lemma generated_codes:
  assumes "generate_recovery_codes env n w d = (Inr codes, w', d')" and "random_law env"
  shows "length codes = n" and "\<forall>code \<in> set codes. \<exists>bs. length bs = 12 \<and> code = code_of bs"
proof -
  have "length codes = length xs \<and> (\<forall>code \<in> set codes. \<exists>bs. length bs = 12 \<and> code = code_of bs)"
    if "map_each xs (\<lambda>_ :: unit. bind_tx (random_bytes env 12) (\<lambda>random. ret (code_of random))) w d = (Inr codes, w', d')"
    for xs codes w d
    using that
  proof (induction xs arbitrary: codes w d)
    case (Cons x xs)
    then show ?case
      using assms(2) by (auto simp: tx_simps random_bytes_def random_law_def) blast
  qed (simp add: tx_simps)
  from this [OF assms(1) [unfolded generate_recovery_codes_def]]
  show "length codes = n" and "\<forall>code \<in> set codes. \<exists>bs. length bs = 12 \<and> code = code_of bs" by simp_all
qed

text \<open>
  C37. A recovery code that was handed out verifies against its stored hash however it is typed: in
  either case, with or without its hyphens, with further blanks or hyphens, and between any spaces.
\<close>

theorem recovery_code_readings:
  assumes "argon2_law env" and "random_law env"
    and codes: "generate_recovery_codes env n w d = (Inr codes, w1, d1)" and code: "code \<in> set codes"
    and hashed: "hash_recovery_code env code w2 e = (Inr hash, w3, e3)"
    and typed: "is_ascii (pre @ typed @ post)" "\<forall>c \<in> set (pre @ post). ascii_space c"
    and same: "reading typed = reading code"
  shows "verify_recovery_code env (pre @ typed @ post) hash"
proof -
  obtain bs where bs: "code = code_of bs" using generated_codes(2) [OF codes assms(2)] code by blast
  obtain salt where h: "hash = hash_with_salt env code salt"
    using hashed by (auto simp: hash_recovery_code_def tx_simps)
  have "normalize_code env ([] @ code @ []) = reading code"
    using code_reading unfolding bs by (intro reading_trimmed) simp_all
  moreover have "normalize_code env (pre @ typed @ post) = reading code"
    using typed code_reading(2) [of bs] unfolding same [symmetric] bs [symmetric]
    by (intro reading_trimmed) auto
  ultimately show ?thesis using assms(1) by (simp add: h verify_hashed)
qed

definition code_env :: auth_env where
  "code_env = demo_env\<lparr>ae_random := (\<lambda>_ n. Inr (replicate n (CHR ''W'')))\<rparr>"

lemma recovery_code_readings_witness:
  "\<exists>codes w hash u. generate_recovery_codes code_env 1 demo_world demo_lost = (Inr codes, w, demo_lost) \<and>
     codes = [''ZZZZ-ZZZZ-ZZZZ''] \<and>
     hash_recovery_code code_env ''ZZZZ-ZZZZ-ZZZZ'' w demo_lost = (Inr hash, u, demo_lost) \<and>
     verify_recovery_code code_env '' zzzzzzzz zzzz '' hash"
proof -
  have laws: "argon2_law code_env" "random_law code_env"
    using demo_env_laws by (auto simp: code_env_def argon2_law_def random_law_def)
  have c: "code_of (replicate 12 (CHR ''W'')) = ''ZZZZ-ZZZZ-ZZZZ''" by code_simp
  have r: "random_bytes code_env n w d = (Inr (replicate n (CHR ''W'')), tick w, d)" for n w d
    by (simp add: random_bytes_def ask_def code_env_def run_step [of "observe f" for f] observe_def ret_def bind_tx_def)
  have g: "generate_recovery_codes code_env 1 demo_world demo_lost =
      (Inr [''ZZZZ-ZZZZ-ZZZZ''], tick demo_world, demo_lost)"
    by (simp add: generate_recovery_codes_def bind_tx_def r ret_def c)
  have h: "hash_recovery_code code_env ''ZZZZ-ZZZZ-ZZZZ'' (tick demo_world) demo_lost =
      (Inr (hash_with_salt code_env ''ZZZZ-ZZZZ-ZZZZ'' (replicate 16 (CHR ''W''))), tick (tick demo_world), demo_lost)"
    by (simp add: hash_recovery_code_def bind_tx_def r ret_def)
  have "reading ''zzzzzzzz zzzz'' = reading ''ZZZZ-ZZZZ-ZZZZ''" by code_simp
  then have "verify_recovery_code code_env ('' '' @ ''zzzzzzzz zzzz'' @ '' '')
      (hash_with_salt code_env ''ZZZZ-ZZZZ-ZZZZ'' (replicate 16 (CHR ''W'')))"
    using recovery_code_readings [OF laws g _ h, of "'' ''" "''zzzzzzzz zzzz''" "'' ''"]
    by (simp add: byte_of_def ascii_space_def is_space_def)
  then show ?thesis using g h by (intro exI conjI) (rule g, rule refl, rule h, simp)
qed

end
