(* ===== verification/SignInProperties.thy ===== *)
theory SignInProperties
  imports SignInScenario
begin

text \<open>
  The sign-in service as a whole: what it hands out works, and nobody signs in without a passkey the
  library verified or a recovery code that was still unused.
\<close>



text \<open>
  C34. Nobody logs in without a passkey: the answer is for the account whose handle the passkey
  named, the passkey was one of its live ones, the library verified the response against an
  unused challenge of the store for that account, and the credential it verified is not revoked.
\<close>

theorem login_needs_passkey:
  assumes "finish_login env pk challenge_id request device w d = (Inr res, w', d')"
  shows "\<exists>c \<in> set (challenges d). \<exists>a \<in> set (accounts d). \<exists>x \<in> set (credentials d).
    \<exists>session raw_id user credential n k.
      ch_id c = challenge_id \<and> ch_purpose c = ''login'' \<and> ch_consumed_at c = None \<and>
      pk_decode_session pk (ch_session_data c) = Inr session \<and>
      pk_login_asks pk n session request = Inr (raw_id, ac_handle a) \<and>
      raw_id \<in> pk_credential_id pk ` set (wu_credentials user) \<and>
      acc_id (wa_account (wu_account user)) = ac_id a \<and>
      pk_finish_login pk k (Inr user) session request = Inr credential \<and>
      live_credential (ac_id a) (pk_credential_id pk credential) x \<and> acc_id (au_account res) = ac_id a"
proof -
  obtain g w1 d1 session user credential w2 d2 json grant raw w3 d3 w4 d4 idn where
      c: "consume_challenge challenge_id ''login'' w d = (Inr g, w1, d1)"
    and s: "pk_decode_session pk (cg_session_data g) = Inr session"
    and v: "verify_login pk session request w1 d1 = (Inr (user, credential), w2, d2)"
    and n: "new_grant env device w2 d2 = (Inr (grant, raw), w3, d3)"
    and l: "create_login_session (acc_id (wa_account (wu_account user))) (pk_credential_id pk credential)
       json grant w3 d3 = (Inr idn, w4, d4)"
    and r: "auth_result_of env idn raw None w4 d4 = (Inr res, w', d')"
    using assms unfolding finish_login_def by (auto simp: tx_simps map_sum_Inr split: prod.splits)
  obtain k1 k2 raw_id handle u1 u2 where d2: "d2 = d1"
    and ask: "pk_login_asks pk k1 session request = Inr (raw_id, handle)"
    and user: "user_of_response pk raw_id handle u1 d1 = (Inr user, u2, d1)"
    and fin: "pk_finish_login pk k2 (Inr user) session request = Inr credential"
    using v by (rule verify_login_run)
  have d3: "d3 = d2" using n by (auto simp: new_grant_def new_opaque_token_def tx_simps Let_def)
  note same = consumed_row(2) [OF c]
  obtain a where a: "a \<in> set (accounts d)" "ac_handle a = handle"
      "acc_id (wa_account (wu_account user)) = ac_id a" "raw_id \<in> pk_credential_id pk ` set (wu_credentials user)"
    using user_of_response_run [OF user] same by auto
  obtain x where x: "x \<in> set (credentials d)" "live_credential (ac_id a) (pk_credential_id pk credential) x"
    using login_credential [OF l] same by (auto simp: a(3) d3 d2)
  have "acc_id (au_account res) = ac_id a"
    using auth_result_run [OF r] login_live [OF l] a(3) by (simp add: granted_def)
  with consumed_row(1) [OF c] s ask fin a x show ?thesis by metis
qed

lemma login_needs_passkey_witness:
  "\<exists>res w d. finish_login demo_env demo_passkeys 95 ''cred'' demo_phone (demo_world\<lparr>w_step := 12\<rparr>)
     (snd demo_ceremony) = (Inr res, w, d) \<and>
     (\<exists>x \<in> set (credentials (snd demo_ceremony)). live_credential (acc_id (au_account res)) (cr_id x) x)"
proof -
  obtain res w d where r: "finish_login demo_env demo_passkeys 95 ''cred'' demo_phone (demo_world\<lparr>w_step := 12\<rparr>)
      (snd demo_ceremony) = (Inr res, w, d)" using demo_login_run by blast
  have "\<exists>(a :: account_row) x credential. x \<in> set (credentials (snd demo_ceremony)) \<and>
      live_credential (ac_id a) (pk_credential_id demo_passkeys credential) x \<and> acc_id (au_account res) = ac_id a"
    using login_needs_passkey [OF r] by (elim bexE exE conjE) (intro exI conjI)
  then obtain a :: account_row and x c where x: "x \<in> set (credentials (snd demo_ceremony))"
      and l: "live_credential (ac_id a) (pk_credential_id demo_passkeys c) x" and a: "acc_id (au_account res) = ac_id a"
    by (elim exE conjE)
  have "live_credential (acc_id (au_account res)) (cr_id x) x"
    using l unfolding a live_credential_def by (elim conjE) (intro conjI refl)
  with x r show ?thesis by (intro exI conjI bexI)
qed



end
