(* ===== verification/RateLimiter.thy ===== *)
theory RateLimiter
  imports Prelude "HOL-Library.AList"
begin

text \<open>
  The rate limiter of \<open>internal/httpapi/middleware.go\<close>: a fixed window per key, and a purge of stale
  windows when there are more than ten thousand. The Go map is an association list with distinct
  keys. A key without an entry reads as the zero value, whose window \<open>IsZero\<close>.
\<close>

text \<open>The zero \<open>time.Time\<close>, 1 January of year 1.\<close>

definition zero_time :: time where
  "zero_time = - 62135596800 * second"

record rate_bucket =
  rb_window :: time
  rb_count :: int

record rate_limiter =
  rl_buckets :: "(string \<times> rate_bucket) list"
  rl_limit :: int
  rl_interval :: duration

definition new_rate_limiter :: "int \<Rightarrow> duration \<Rightarrow> rate_limiter" where
  "new_rate_limiter limit interval = \<lparr>rl_buckets = [], rl_limit = limit, rl_interval = interval\<rparr>"

definition zero_bucket :: rate_bucket where
  "zero_bucket = \<lparr>rb_window = zero_time, rb_count = 0\<rparr>"

definition bucket_of :: "rate_limiter \<Rightarrow> string \<Rightarrow> rate_bucket" where
  "bucket_of l key = (case map_of (rl_buckets l) key of None \<Rightarrow> zero_bucket | Some b \<Rightarrow> b)"

definition count_call :: "duration \<Rightarrow> time \<Rightarrow> rate_bucket \<Rightarrow> rate_bucket" where
  "count_call interval now b =
     (let b = (if rb_window b = zero_time \<or> interval \<le> time_sub now (rb_window b)
               then \<lparr>rb_window = now, rb_count = 0\<rparr> else b)
      in b\<lparr>rb_count := rb_count b + 1\<rparr>)"

definition purge :: "duration \<Rightarrow> time \<Rightarrow> (string \<times> rate_bucket) list \<Rightarrow> (string \<times> rate_bucket) list" where
  "purge interval now buckets = filter (\<lambda>(_, b). \<not> 2 * interval < time_sub now (rb_window b)) buckets"

definition allow :: "string \<Rightarrow> time \<Rightarrow> rate_limiter \<Rightarrow> bool \<times> rate_limiter" where
  "allow key now l =
     (let bucket = count_call (rl_interval l) now (bucket_of l key);
          buckets = AList.update key bucket (rl_buckets l);
          kept = (if 10000 < length buckets then purge (rl_interval l) now buckets else buckets)
      in (rb_count bucket \<le> rl_limit l, l\<lparr>rl_buckets := kept\<rparr>))"

section \<open>A sequence of calls\<close>

fun answers :: "rate_limiter \<Rightarrow> (string \<times> time) list \<Rightarrow> bool list" where
  "answers l [] = []"
| "answers l ((key, now) # calls) =
     (case allow key now l of (ok, l') \<Rightarrow> ok # answers l' calls)"

text \<open>
  The reference: one counter per key that only its own calls move, and that is never purged.
\<close>

definition own_bucket :: "duration \<Rightarrow> string \<Rightarrow> (string \<times> time) list \<Rightarrow> rate_bucket" where
  "own_bucket interval key calls =
     fold (\<lambda>c. count_call interval (snd c)) (filter (\<lambda>c. fst c = key) calls) zero_bucket"

definition fixed_window :: "int \<Rightarrow> duration \<Rightarrow> (string \<times> time) list \<Rightarrow> bool list" where
  "fixed_window limit interval calls =
     map (\<lambda>i. rb_count (own_bucket interval (fst (calls ! i)) (take (Suc i) calls)) \<le> limit) [0..<length calls]"

section \<open>The purge is invisible\<close>

text \<open>
  A bucket the limiter has lost stands for one whose window is over, and both count the next call
  alike. \<open>tracks\<close> relates the two sides after a sequence of calls that ended at time \<open>t\<close>.
\<close>

definition stands_for :: "duration \<Rightarrow> time \<Rightarrow> rate_bucket \<Rightarrow> rate_bucket \<Rightarrow> bool" where
  "stands_for interval t b r \<longleftrightarrow> b = r \<or> (b = zero_bucket \<and> (\<forall>now \<ge> t. interval \<le> time_sub now (rb_window r)))"

definition tracks :: "time \<Rightarrow> (string \<times> time) list \<Rightarrow> rate_limiter \<Rightarrow> bool" where
  "tracks t calls l \<longleftrightarrow> distinct (map fst (rl_buckets l)) \<and>
     (\<forall>key. stands_for (rl_interval l) t (bucket_of l key) (own_bucket (rl_interval l) key calls))"

lemma time_sub_mono: "t \<le> now \<Longrightarrow> time_sub t u \<le> time_sub now u"
  by (auto simp: time_sub_def)

lemma stands_for_later: "stands_for i t b r \<Longrightarrow> t \<le> u \<Longrightarrow> stands_for i u b r"
  by (auto simp: stands_for_def)

lemma stands_for_count: "stands_for i t b r \<Longrightarrow> t \<le> now \<Longrightarrow> count_call i now b = count_call i now r"
  by (auto simp: stands_for_def count_call_def zero_bucket_def Let_def)

lemma own_bucket_snoc:
  "own_bucket i key (calls @ [(k, now)]) =
     (if k = key then count_call i now (own_bucket i key calls) else own_bucket i key calls)"
  by (simp add: own_bucket_def)

lemma bucket_of_update:
  "bucket_of (l\<lparr>rl_buckets := AList.update k b (rl_buckets l)\<rparr>) key = (if k = key then b else bucket_of l key)"
  by (simp add: bucket_of_def update_conv')

lemma map_of_purge:
  "distinct (map fst bs) \<Longrightarrow> map_of (purge i now bs) key =
     (case map_of bs key of None \<Rightarrow> None
      | Some b \<Rightarrow> if 2 * i < time_sub now (rb_window b) then None else Some b)"
proof (induction bs)
  case (Cons x bs)
  have "map_of (purge i now bs) (fst x) = None" if "fst x \<notin> fst ` set bs"
    using that by (auto simp: purge_def map_of_eq_None_iff)
  with Cons show ?case by (cases x) (auto simp: purge_def)
qed (simp add: purge_def)

lemma purge_distinct: "distinct (map fst bs) \<Longrightarrow> distinct (map fst (purge i now bs))"
  by (simp add: purge_def distinct_map_filter)

lemma stands_for_purged:
  assumes "distinct (map fst bs)" and "0 \<le> i"
    and "stands_for i now (case map_of bs key of None \<Rightarrow> zero_bucket | Some b \<Rightarrow> b) r"
  shows "stands_for i now (case map_of (purge i now bs) key of None \<Rightarrow> zero_bucket | Some b \<Rightarrow> b) r"
proof (cases "map_of bs key")
  case (Some b)
  show ?thesis
  proof (cases "2 * i < time_sub now (rb_window b)")
    case True
    then have "i \<le> time_sub u (rb_window b)" if "now \<le> u" for u
      using time_sub_mono [OF that, of "rb_window b"] assms(2) by linarith
    then show ?thesis using assms(3) Some True
      by (auto simp: map_of_purge [OF assms(1)] stands_for_def)
  qed (use assms(3) Some in \<open>simp add: map_of_purge [OF assms(1)]\<close>)
qed (use assms(3) in \<open>simp add: map_of_purge [OF assms(1)]\<close>)

lemma allow_tracks:
  assumes "tracks t calls l" and "t \<le> now" and "0 \<le> rl_interval l" and "allow k now l = (ok, l')"
  shows "tracks now (calls @ [(k, now)]) l'"
    and "ok \<longleftrightarrow> rb_count (own_bucket (rl_interval l) k (calls @ [(k, now)])) \<le> rl_limit l"
    and "rl_interval l' = rl_interval l" and "rl_limit l' = rl_limit l"
proof -
  let ?i = "rl_interval l"
  let ?b = "count_call ?i now (bucket_of l k)"
  let ?bs = "AList.update k ?b (rl_buckets l)"
  have b: "?b = own_bucket ?i k (calls @ [(k, now)])"
    using assms(1,2) by (auto simp: tracks_def own_bucket_snoc intro: stands_for_count)
  have l': "l' = l\<lparr>rl_buckets := if 10000 < length ?bs then purge ?i now ?bs else ?bs\<rparr>"
    and ok: "ok \<longleftrightarrow> rb_count ?b \<le> rl_limit l"
    using assms(4) by (auto simp: allow_def Let_def)
  show "ok \<longleftrightarrow> rb_count (own_bucket ?i k (calls @ [(k, now)])) \<le> rl_limit l" using ok b by simp
  show "rl_interval l' = ?i" and "rl_limit l' = rl_limit l" by (simp_all add: l')
  have d: "distinct (map fst ?bs)" using assms(1) by (simp add: tracks_def distinct_update)
  have s: "stands_for ?i now (bucket_of (l\<lparr>rl_buckets := ?bs\<rparr>) key) (own_bucket ?i key (calls @ [(k, now)]))" for key
    using assms(1,2) b
    by (auto simp: bucket_of_update own_bucket_snoc tracks_def stands_for_def)
  show "tracks now (calls @ [(k, now)]) l'"
  proof (cases "10000 < length ?bs")
    case True
    then show ?thesis
      using s stands_for_purged [OF d assms(3)] purge_distinct [OF d]
      by (simp add: tracks_def l' bucket_of_def)
  next
    case False
    then show ?thesis using d s by (simp add: tracks_def l')
  qed
qed

lemma answers_tracked:
  assumes "tracks t done l" and "sorted (t # map snd calls)" and "0 \<le> rl_interval l"
  shows "answers l calls = map (\<lambda>i. rb_count (own_bucket (rl_interval l) (fst (calls ! i))
      (done @ take (Suc i) calls)) \<le> rl_limit l) [0..<length calls]"
  using assms
proof (induction calls arbitrary: t "done" l)
  case (Cons c calls)
  obtain k now where c: "c = (k, now)" by (cases c)
  obtain ok l' where a: "allow k now l = (ok, l')" by (cases "allow k now l")
  have "t \<le> now" using Cons.prems(2) by (simp add: c)
  note step = allow_tracks [OF Cons.prems(1) this Cons.prems(3) a]
  have "answers l' calls = map (\<lambda>i. rb_count (own_bucket (rl_interval l) (fst (calls ! i))
      ((done @ [(k, now)]) @ take (Suc i) calls)) \<le> rl_limit l) [0..<length calls]"
    using Cons.IH [OF step(1)] Cons.prems(2,3) by (simp add: c step(3,4))
  then show ?case using step(2)
    by (simp add: c a upt_conv_Cons comp_def del: upt_Suc flip: map_Suc_upt)
qed simp


definition demo_calls :: "(string \<times> time) list" where
  "demo_calls = [(''a'', 5), (''b'', 6), (''a'', 7), (''a'', 90)]"

lemma demo_counts:
  "count_call 60 5 zero_bucket = \<lparr>rb_window = 5, rb_count = 1\<rparr>"
  "count_call 60 6 zero_bucket = \<lparr>rb_window = 6, rb_count = 1\<rparr>"
  "count_call 60 7 \<lparr>rb_window = 5, rb_count = 1\<rparr> = \<lparr>rb_window = 5, rb_count = 2\<rparr>"
  "count_call 60 90 \<lparr>rb_window = 5, rb_count = 2\<rparr> = \<lparr>rb_window = 90, rb_count = 1\<rparr>"
  by (simp_all add: count_call_def zero_bucket_def zero_time_def time_sub_def min_duration_def max_duration_def)


end
