(* ===== verification/SyncLoop.thy ===== *)
theory SyncLoop
  imports SyncHandler
begin

text \<open>
  A phone with nothing to send that catches up: \<open>_performSync\<close> of
  \<open>mobile/lib/core/sync/sync_engine.dart\<close> asks for pages of 200 events until the server says that
  there are no more. Between the pages nobody else appends to the log, but a request itself may: it
  completes or expires sessions whose time is over.
\<close>

section \<open>What is left to read\<close>

definition running_ids :: "db \<Rightarrow> uuid list" where
  "running_ids d = map fs_id (filter active (sessions d))"

definition unread :: "int \<Rightarrow> db \<Rightarrow> pair_event list" where
  "unread c d = filter (\<lambda>e. c < pe_cursor e) (events d)"

text \<open>The events after the cursor and those that the running sessions may still cause.\<close>

definition to_read :: "int \<Rightarrow> db \<Rightarrow> nat" where
  "to_read c d = length (unread c d) + length (running_ids d)"

lemma filter_length_mono: "(\<And>x. x \<in> set xs \<Longrightarrow> P x \<Longrightarrow> Q x) \<Longrightarrow> length (filter P xs) \<le> length (filter Q xs)"
  by (induction xs) (auto intro: le_SucI)

section \<open>Closing sessions\<close>

text \<open>A step that closes the session \<open>i\<close> and appends one event.\<close>

definition closes :: "uuid \<Rightarrow> db \<Rightarrow> db \<Rightarrow> bool" where
  "closes i d d' \<longleftrightarrow> running_ids d' = filter (\<lambda>j. j \<noteq> i) (running_ids d) \<and> (\<exists>e. events d' = events d @ [e])"

lemma running_update:
  assumes "\<And>s. \<not> active (f s)"
  shows "map fs_id (filter active (update_where (\<lambda>s. fs_id s = i) f rows)) =
    filter (\<lambda>j. j \<noteq> i) (map fs_id (filter active rows))"
  by (induction rows) (auto simp: assms)

lemma append_pair_event_run:
  assumes "append_pair_event p t i a x w d = (Inr c, w', d')"
  shows "\<exists>e. events d' = events d @ [e]" and "sessions d' = sessions d"
  using assms by (auto simp: append_pair_event_def tx_simps insert_event_def require_def split: if_splits)

lemma closing_step:
  assumes "bind_tx (exec (\<lambda>e. update_sessions (\<lambda>s. fs_id s = i) (f e))) (\<lambda>_.
      bind_tx (read_session i) (\<lambda>s. bind_tx (append_pair_event p t (Some i) None (PSession s)) (\<lambda>_. ret ()))) w d
      = (Inr u, w', d')"
    and "\<And>e s. \<not> active (f e s)"
  shows "closes i d d'"
proof -
  obtain e w1 d1 s w2 c where u: "update_sessions (\<lambda>s. fs_id s = i) (f e) d = Inr d1"
    and r: "read_session i w1 d1 = (Inr s, w2, d1)"
    and a: "append_pair_event p t (Some i) None (PSession s) w2 d1 = (Inr c, w', d')"
    using assms(1) read_session_unchanged by (simp only: tx_simps) blast
  have "sessions d1 = update_where (\<lambda>s. fs_id s = i) (f e) (sessions d)" "events d1 = events d"
    using u by (auto simp: update_sessions_def write_sessions_def require_def split: if_splits)
  then show ?thesis
    using append_pair_event_run [OF a] running_update [of "f e" i "sessions d"] assms(2)
    by (simp add: closes_def running_ids_def)
qed

lemma settling_steps:
  "expire_session p i w d = (Inr u, w', d') \<Longrightarrow> closes i d d'"
  "elapse_session p x w d = (Inr u, w', d') \<Longrightarrow> closes (fst x) d d'"
  unfolding expire_session_def elapse_session_def
  by (erule closing_step, simp add: active_def active_state_def expire_row_def elapse_row_def)+

lemma closing_loop:
  assumes "\<And>x w d w' d'. m x w d = (Inr (), w', d') \<Longrightarrow> closes (key x) d d'"
  shows "for_each xs m w d = (Inr (), w', d') \<Longrightarrow>
    running_ids d' = filter (\<lambda>j. j \<notin> key ` set xs) (running_ids d) \<and>
    (\<exists>es. events d' = events d @ es \<and> length es = length xs)"
proof (induction xs arbitrary: w d)
  case (Cons x xs)
  then obtain w1 d1 where x: "m x w d = (Inr (), w1, d1)" and xs: "for_each xs m w1 d1 = (Inr (), w', d')"
    by (auto simp: tx_simps)
  from Cons.IH [OF xs] assms [OF x] show ?case
    by (auto simp: closes_def intro!: filter_cong)
qed (simp add: tx_simps)

text \<open>What a settling request appends it takes off the running sessions.\<close>

definition pays :: "db \<Rightarrow> db \<Rightarrow> bool" where
  "pays d d' \<longleftrightarrow> (\<exists>es. events d' = events d @ es \<and> length es + length (running_ids d') \<le> length (running_ids d))"

lemma pays_trans: "pays a b \<Longrightarrow> pays b c \<Longrightarrow> pays a c"
  unfolding pays_def by (elim exE) (rule_tac x = "es @ esa" in exI, simp)

lemma closed_rows:
  assumes "running_ids d' = filter (\<lambda>j. j \<notin> key ` set xs) (running_ids d)"
    and "events d' = events d @ es" and "length es = length xs"
    and "map key xs = map fs_id (filter P (sessions d))" and "\<And>s. P s \<Longrightarrow> active s"
  shows "pays d d'"
proof -
  let ?In = "\<lambda>j. j \<in> key ` set xs"
  have k: "key ` set xs = fs_id ` {s \<in> set (sessions d). P s}"
    using arg_cong [OF assms(4), of set] by simp
  have "length xs = length (filter P (sessions d))"
    using arg_cong [OF assms(4), of length] by simp
  also have "\<dots> \<le> length (filter (\<lambda>s. active s \<and> ?In (fs_id s)) (sessions d))"
    using assms(5) by (intro filter_length_mono) (auto simp: k)
  also have "\<dots> = length (filter ?In (running_ids d))"
    by (simp add: running_ids_def filter_map comp_def conj_commute)
  finally show ?thesis
    using assms(1-3) sum_length_filter_compl [of ?In "running_ids d"] by (auto simp: pays_def)
qed

lemma complete_elapsed_pays:
  assumes "complete_elapsed_session p w d = (Inr u, w', d')"
  shows "pays d d'"
proof -
  obtain c1 c2 w1 w2 w3 d1 where
      stale: "for_each (stale_pauses p c1 d) (expire_session p) w1 d = (Inr (), w2, d1)"
    and elapsed: "for_each (elapsed_sessions p c2 d1) (elapse_session p) w3 d1 = (Inr (), w', d')"
    using assms by (auto simp: complete_elapsed_session_def tx_simps)
  have "pays d d1"
  proof -
    have "running_ids d1 = filter (\<lambda>j. j \<notin> id ` set (stale_pauses p c1 d)) (running_ids d) \<and>
        (\<exists>es. events d1 = events d @ es \<and> length es = length (stale_pauses p c1 d))"
      by (rule closing_loop [OF _ stale]) (simp add: settling_steps(1))
    then obtain es where
      "running_ids d1 = filter (\<lambda>j. j \<notin> id ` set (stale_pauses p c1 d)) (running_ids d)"
      "events d1 = events d @ es" "length es = length (stale_pauses p c1 d)" by blast
    then show ?thesis
      by (rule closed_rows [where P = "\<lambda>s. fs_pair s = p \<and> fs_state s = SessionPaused \<and>
          (case fs_paused_at s of None \<Rightarrow> False | Some t \<Rightarrow> t \<le> c1 - 24 * hour)"])
        (auto simp: stale_pauses_def active_def active_state_def)
  qed
  moreover have "pays d1 d'"
  proof -
    have "running_ids d' = filter (\<lambda>j. j \<notin> fst ` set (elapsed_sessions p c2 d1)) (running_ids d1) \<and>
        (\<exists>es. events d' = events d1 @ es \<and> length es = length (elapsed_sessions p c2 d1))"
      by (rule closing_loop [OF _ elapsed]) (rule settling_steps(2))
    then obtain es where
      "running_ids d' = filter (\<lambda>j. j \<notin> fst ` set (elapsed_sessions p c2 d1)) (running_ids d1)"
      "events d' = events d1 @ es" "length es = length (elapsed_sessions p c2 d1)" by blast
    then show ?thesis
      by (rule closed_rows [where P = "\<lambda>s. fs_pair s = p \<and> fs_state s \<in> {SessionOpen, SessionTogether} \<and>
          fs_ends_at s \<le> c2"]) (auto simp: elapsed_sessions_def active_def active_state_def)
  qed
  ultimately show ?thesis by (rule pays_trans)
qed

lemma current_session_pays:
  assumes "current_session idn w d = (Inr s, w', d')"
  shows "pays d d'"
proof (cases "id_pair idn")
  case None
  then show ?thesis using assms by (auto simp: current_session_def tx_simps pays_def)
next
  case (Some p)
  with assms have "transaction (current_body p) w d = (Inr s, w', d')" by (simp add: current_session_def)
  then show ?thesis
  proof (cases rule: transaction_InrD)
    case (committed w2)
    then obtain u w1 d1 where c: "complete_elapsed_session p (tick w) d = (Inr u, w1, d1)"
      and rest: "(case active_ids p d1 of [] \<Rightarrow> commit None
        | i # _ \<Rightarrow> bind_tx (read_session i) (\<lambda>s. commit (Some s))) (tick w1) d1 = (Inr (Commit s), w2, d')"
      unfolding current_body_def by (auto simp: tx_simps)
    from rest have "d' = d1"
      by (cases "active_ids p d1") (auto simp: tx_simps dest: read_session_unchanged)
    then show ?thesis using complete_elapsed_pays [OF c] by simp
  qed (simp add: pays_def)
qed

section \<open>Pages\<close>

lemma last_cursor_max: "sorted (map pe_cursor es) \<Longrightarrow> e \<in> set es \<Longrightarrow> pe_cursor e \<le> last_cursor c es"
  by (induction es arbitrary: c) (auto simp: last_cursor_cases split: if_splits)

lemma last_cursor_ge: "\<forall>e \<in> set es. c < pe_cursor e \<Longrightarrow> c \<le> last_cursor c es"
  by (auto simp: last_cursor_cases intro: less_imp_le)

lemma length_filter_sort: "length (filter P (sort_key f xs)) = length (filter P xs)"
  by (simp add: filter_sort)

text \<open>A page takes its events off what is left.\<close>

lemma page_unread:
  assumes "page = take n (events_after p c d)"
  shows "length (unread (last_cursor c page) d) + length page \<le> length (unread c d)"
proof -
  let ?all = "events_after p c d"
  let ?next = "last_cursor c page"
  let ?own = "\<lambda>e. pe_pair e = p \<and> c < pe_cursor e"
  have c: "c \<le> ?next"
    by (rule last_cursor_ge) (auto simp: assms events_after_def dest!: in_set_takeD)
  have s: "sorted (map pe_cursor page)" using sorted_wrt_take [of "(\<le>)" "map pe_cursor ?all" n]
    by (simp add: assms take_map events_after_def)
  have "filter (\<lambda>e. ?next < pe_cursor e) page = []"
    using last_cursor_max [OF s] by (auto simp: filter_empty_conv not_less)
  moreover have "?all = page @ drop n ?all" by (simp add: assms)
  ultimately have "length (filter (\<lambda>e. ?next < pe_cursor e) ?all) \<le> length (drop n ?all)"
    by (metis append_Nil filter_append length_filter_le)
  then have "length (filter (\<lambda>e. ?next < pe_cursor e) ?all) + length page \<le> length ?all"
    by (simp add: assms)
  then have own: "length (filter (\<lambda>e. ?next < pe_cursor e \<and> ?own e) (events d)) + length page \<le> length (filter ?own (events d))"
    by (simp add: events_after_def length_filter_sort conj_commute)
  have split: "length (unread k d) = length (filter (\<lambda>e. k < pe_cursor e \<and> ?own e) (events d)) +
      length (filter (\<lambda>e. k < pe_cursor e \<and> \<not> ?own e) (events d))" for k
    using sum_length_filter_compl [of ?own "unread k d"] by (simp add: unread_def conj_commute)
  have "length (filter (\<lambda>e. ?next < pe_cursor e \<and> \<not> ?own e) (events d)) \<le>
      length (filter (\<lambda>e. c < pe_cursor e \<and> \<not> ?own e) (events d))"
    using c by (intro filter_length_mono) auto
  moreover have "filter (\<lambda>e. c < pe_cursor e \<and> ?own e) (events d) = filter ?own (events d)"
    by (rule filter_cong) auto
  ultimately show ?thesis using own split [of ?next] split [of c] by simp
qed

lemma pays_to_read: "pays d d' \<Longrightarrow> to_read c d' \<le> to_read c d"
  by (auto simp: pays_def to_read_def unread_def intro: order_trans [OF add_right_mono [OF length_filter_le]])

text \<open>A request of the phone and what it leaves to read.\<close>

definition page_request :: "int \<Rightarrow> sync_request" where
  "page_request c = \<lparr>sq_cursor = c, sq_limit = 200, sq_commands = []\<rparr>"

definition unread_of :: "auth_identity \<Rightarrow> int \<Rightarrow> db \<Rightarrow> pair_event list" where
  "unread_of idn c d = (case id_pair idn of None \<Rightarrow> [] | Some p \<Rightarrow> events_after p c d)"

lemma page_answered:
  assumes "sync idn (page_request c) w d = (Inr reply, w', d')"
  shows "pays d d'" and "sy_has_more reply \<longleftrightarrow> length (sy_events reply) = 200"
    and "sy_events reply = take 200 (unread_of idn c d')" and "sy_cursor reply = last_cursor c (sy_events reply)"
proof -
  obtain s w1 d1 w2 where cur: "current_session idn w d = (Inr s, w1, d1)"
    and pe: "pair_events idn c 200 w1 d1 = (Inr (sy_events reply, sy_cursor reply), w2, d')"
    and more: "sy_has_more reply \<longleftrightarrow> int (length (sy_events reply)) = 200"
    using assms unfolding sync_def page_request_def
    by (auto simp: tx_simps sync_limit_def split: if_splits)
  have "d' = d1" using pe by (rule pair_events_unchanged)
  then show "pays d d'" using current_session_pays [OF cur] by simp
  show "sy_has_more reply \<longleftrightarrow> length (sy_events reply) = 200" using more by simp
  show "sy_events reply = take 200 (unread_of idn c d')" and "sy_cursor reply = last_cursor c (sy_events reply)"
    using pe by (auto simp: pair_events_def tx_simps page_limit_def unread_of_def split: option.splits)
qed

lemma page_progress:
  assumes "sync idn (page_request c) w d = (Inr reply, w', d')"
  shows "to_read (sy_cursor reply) d' + length (sy_events reply) \<le> to_read c d"
proof -
  note r = page_answered [OF assms]
  have "length (unread (sy_cursor reply) d') + length (sy_events reply) \<le> length (unread c d')"
  proof (cases "id_pair idn")
    case None
    then show ?thesis using r(3,4) by (simp add: unread_of_def)
  next
    case (Some p)
    then show ?thesis using page_unread [OF r(3) [unfolded unread_of_def, simplified Some option.case]] r(4) by simp
  qed
  then show ?thesis using pays_to_read [OF r(1), of c] by (simp add: to_read_def)
qed

lemma page_decreases:
  assumes "(Inr reply, w', d') = sync idn (page_request c) w d" and "sy_has_more reply"
  shows "to_read (sy_cursor reply) d' < to_read c d"
  using page_progress [OF assms(1) [symmetric]] page_answered(2) [OF assms(1) [symmetric]] assms(2) by simp

section \<open>The loop\<close>

text \<open>The number of requests, and the cursor that is reached or the error that ended the loop.\<close>

function catch_up_loop ::
  "auth_identity \<Rightarrow> int \<Rightarrow> world \<Rightarrow> db \<Rightarrow> nat \<times> (go_error + int) \<times> world \<times> db" where
  "catch_up_loop idn c w d = (case sync idn (page_request c) w d of
       (Inl e, w', d') \<Rightarrow> (1, Inl e, w', d')
     | (Inr reply, w', d') \<Rightarrow>
         if sy_has_more reply then (case catch_up_loop idn (sy_cursor reply) w' d' of (n, r) \<Rightarrow> (Suc n, r))
         else (1, Inr (sy_cursor reply), w', d'))"
  by pat_completeness auto
termination
  by (relation "measure (\<lambda>(idn, c, w, d). to_read c d)") (auto intro: page_decreases)

declare catch_up_loop.simps [simp del]

text \<open>Every page but the last takes 200 events off what is left, and the last one is the end of the log.\<close>

lemma last_page:
  assumes "sync idn (page_request c) w d = (Inr reply, w', d')" and "\<not> sy_has_more reply"
  shows "unread_of idn (sy_cursor reply) d' = []"
proof (cases "id_pair idn")
  case (Some p)
  note r = page_answered [OF assms(1)]
  let ?all = "events_after p c d'"
  have es: "sy_events reply = ?all" using assms(2) r(2,3) by (simp add: unread_of_def Some min_def split: if_splits)
  have "sorted (map pe_cursor ?all)" by (simp add: events_after_def)
  then have "pe_cursor e \<le> sy_cursor reply" if "e \<in> set ?all" for e
    using last_cursor_max [OF _ that] r(4) es by simp
  moreover have "c \<le> sy_cursor reply"
    unfolding r(4) es by (rule last_cursor_ge) (simp add: events_after_def)
  ultimately have "e \<notin> set (events_after p (sy_cursor reply) d')" for e
    by (fastforce simp: events_after_def)
  then have "events_after p (sy_cursor reply) d' = []" by (metis list.set_intros(1) neq_Nil_conv)
  then show ?thesis by (simp add: unread_of_def Some)
qed (simp add: unread_of_def)

lemma loop_result:
  "catch_up_loop idn c w d = (n, r, w', d') \<Longrightarrow>
   200 * n \<le> to_read c d + 200 \<and> (case r of Inl _ \<Rightarrow> True | Inr c' \<Rightarrow> unread_of idn c' d' = [])"
proof (induction idn c w d arbitrary: n r w' d' rule: catch_up_loop.induct)
  case (1 idn c w d)
  obtain x w1 d1 where s: "sync idn (page_request c) w d = (x, w1, d1)"
    by (cases "sync idn (page_request c) w d" rule: prod_cases3)
  show ?case
  proof (cases x)
    case (Inl e)
    then show ?thesis using 1(2) by (auto simp: catch_up_loop.simps [of idn c w d] s)
  next
    case (Inr reply)
    note s = s [unfolded Inr]
    show ?thesis
    proof (cases "sy_has_more reply")
      case False
      then show ?thesis using 1(2) last_page [OF s False]
        by (auto simp: catch_up_loop.simps [of idn c w d] s)
    next
      case True
      obtain m where m: "catch_up_loop idn (sy_cursor reply) w1 d1 = (m, r, w', d')" and n: "n = Suc m"
        using 1(2) True by (auto simp: catch_up_loop.simps [of idn c w d] s split: prod.splits)
      show ?thesis
        using 1(1) [OF s [symmetric] refl refl True m] page_progress [OF s] page_answered(2) [OF s] True
        by (simp add: n)
    qed
  qed
qed


end
