(* ===== verification/NetAddr.thy ===== *)
theory NetAddr
  imports Recovery
begin

text \<open>
  What \<open>rateLimitMiddleware\<close> uses of package \<open>net\<close>: \<open>SplitHostPort\<close>, and whether \<open>ParseIP\<close>
  accepts an address.
\<close>

section \<open>\<open>net.SplitHostPort\<close>\<close>

text \<open>A string cut at the last occurrence of a byte.\<close>

definition cut_last :: "char \<Rightarrow> string \<Rightarrow> (string \<times> string) option" where
  "cut_last sep s = map_option (\<lambda>(b, a). (rev a, rev b)) (cut_at sep (rev s))"

text \<open>The host; \<open>None\<close> is an error.\<close>

definition split_host :: "string \<Rightarrow> string option" where
  "split_host s = (case cut_last (CHR '':'') s of
       None \<Rightarrow> None
     | Some (host, port) \<Rightarrow>
         if take 1 s = ''['' then
           (case cut_at (CHR '']'') (tl s) of
              None \<Rightarrow> None
            | Some (inner, rest) \<Rightarrow>
                if rest = CHR '':'' # port \<and> CHR ''['' \<notin> set (tl s) \<and> CHR '']'' \<notin> set rest then Some inner else None)
         else if CHR '':'' \<in> set host \<or> CHR ''['' \<in> set s \<or> CHR '']'' \<in> set s then None
         else Some host)"

section \<open>\<open>net.ParseIP\<close>\<close>

text \<open>Four decimal numbers below 256 without leading zeros.\<close>

definition ipv4_field :: "string \<Rightarrow> bool" where
  "ipv4_field s \<longleftrightarrow> (case digits_value s of
       None \<Rightarrow> False
     | Some n \<Rightarrow> n < 256 \<and> length s \<le> 3 \<and> (s = ''0'' \<or> take 1 s \<noteq> ''0''))"

definition ipv4 :: "string \<Rightarrow> bool" where
  "ipv4 s \<longleftrightarrow> length (split_at (CHR ''.'') s) = 4 \<and> list_all ipv4_field (split_at (CHR ''.'') s)"

text \<open>
  \<open>netip.parseIPv6\<close> after \<open>n\<close> groups; \<open>ellipsis\<close> says whether \<open>::\<close> was there. The last two groups may
  be written as an IPv4 address.
\<close>

function ipv6_groups :: "nat \<Rightarrow> bool \<Rightarrow> string \<Rightarrow> bool" where
  "ipv6_groups n ellipsis s =
     (if 8 \<le> n then False
      else let digits = takeWhile (\<lambda>c. hex_value c \<noteq> None) s; rest = drop (length digits) s in
        if digits = [] \<or> 4 < length digits then False
        else if take 1 rest = ''.'' then (ellipsis \<or> n = 6) \<and> n \<le> 6 \<and> ipv4 s \<and> (n + 2 < 8) = ellipsis
        else if rest = [] then (n + 1 < 8) = ellipsis
        else if hd rest \<noteq> CHR '':'' \<or> tl rest = [] then False
        else if hd (tl rest) = CHR '':'' then
          (if ellipsis then False
           else if tl (tl rest) = [] then n + 1 < 8
           else ipv6_groups (n + 1) True (tl (tl rest)))
        else ipv6_groups (n + 1) ellipsis (tl rest))"
  by pat_completeness auto
termination
  by (relation "measure (\<lambda>(n, _, _). 8 - n)") (auto split: if_splits)

declare ipv6_groups.simps [simp del]

definition ipv6 :: "string \<Rightarrow> bool" where
  "ipv6 s = (if take 2 s = ''::'' then drop 2 s = [] \<or> ipv6_groups 0 True (drop 2 s)
     else ipv6_groups 0 False s)"

text \<open>The first of \<open>.\<close>, \<open>:\<close> and \<open>%\<close> decides the kind; \<open>ParseIP\<close> takes no zone.\<close>

definition parse_ip :: "string \<Rightarrow> bool" where
  "parse_ip s = (case List.find (\<lambda>c. c \<in> set ''.:%'') s of
       None \<Rightarrow> False
     | Some c \<Rightarrow> if c = CHR ''.'' then ipv4 s
         else if c = CHR '':'' then CHR ''%'' \<notin> set s \<and> ipv6 s else False)"

end
