(* ===== verification/Cipher.thy ===== *)
theory Cipher
  imports AuthService
begin

text \<open>
  Sealing of device tokens: \<open>internal/push/cipher.go\<close>. The block cipher in Galois counter mode is a
  parameter with its nonce size; what the code relies on is that it opens what it has sealed.
\<close>

record aead =
  ad_nonce_size :: nat
  ad_seal :: "bytes \<Rightarrow> bytes \<Rightarrow> bytes"
  ad_open :: "bytes \<Rightarrow> bytes \<Rightarrow> go_error + bytes"

text \<open>\<open>aes.NewCipher\<close> takes keys of 16, 24 or 32 bytes.\<close>

definition new_cipher :: "(bytes \<Rightarrow> aead) \<Rightarrow> bytes \<Rightarrow> go_error + aead" where
  "new_cipher gcm key = (if length key \<in> {16, 24, 32} then Inr (gcm key)
     else Inl (Plain ''crypto/aes: invalid key size''))"

definition seal_token :: "auth_env \<Rightarrow> aead \<Rightarrow> bytes \<Rightarrow> ('d, bytes) tx" where
  "seal_token env gcm plaintext = bind_tx (random_bytes env (ad_nonce_size gcm)) (\<lambda>nonce.
     ret (nonce @ ad_seal gcm nonce plaintext))"

definition unseal_token :: "aead \<Rightarrow> bytes \<Rightarrow> go_error + bytes" where
  "unseal_token gcm ciphertext = (if length ciphertext < ad_nonce_size gcm then Inl (Plain ''invalid ciphertext'')
     else ad_open gcm (take (ad_nonce_size gcm) ciphertext) (drop (ad_nonce_size gcm) ciphertext))"

lemma unseal_sealed:
  assumes "seal_token env gcm plaintext w d = (Inr sealed, w', d')"
    and "\<And>n k b. ae_random env n k = Inr b \<Longrightarrow> length b = k"
    and "\<And>nonce p. length nonce = ad_nonce_size gcm \<Longrightarrow> ad_open gcm nonce (ad_seal gcm nonce p) = Inr p"
  shows "unseal_token gcm sealed = Inr plaintext"
  using assms
  by (auto simp: seal_token_def random_bytes_def ask_def bind_tx_def observe_def ret_def raise_def unseal_token_def
      split: sum.splits)

end
