(* ===== verification/Http.thy ===== *)
theory Http
  imports NetAddr SyncHandler RateLimiter Cipher
begin

text \<open>
  Requests, answers and JSON bodies of the HTTP API: \<open>internal/httpapi/respond.go\<close> and what the
  handlers share. A request is kept as what the Go packages parse it to: its header and query values,
  the parameters the router has matched, the media type (\<open>None\<close> when \<open>mime.ParseMediaType\<close> fails),
  and the body as the JSON value the decoder reads, with whether nothing follows it. \<open>rq_passkey\<close> is
  the request as the WebAuthn library reads it.
\<close>

section \<open>JSON\<close>

text \<open>A number is \<open>JInt\<close> when its literal is an integer.\<close>

datatype json =
    JNull
  | JBool bool
  | JInt int
  | JReal
  | JStr string
  | JArr "json list"
  | JObj "(string \<times> json) list"

datatype json_kind = KBool | KInt64 | KString | KUuid

text \<open>\<open>foldName\<close>: what letters, the long s and the Kelvin sign fold to in a key.\<close>

definition fold_rune :: "nat \<Rightarrow> nat" where
  "fold_rune r = (if between 97 122 r then r - 32 else if r = 0x17F then 83 else if r = 0x212A then 75 else r)"

definition fold_name :: "string \<Rightarrow> nat list" where
  "fold_name s = map (\<lambda>x. fold_rune (fst x)) (runes s)"

definition field_for :: "(string \<times> json_kind) list \<Rightarrow> string \<Rightarrow> (string \<times> json_kind) option" where
  "field_for specs key = (case List.find (\<lambda>f. fst f = key) specs of
       Some f \<Rightarrow> Some f
     | None \<Rightarrow> List.find (\<lambda>f. fold_name (fst f) = fold_name key) specs)"

definition int64 :: "int \<Rightarrow> bool" where
  "int64 n \<longleftrightarrow> - (2 ^ 63) \<le> n \<and> n < 2 ^ 63"

text \<open>Whether a value other than \<open>null\<close> can be stored in a field; \<open>null\<close> leaves every field as it is.\<close>

fun fits_kind :: "auth_env \<Rightarrow> json_kind \<Rightarrow> json \<Rightarrow> bool" where
  "fits_kind env KBool (JBool b) = True"
| "fits_kind env KInt64 (JInt n) = int64 n"
| "fits_kind env KString (JStr s) = True"
| "fits_kind env KUuid (JStr s) = (ae_parse_uuid env s \<noteq> None)"
| "fits_kind env k v = False"

text \<open>\<open>DisallowUnknownFields\<close>; a key that comes twice counts as it comes last.\<close>

fun read_members ::
  "auth_env \<Rightarrow> (string \<times> json_kind) list \<Rightarrow> (string \<times> json) list \<Rightarrow> (string \<Rightarrow> json) \<Rightarrow> go_error + (string \<Rightarrow> json)" where
  "read_members env specs [] acc = Inr acc"
| "read_members env specs ((key, v) # kvs) acc = (case field_for specs key of
       None \<Rightarrow> Inl (Plain ''json: unknown field'')
     | Some (name, kind) \<Rightarrow>
         if v = JNull then read_members env specs kvs acc
         else if fits_kind env kind v then read_members env specs kvs (acc(name := v))
         else Inl (Plain ''json: cannot unmarshal''))"

definition read_struct :: "auth_env \<Rightarrow> (string \<times> json_kind) list \<Rightarrow> json \<Rightarrow> go_error + (string \<Rightarrow> json)" where
  "read_struct env specs v = (case v of
       JNull \<Rightarrow> Inr (\<lambda>_. JNull)
     | JObj kvs \<Rightarrow> read_members env specs kvs (\<lambda>_. JNull)
     | _ \<Rightarrow> Inl (Plain ''json: cannot unmarshal''))"

definition text_of :: "json \<Rightarrow> string" where
  "text_of v = (case v of JStr s \<Rightarrow> s | _ \<Rightarrow> [])"

definition int_of :: "json \<Rightarrow> int" where
  "int_of v = (case v of JInt n \<Rightarrow> n | _ \<Rightarrow> 0)"

definition bool_of :: "json \<Rightarrow> bool" where
  "bool_of v = (case v of JBool b \<Rightarrow> b | _ \<Rightarrow> False)"

definition uuid_of :: "auth_env \<Rightarrow> json \<Rightarrow> uuid" where
  "uuid_of env v = (case v of
       JStr s \<Rightarrow> (case ae_parse_uuid env s of None \<Rightarrow> nil_uuid | Some i \<Rightarrow> i)
     | _ \<Rightarrow> nil_uuid)"

section \<open>Requests\<close>

record 'r http_request =
  rq_method :: string
  rq_path :: string
  rq_header :: "string \<Rightarrow> string"
  rq_query :: "string \<Rightarrow> string"
  rq_remote :: string
  rq_tls :: bool
  rq_media :: "string option"
  rq_body :: "go_error + json \<times> bool"
  rq_sync :: "go_error + sync_request"
  rq_passkey :: 'r

type_synonym params = "string \<Rightarrow> string"

definition bad_media :: app_error where
  "bad_media = app_new 415 ''unsupported_media_type'' ''Use application/json.''"

definition decode_body :: "'r http_request \<Rightarrow> (json \<Rightarrow> go_error + 'a) \<Rightarrow> go_error + 'a" where
  "decode_body q read =
     (if rq_media q \<noteq> Some ''application/json'' then Inl (as_error bad_media)
      else case rq_body q of
        Inl e \<Rightarrow> Inl (as_error (app_wrap 400 ''invalid_json'' ''The JSON body is not valid.'' e))
      | Inr (v, alone) \<Rightarrow> (case read v of
            Inl e \<Rightarrow> Inl (as_error (app_wrap 400 ''invalid_json'' ''The JSON body is not valid.'' e))
          | Inr x \<Rightarrow> if alone then Inr x
              else Inl (as_error (app_new 400 ''invalid_json'' ''Send exactly one JSON object.''))))"

definition decode_json ::
  "auth_env \<Rightarrow> 'r http_request \<Rightarrow> (string \<times> json_kind) list \<Rightarrow> ('d, string \<Rightarrow> json) tx" where
  "decode_json env q specs = of_result (decode_body q (read_struct env specs))"

text \<open>\<open>uuid.Parse\<close> of a value, or one fixed error.\<close>

definition uuid_or :: "auth_env \<Rightarrow> app_error \<Rightarrow> string \<Rightarrow> ('d, uuid) tx" where
  "uuid_or env e s = (case ae_parse_uuid env s of None \<Rightarrow> raise (as_error e) | Some i \<Rightarrow> ret i)"

definition refuse_unless :: "bool \<Rightarrow> app_error \<Rightarrow> ('d, 'a) tx \<Rightarrow> ('d, 'a) tx" where
  "refuse_unless ok e m = (if ok then m else raise (as_error e))"

section \<open>Answers\<close>

record pair_invite =
  pi_id :: uuid
  pi_url :: string
  pi_expires_at :: time

datatype 'o answer =
    AError string string string "(string \<times> bool) list"
  | APair pair_summary
  | AInvite pair_invite
  | ACurrent "focus_session option" time
  | ASession focus_session time
  | AHistory "focus_session list"
  | ANote session_note
  | ACheer cheer_response
  | AAccount account
  | AOptions "'o ceremony_options"
  | AAuth auth_result
  | APasskeys "(string \<times> credential_record) list"
  | ACreated
  | ASessions "auth_session_record list"
  | AInstallations "installation_record list"
  | AKit recovery_kit
  | ASync sync_reply
  | AStatus string
  | AMeta string time
  | ADiagnostic string
  | AAppleSite string
  | AAssetLinks "string list"
  | APage string
  | ANothing

record 'o http_response =
  rs_status :: int
  rs_headers :: "(string \<times> string) list"
  rs_body :: "'o answer"

text \<open>\<open>writeJSON\<close>, with the headers the handler has set before.\<close>

definition write_json :: "(string \<times> string) list \<Rightarrow> int \<Rightarrow> 'o answer \<Rightarrow> 'o http_response" where
  "write_json headers status body = \<lparr>rs_status = status,
     rs_headers = headers @ [(''Content-Type'', ''application/json; charset=utf-8'')],
     rs_body = (if status = 204 then ANothing else body)\<rparr>"

definition write_error :: "string \<Rightarrow> go_error \<Rightarrow> 'o http_response" where
  "write_error request_id err = (let e = fst (map_error (Some err)) in
     write_json (if 0 < app_retry_after e then [(''Retry-After'', show_int (app_retry_after e))] else [])
       (app_status e) (AError (app_code e) (app_message e) request_id (app_details e)))"

text \<open>A handler returns its answer or the error it hands to \<open>writeError\<close>.\<close>

definition answered :: "string \<Rightarrow> ('d, 'o http_response) tx \<Rightarrow> ('d, 'o http_response) tx" where
  "answered request_id handler = bind_tx (attempt handler) (\<lambda>r. case r of
       Inl e \<Rightarrow> ret (write_error request_id e)
     | Inr response \<Rightarrow> ret response)"

definition ok_json :: "int \<Rightarrow> 'o answer \<Rightarrow> ('d, 'o http_response) tx" where
  "ok_json status body = ret (write_json [] status body)"

definition replay_header :: "bool \<Rightarrow> (string \<times> string) list" where
  "replay_header replayed = (if replayed then [(''Idempotent-Replayed'', ''true'')] else [])"

section \<open>The server's configuration\<close>

record http_env =
  he_auth :: auth_env
  he_invite_ttl :: duration
  he_base_url :: string
  he_topic :: string
  he_git_commit :: string
  he_team_id :: string
  he_fingerprints :: "string list"
  he_trust_proxy :: bool
  he_rate_limit :: int
  he_gcm :: aead
  he_lower :: "string \<Rightarrow> string"
  he_parse_time :: "string \<Rightarrow> time option"
  he_ping :: "nat \<Rightarrow> go_error option"
  he_mux :: "(string \<times> string) list \<Rightarrow> string \<Rightarrow> string \<Rightarrow> ((string \<times> string) \<times> params) option"

definition to_lower :: "http_env \<Rightarrow> string \<Rightarrow> string" where
  "to_lower env s = (if is_ascii s then map lower_ascii s else he_lower env s)"

end
