(* ===== verification/Handlers.thy ===== *)
theory Handlers
  imports Http PushStore
begin

text \<open>
  The handlers of the API: \<open>internal/httpapi/auth_handlers.go\<close>, \<open>collaboration_handlers.go\<close> and
  the small ones of \<open>router.go\<close>. Each reads its parameters in the order of the code, so that the
  first thing wrong with a request decides its answer, and then calls the service or the store.
\<close>

section \<open>Headers and parameters\<close>

definition header_text :: "'r http_request \<Rightarrow> string \<Rightarrow> string" where
  "header_text q name = trim_space (rq_header q name)"

definition ceremony_id :: "http_env \<Rightarrow> 'r http_request \<Rightarrow> ('d, uuid) tx" where
  "ceremony_id env q = uuid_or (he_auth env)
     (app_new 400 ''invalid_challenge'' ''The ceremony challenge is missing or invalid.'')
     (header_text q ''X-Along-Challenge'')"

definition device_of :: "http_env \<Rightarrow> 'r http_request \<Rightarrow> ('d, device_info) tx" where
  "device_of env q =
     bind_tx (uuid_or (he_auth env)
       (app_new 400 ''invalid_installation'' ''A stable installation ID is required.'')
       (header_text q ''X-Along-Installation-ID'')) (\<lambda>i.
     let platform = to_lower env (header_text q ''X-Along-Platform'');
         name = header_text q ''X-Along-Device-Name''
     in refuse_unless (platform = ''ios'' \<or> platform = ''android'')
          (app_new 400 ''invalid_platform'' ''Platform must be ios or android.'')
       (refuse_unless (name \<noteq> [] \<and> rune_count name \<le> 120)
          (app_new 400 ''invalid_device_name'' ''Use a device name between 1 and 120 characters.'')
       (ret \<lparr>dv_id = i, dv_platform = platform, dv_name = name\<rparr>)))"

definition session_id_of :: "http_env \<Rightarrow> params \<Rightarrow> ('d, uuid) tx" where
  "session_id_of env param = uuid_or (he_auth env) ErrValidation (param ''sessionID'')"

definition idempotency_key :: "http_env \<Rightarrow> 'r http_request \<Rightarrow> ('d, uuid) tx" where
  "idempotency_key env q = uuid_or (he_auth env)
     (app_new 400 ''idempotency_key_required'' ''Send a UUID Idempotency-Key header.'')
     (header_text q ''Idempotency-Key'')"

section \<open>Signing in\<close>

definition register_options ::
  "http_env \<Rightarrow> ('c, 's, 'o, 'r) passkeys \<Rightarrow> 'r http_request \<Rightarrow> (db, 'o http_response) tx" where
  "register_options env pk q =
     bind_tx (decode_json (he_auth env) q [(''display_name'', KString)]) (\<lambda>body.
     bind_tx (begin_account_registration (he_auth env) pk (text_of (body ''display_name''))) (\<lambda>options.
     ok_json 200 (AOptions options)))"

definition register_finish ::
  "http_env \<Rightarrow> ('c, 's, 'o, 'r) passkeys \<Rightarrow> 'r http_request \<Rightarrow> (db, 'o http_response) tx" where
  "register_finish env pk q =
     bind_tx (ceremony_id env q) (\<lambda>challenge_id.
     bind_tx (device_of env q) (\<lambda>device.
     bind_tx (finish_account_registration (he_auth env) pk challenge_id (rq_passkey q) device
       (rq_header q ''X-Along-Passkey-Label'')) (\<lambda>result.
     ok_json 201 (AAuth result))))"

definition login_options ::
  "http_env \<Rightarrow> ('c, 's, 'o, 'r) passkeys \<Rightarrow> 'r http_request \<Rightarrow> (db, 'o http_response) tx" where
  "login_options env pk q =
     bind_tx (decode_json (he_auth env) q []) (\<lambda>_.
     bind_tx (begin_login (he_auth env) pk) (\<lambda>options.
     ok_json 200 (AOptions options)))"

definition login_finish ::
  "http_env \<Rightarrow> ('c, 's, 'o, 'r) passkeys \<Rightarrow> 'r http_request \<Rightarrow> (db, 'o http_response) tx" where
  "login_finish env pk q =
     bind_tx (ceremony_id env q) (\<lambda>challenge_id.
     bind_tx (device_of env q) (\<lambda>device.
     bind_tx (finish_login (he_auth env) pk challenge_id (rq_passkey q) device) (\<lambda>result.
     ok_json 200 (AAuth result))))"

definition recover_handler :: "http_env \<Rightarrow> 'r http_request \<Rightarrow> (db, 'o http_response) tx" where
  "recover_handler env q =
     bind_tx (decode_json (he_auth env) q [(''recovery_handle'', KString), (''code'', KString)]) (\<lambda>body.
     bind_tx (device_of env q) (\<lambda>device.
     bind_tx (recover (he_auth env) (text_of (body ''recovery_handle'')) (text_of (body ''code'')) device)
       (\<lambda>result.
     ok_json 200 (AAuth result))))"

definition refresh_handler :: "http_env \<Rightarrow> 'r http_request \<Rightarrow> (db, 'o http_response) tx" where
  "refresh_handler env q =
     bind_tx (decode_json (he_auth env) q [(''refresh_token'', KString)]) (\<lambda>body.
     bind_tx (refresh (he_auth env) (text_of (body ''refresh_token''))) (\<lambda>result.
     ok_json 200 (AAuth result)))"

section \<open>The account\<close>

definition me :: "auth_identity \<Rightarrow> (db, 'o http_response) tx" where
  "me idn = bind_tx (get_account (id_account idn)) (\<lambda>account. ok_json 200 (AAccount account))"

definition logout :: "auth_identity \<Rightarrow> (db, 'o http_response) tx" where
  "logout idn =
     bind_tx (revoke_session (id_account idn) (id_session idn) ''logout'') (\<lambda>_. ok_json 204 ANothing)"

definition passkeys_handler :: "auth_identity \<Rightarrow> (db, 'o http_response) tx" where
  "passkeys_handler idn =
     bind_tx (list_credentials (id_account idn)) (\<lambda>records.
     ok_json 200 (APasskeys (map (\<lambda>r. (base64_encode url_alphabet (ce_id r), r)) records)))"

definition add_passkey_options ::
  "http_env \<Rightarrow> ('c, 's, 'o, 'r) passkeys \<Rightarrow> auth_identity \<Rightarrow> 'r http_request \<Rightarrow> (db, 'o http_response) tx" where
  "add_passkey_options env pk idn q =
     bind_tx (decode_json (he_auth env) q []) (\<lambda>_.
     bind_tx (begin_add_passkey (he_auth env) pk (id_account idn)) (\<lambda>options.
     ok_json 200 (AOptions options)))"

definition add_passkey_finish ::
  "http_env \<Rightarrow> ('c, 's, 'o, 'r) passkeys \<Rightarrow> auth_identity \<Rightarrow> 'r http_request \<Rightarrow> (db, 'o http_response) tx" where
  "add_passkey_finish env pk idn q =
     bind_tx (ceremony_id env q) (\<lambda>challenge_id.
     bind_tx (finish_add_passkey pk (id_account idn) challenge_id (rq_passkey q)
       (rq_header q ''X-Along-Passkey-Label'')) (\<lambda>_.
     ok_json 201 ACreated))"

definition revoke_passkey :: "auth_identity \<Rightarrow> params \<Rightarrow> (db, 'o http_response) tx" where
  "revoke_passkey idn param = (case decode_credential_id (param ''credentialID'') of
       None \<Rightarrow> raise validation_error
     | Some credential_id \<Rightarrow>
         bind_tx (revoke_credential (id_account idn) credential_id) (\<lambda>_. ok_json 204 ANothing))"

definition auth_sessions_handler :: "auth_identity \<Rightarrow> (db, 'o http_response) tx" where
  "auth_sessions_handler idn =
     bind_tx (list_sessions (id_account idn) (id_session idn)) (\<lambda>records. ok_json 200 (ASessions records))"

definition revoke_auth_session :: "http_env \<Rightarrow> auth_identity \<Rightarrow> params \<Rightarrow> (db, 'o http_response) tx" where
  "revoke_auth_session env idn param =
     bind_tx (session_id_of env param) (\<lambda>session_id.
     bind_tx (revoke_session (id_account idn) session_id ''user_revoked'') (\<lambda>_. ok_json 204 ANothing))"

definition installations :: "auth_identity \<Rightarrow> (db, 'o http_response) tx" where
  "installations idn =
     bind_tx (list_installations (id_account idn)) (\<lambda>records. ok_json 200 (AInstallations records))"

definition revoke_installation_handler ::
  "http_env \<Rightarrow> auth_identity \<Rightarrow> params \<Rightarrow> (db, 'o http_response) tx" where
  "revoke_installation_handler env idn param =
     bind_tx (uuid_or (he_auth env) ErrValidation (param ''installationID'')) (\<lambda>i.
     bind_tx (revoke_installation (id_account idn) i) (\<lambda>_. ok_json 204 ANothing))"

definition regenerate_handler ::
  "http_env \<Rightarrow> auth_identity \<Rightarrow> 'r http_request \<Rightarrow> (db, 'o http_response) tx" where
  "regenerate_handler env idn q =
     bind_tx (decode_json (he_auth env) q [(''confirm'', KBool)]) (\<lambda>body.
     refuse_unless (bool_of (body ''confirm''))
       (app_new 422 ''confirmation_required'' ''Confirm that old recovery codes will stop working.'')
     (bind_tx (regenerate_recovery_codes (he_auth env) (id_account idn)) (\<lambda>kit. ok_json 200 (AKit kit))))"

section \<open>The pair\<close>

definition get_pair :: "auth_identity \<Rightarrow> (db, 'o http_response) tx" where
  "get_pair idn = bind_tx (pair (id_account idn)) (\<lambda>p. ok_json 200 (APair p))"

definition normalized_base_url :: "string \<Rightarrow> string" where
  "normalized_base_url value = rev (dropWhile (\<lambda>c. c = CHR ''/'') (rev value))"

definition create_invite_handler ::
  "http_env \<Rightarrow> auth_identity \<Rightarrow> 'r http_request \<Rightarrow> (db, 'o http_response) tx" where
  "create_invite_handler env idn q =
     bind_tx (decode_json (he_auth env) q []) (\<lambda>_.
     bind_tx (random_bytes (he_auth env) 32) (\<lambda>token_bytes.
     let raw = base64_encode url_alphabet token_bytes; hash = ae_sha256 (he_auth env) raw in
     bind_tx new_uuid (\<lambda>invite_id.
     bind_tx go_now (\<lambda>now.
     bind_tx (create_pair_invite (id_account idn) invite_id hash (now + he_invite_ttl env)) (\<lambda>_.
     ok_json 201 (AInvite \<lparr>pi_id = invite_id,
       pi_url = normalized_base_url (he_base_url env) @ ''/join/'' @ raw,
       pi_expires_at = now + he_invite_ttl env\<rparr>))))))"

definition invite_not_found :: app_error where
  "invite_not_found = app_new 404 ''invite_not_found'' ''This pairing link is invalid or expired.''"

definition secret_token :: "string \<Rightarrow> bool" where
  "secret_token s \<longleftrightarrow> (case base64_decode url_alphabet s of None \<Rightarrow> False | Some b \<Rightarrow> length b = 32)"

definition hide_not_found :: "go_error \<Rightarrow> go_error" where
  "hide_not_found e = (if app_status (fst (map_error (Some e))) = 404 then as_error invite_not_found else e)"

definition accept_invite_handler ::
  "http_env \<Rightarrow> auth_identity \<Rightarrow> 'r http_request \<Rightarrow> (db, 'o http_response) tx" where
  "accept_invite_handler env idn q =
     bind_tx (decode_json (he_auth env) q [(''token'', KString)]) (\<lambda>body.
     let token = text_of (body ''token'') in
     refuse_unless (secret_token token) invite_not_found
     (bind_tx (attempt (accept_pair_invite (id_account idn) (ae_sha256 (he_auth env) token))) (\<lambda>r.
      case r of
        Inl e \<Rightarrow> raise (hide_not_found e)
      | Inr p \<Rightarrow> ok_json 201 (APair p))))"

section \<open>Focus sessions\<close>

definition current_session_handler :: "auth_identity \<Rightarrow> (db, 'o http_response) tx" where
  "current_session_handler idn =
     bind_tx (current_session idn) (\<lambda>s. bind_tx go_now (\<lambda>now. ok_json 200 (ACurrent s now)))"

definition history_limit :: "string \<Rightarrow> int option" where
  "history_limit raw = (if raw = [] then Some 50 else case atoi raw of
       None \<Rightarrow> None
     | Some n \<Rightarrow> if n < 1 \<or> 100 < n then None else Some n)"

definition session_history_handler ::
  "http_env \<Rightarrow> auth_identity \<Rightarrow> 'r http_request \<Rightarrow> (db, 'o http_response) tx" where
  "session_history_handler env idn q = (let raw = rq_query q ''before''; before = he_parse_time env raw in
     if raw \<noteq> [] \<and> before = None then raise validation_error
     else case history_limit (rq_query q ''limit'') of
       None \<Rightarrow> raise validation_error
     | Some limit \<Rightarrow>
         bind_tx (session_history idn (if raw = [] then None else before) limit) (\<lambda>xs.
         ok_json 200 (AHistory xs)))"

definition start_session_handler ::
  "http_env \<Rightarrow> auth_identity \<Rightarrow> 'r http_request \<Rightarrow> (db, 'o http_response) tx" where
  "start_session_handler env idn q =
     bind_tx (decode_json (he_auth env) q [(''session_id'', KUuid)]) (\<lambda>body.
     let session_id = uuid_of (he_auth env) (body ''session_id'') in
     refuse_unless (session_id \<noteq> nil_uuid) ErrValidation
     (bind_tx (idempotency_key env q) (\<lambda>key.
      bind_tx (start_session idn key session_id) (\<lambda>(s, replayed).
      bind_tx go_now (\<lambda>now.
      ret (write_json (replay_header replayed) (if replayed then 200 else 201) (ASession s now)))))))"

definition transition_handler ::
  "http_env \<Rightarrow> session_action \<Rightarrow> auth_identity \<Rightarrow> params \<Rightarrow> 'r http_request \<Rightarrow> (db, 'o http_response) tx" where
  "transition_handler env action idn param q =
     bind_tx (session_id_of env param) (\<lambda>session_id.
     bind_tx (idempotency_key env q) (\<lambda>key.
     bind_tx (decode_json (he_auth env) q [(''expected_version'', KInt64)]) (\<lambda>body.
     let version = int_of (body ''expected_version'') in
     refuse_unless (1 \<le> version) ErrValidation
     (bind_tx (if action = ActionJoin then join_session idn session_id key version
        else transition_session idn session_id key version action) (\<lambda>(s, replayed).
      bind_tx go_now (\<lambda>now.
      ret (write_json (replay_header replayed) 200 (ASession s now))))))))"

definition add_note_handler ::
  "http_env \<Rightarrow> auth_identity \<Rightarrow> params \<Rightarrow> 'r http_request \<Rightarrow> (db, 'o http_response) tx" where
  "add_note_handler env idn param q =
     bind_tx (session_id_of env param) (\<lambda>session_id.
     bind_tx (idempotency_key env q) (\<lambda>key.
     bind_tx (decode_json (he_auth env) q [(''body'', KString)]) (\<lambda>body.
     let text = trim_space (text_of (body ''body'')) in
     refuse_unless (1 \<le> rune_count text \<and> rune_count text \<le> 120)
       (app_new 422 ''invalid_note'' ''Use a note between 1 and 120 characters.'')
     (bind_tx (add_note idn session_id key text) (\<lambda>(note, replayed).
      ret (write_json (replay_header replayed) 201 (ANote note)))))))"

definition add_cheer_handler ::
  "http_env \<Rightarrow> auth_identity \<Rightarrow> params \<Rightarrow> 'r http_request \<Rightarrow> (db, 'o http_response) tx" where
  "add_cheer_handler env idn param q =
     bind_tx (session_id_of env param) (\<lambda>session_id.
     bind_tx (idempotency_key env q) (\<lambda>key.
     bind_tx (decode_json (he_auth env) q []) (\<lambda>_.
     bind_tx (add_cheer idn session_id key) (\<lambda>(cheer, replayed).
     ret (write_json (replay_header replayed) 201 (ACheer cheer))))))"

section \<open>Notifications and sync\<close>

definition register_push_handler ::
  "http_env \<Rightarrow> auth_identity \<Rightarrow> 'r http_request \<Rightarrow> (db, 'o http_response) tx" where
  "register_push_handler env idn q =
     bind_tx (decode_json (he_auth env) q [(''token'', KString), (''environment'', KString)]) (\<lambda>body.
     let token = to_lower env (trim_space (text_of (body ''token'')));
         environment = text_of (body ''environment'') in
     refuse_unless (case hex_decode token of None \<Rightarrow> False | Some b \<Rightarrow> length b = 32)
       (app_new 422 ''invalid_push_token'' ''The APNs device token is invalid.'')
     (refuse_unless (environment = ''sandbox'' \<or> environment = ''production'') ErrValidation
     (bind_tx (seal_token (he_auth env) (he_gcm env) token) (\<lambda>sealed.
      bind_tx (register_push_device (ae_sha256 (he_auth env)) (id_account idn) (id_installation idn)
        token sealed environment (he_topic env)) (\<lambda>_.
      ok_json 204 ANothing)))))"

definition revoke_push_handler :: "auth_identity \<Rightarrow> (db, 'o http_response) tx" where
  "revoke_push_handler idn =
     bind_tx (revoke_push_device (id_account idn) (id_installation idn)) (\<lambda>_. ok_json 204 ANothing)"

definition sync_handler :: "auth_identity \<Rightarrow> 'r http_request \<Rightarrow> (db, 'o http_response) tx" where
  "sync_handler idn q =
     bind_tx (of_result (decode_body q (\<lambda>_. rq_sync q))) (\<lambda>body.
     bind_tx (sync idn body) (\<lambda>reply. ok_json 200 (ASync reply)))"

section \<open>Without an account\<close>

definition live :: "(db, 'o http_response) tx" where
  "live = ok_json 200 (AStatus ''ok'')"

definition ready :: "http_env \<Rightarrow> (db, 'o http_response) tx" where
  "ready env = bind_tx (observe (he_ping env)) (\<lambda>r. case r of
       Some e \<Rightarrow> raise e
     | None \<Rightarrow> ok_json 200 (AStatus ''ready''))"

definition meta :: "http_env \<Rightarrow> (db, 'o http_response) tx" where
  "meta env = bind_tx go_now (\<lambda>now. ok_json 200 (AMeta (he_git_commit env) now))"

text \<open>The two association files, kept as the application they are for and its certificates.\<close>

definition apple_app_site_association :: "http_env \<Rightarrow> (db, 'o http_response) tx" where
  "apple_app_site_association env = ok_json 200 (AAppleSite (he_team_id env @ ''.com.joshspicer.along''))"

definition android_asset_links :: "http_env \<Rightarrow> (db, 'o http_response) tx" where
  "android_asset_links env = ok_json 200 (AAssetLinks (he_fingerprints env))"

text \<open>
  The landing page of an invitation, kept as the token it links to; \<open>http.NotFound\<close> for what is
  not a token.
\<close>

definition not_found_page :: "'o http_response" where
  "not_found_page = \<lparr>rs_status = 404, rs_headers = [(''Content-Type'', ''text/plain; charset=utf-8'')],
     rs_body = APage ''404 page not found''\<rparr>"

definition pair_invite_landing :: "params \<Rightarrow> (db, 'o http_response) tx" where
  "pair_invite_landing param =
     (if \<not> secret_token (param ''token'') then ret not_found_page
      else ret \<lparr>rs_status = 200, rs_headers = [(''Content-Type'', ''text/html; charset=utf-8''),
        (''Content-Security-Policy'', ''default-src 'none'; base-uri 'none'; form-action 'none'; frame-ancestors 'none'' @ [CHR 0x27]),
        (''X-Robots-Tag'', ''noindex, nofollow, noarchive'')], rs_body = APage (param ''token'')\<rparr>)"

end
