(* ===== verification/Diagnostics.thy ===== *)
theory Diagnostics
  imports Http
begin

text \<open>
  The diagnostics endpoints: \<open>internal/httpapi/diagnostic_handlers.go\<close>. Nothing they receive is
  stored; what they log is bounded, and is returned here beside the answer.
\<close>

section \<open>Bounded strings\<close>

text \<open>Cut at a number of bytes, then shortened until it is valid UTF-8.\<close>

function shorten :: "string \<Rightarrow> string" where
  "shorten s = (if valid_utf8 s then s else shorten (butlast s))"
  by pat_completeness auto
termination
proof (relation "measure length")
  fix s assume "\<not> valid_utf8 s"
  then have "s \<noteq> []" by auto
  then show "(butlast s, s) \<in> measure length" by simp
qed simp

declare shorten.simps [simp del]

definition bounded :: "string \<Rightarrow> nat \<Rightarrow> string" where
  "bounded value limit = (let v = trim_space value in if length v \<le> limit then v else shorten (take limit v))"

lemma shorten_prefix: "\<exists>n. shorten s = take n s \<and> n \<le> length s"
proof (induction s rule: shorten.induct)
  case (1 s)
  show ?case
  proof (cases "valid_utf8 s")
    case False
    then obtain n where "shorten (butlast s) = take n (butlast s)" "n \<le> length (butlast s)" using 1 by blast
    then show ?thesis using False
      by (metis (no_types) diff_le_self dual_order.trans length_butlast shorten.simps take_butlast nat_less_le le_neq_implies_less butlast_conv_take min.absorb1 take_take)
  qed (auto simp: shorten.simps [of s] intro: exI [of _ "length s"])
qed

lemma bounded_length: "length (bounded value limit) \<le> limit"
proof -
  obtain n where "shorten (take limit (trim_space value)) = take n (take limit (trim_space value))"
    using shorten_prefix by blast
  then show ?thesis by (simp add: bounded_def Let_def)
qed

section \<open>The endpoints\<close>

record app_event =
  ev_timestamp :: string
  ev_name :: string
  ev_fields :: "(string \<times> json) list"

record app_report =
  rp_commit :: string
  rp_platform :: string
  rp_events :: "app_event list"

datatype log_entry =
    PasskeyDiagnostic string "string list" int
  | AppDiagnostic string "string list" "(string \<times> json) list"

type_synonym diagnosis = "log_entry list \<times> (go_error + unit)"

definition passkey_specs :: "(string \<times> json_kind) list" where
  "passkey_specs = [(''platform'', KString), (''operation'', KString), (''relying_party_id'', KString),
     (''error_domain'', KString), (''error_code'', KInt64), (''error_description'', KString),
     (''app_commit'', KString)]"

definition passkey_diagnostic :: "auth_env \<Rightarrow> string \<Rightarrow> 'r http_request \<Rightarrow> diagnosis" where
  "passkey_diagnostic env request_id q = (case decode_body q (read_struct env passkey_specs) of
       Inl e \<Rightarrow> ([], Inl e)
     | Inr body \<Rightarrow>
         (let text = (\<lambda>name limit. bounded (text_of (body name)) limit);
              platform = text ''platform'' 20; operation = text ''operation'' 20 in
          if platform \<noteq> ''ios'' \<and> platform \<noteq> ''android'' then ([], Inl validation_error)
          else if operation \<noteq> ''register'' \<and> operation \<noteq> ''authenticate'' \<and> operation \<noteq> ''add''
          then ([], Inl validation_error)
          else ([PasskeyDiagnostic request_id [platform, operation, text ''relying_party_id'' 253,
              text ''error_domain'' 100, text ''error_description'' 500, text ''app_commit'' 64]
              (int_of (body ''error_code''))], Inr ())))"

definition allowed_events :: "string list" where
  "allowed_events = [''app.started'', ''app.lifecycle'', ''route.redirect'', ''auth.state'',
     ''network.failure'', ''sync.failure'', ''realtime.failure'', ''pairing.failure'']"

text \<open>Fields whose keys are cut to the same key are all kept here; Go keeps one of them.\<close>

definition safe_field :: "string \<times> json \<Rightarrow> (string \<times> json) list" where
  "safe_field kv = (case snd kv of
       JStr s \<Rightarrow> [(bounded (fst kv) 40, JStr (bounded s 200))]
     | JBool b \<Rightarrow> [(bounded (fst kv) 40, JBool b)]
     | JInt n \<Rightarrow> [(bounded (fst kv) 40, JInt n)]
     | JReal \<Rightarrow> [(bounded (fst kv) 40, JReal)]
     | _ \<Rightarrow> [])"

text \<open>The events before a refused one have been logged.\<close>

fun log_events :: "string \<Rightarrow> app_report \<Rightarrow> app_event list \<Rightarrow> diagnosis" where
  "log_events request_id r [] = ([], Inr ())"
| "log_events request_id r (e # es) =
     (if ev_name e \<notin> set allowed_events \<or> 12 < length (ev_fields e) then ([], Inl validation_error)
      else case log_events request_id r es of (logs, result) \<Rightarrow>
        (AppDiagnostic request_id [bounded (rp_commit r) 64, rp_platform r, bounded (ev_timestamp e) 40, ev_name e]
          (concat (map safe_field (ev_fields e))) # logs, result))"

definition app_diagnostics :: "string \<Rightarrow> (go_error + app_report) \<Rightarrow> 'r http_request \<Rightarrow> diagnosis" where
  "app_diagnostics request_id report q = (case decode_body q (\<lambda>_. report) of
       Inl e \<Rightarrow> ([], Inl e)
     | Inr r \<Rightarrow>
         if (rp_platform r \<noteq> ''ios'' \<and> rp_platform r \<noteq> ''android'') \<or> rp_events r = [] \<or> 50 < length (rp_events r)
         then ([], Inl validation_error)
         else log_events request_id r (rp_events r))"

section \<open>A request logs little\<close>

lemma log_events_length: "length (fst (log_events request_id r es)) \<le> length es"
  by (induction es) (auto split: prod.splits)

lemma diagnostics_bounded: "length (fst (app_diagnostics request_id report q)) \<le> 50"
  using log_events_length
  by (fastforce simp: app_diagnostics_def intro: order_trans split: sum.splits)

end
