(* ===== verification/Router.thy ===== *)
theory Router
  imports Handlers Diagnostics
begin

text \<open>
  The server as one function from a request to its answer: the routes and the middleware chain of
  \<open>internal/httpapi/router.go\<close> and \<open>middleware.go\<close>. The state is the database, the four rate
  limiters and what the diagnostics endpoints have logged. The chi router is a parameter: \<open>he_mux\<close>
  picks one of the registered patterns for a method and a path and says what its parameters are.
\<close>

record server =
  sv_db :: db
  sv_all :: rate_limiter
  sv_auth :: rate_limiter
  sv_passkey :: rate_limiter
  sv_events :: rate_limiter
  sv_log :: "log_entry list"

definition new_server :: "http_env \<Rightarrow> db \<Rightarrow> server" where
  "new_server env d = \<lparr>sv_db = d, sv_all = new_rate_limiter (he_rate_limit env) minute,
     sv_auth = new_rate_limiter 30 minute, sv_passkey = new_rate_limiter 10 minute,
     sv_events = new_rate_limiter 30 minute, sv_log = []\<rparr>"

definition on_db :: "(db, 'a) tx \<Rightarrow> (server, 'a) tx" where
  "on_db m w s = (case m w (sv_db s) of (r, w', d') \<Rightarrow> (r, w', s\<lparr>sv_db := d'\<rparr>))"

section \<open>Rate limits\<close>

definition forwarded_for :: "'r http_request \<Rightarrow> string" where
  "forwarded_for q = trim_space (hd (split_at (CHR '','') (rq_header q ''X-Forwarded-For'')))"

definition client_host :: "http_env \<Rightarrow> 'r http_request \<Rightarrow> string" where
  "client_host env q =
     (let host = (case split_host (rq_remote q) of None \<Rightarrow> rq_remote q | Some h \<Rightarrow> h)
      in if he_trust_proxy env \<and> parse_ip (forwarded_for q) then forwarded_for q else host)"

definition rate_limited :: "string \<Rightarrow> 'o http_response" where
  "rate_limited request_id = (let r = write_error request_id (as_error (app_new 429 ''rate_limited''
       ''Wait a moment and try again.''))
     in r\<lparr>rs_headers := (''Retry-After'', ''60'') # rs_headers r\<rparr>)"

definition limited ::
  "http_env \<Rightarrow> string \<Rightarrow> (server \<Rightarrow> rate_limiter) \<Rightarrow> (rate_limiter \<Rightarrow> server \<Rightarrow> server) \<Rightarrow>
   'r http_request \<Rightarrow> (server, 'o http_response) tx \<Rightarrow> (server, 'o http_response) tx" where
  "limited env request_id get put q next =
     bind_tx go_now (\<lambda>now w s. case allow (client_host env q) now (get s) of
       (True, l) \<Rightarrow> next w (put l s)
     | (False, l) \<Rightarrow> (Inr (rate_limited request_id), w, put l s))"

section \<open>Who is asking\<close>

text \<open>\<open>strings.EqualFold\<close> with a string of ASCII letters other than K and S.\<close>

definition equal_fold :: "string \<Rightarrow> string \<Rightarrow> bool" where
  "equal_fold a b \<longleftrightarrow> fold_name a = fold_name b"

definition bearer_token :: "'r http_request \<Rightarrow> string option" where
  "bearer_token q = (case cut_at (CHR '' '') (rq_header q ''Authorization'') of
       None \<Rightarrow> None
     | Some (scheme, raw) \<Rightarrow>
         if \<not> equal_fold scheme ''Bearer'' \<or> trim_space raw = [] then None else Some (trim_space raw))"

definition authenticate :: "http_env \<Rightarrow> 'r http_request \<Rightarrow> (db, auth_identity) tx" where
  "authenticate env q = or_refuse ErrUnauthorized (case bearer_token q of
       None \<Rightarrow> raise (as_error ErrUnauthorized)
     | Some raw \<Rightarrow> bind_tx (parse_access (he_auth env) raw) validate_auth_session)"

section \<open>Routes\<close>

type_synonym ('r, 'o) handler = "params \<Rightarrow> 'r http_request \<Rightarrow> (db, 'o http_response) tx"

definition static_page :: "string \<Rightarrow> (db, 'o http_response) tx" where
  "static_page name = ret \<lparr>rs_status = 200, rs_headers = [(''Content-Type'', ''text/html; charset=utf-8''),
     (''Cache-Control'', ''public, max-age=3600''),
     (''Content-Security-Policy'', ''default-src 'none'; style-src 'unsafe-inline'; frame-ancestors 'none'' @ [CHR 0x27])],
     rs_body = APage name\<rparr>"

definition open_routes :: "http_env \<Rightarrow> ((string \<times> string) \<times> ('r, 'o) handler) list" where
  "open_routes env =
    [((''GET'', ''/health/live''), \<lambda>_ _. live),
     ((''GET'', ''/health/ready''), \<lambda>_ _. ready env),
     ((''GET'', ''/.well-known/apple-app-site-association''), \<lambda>_ _. apple_app_site_association env),
     ((''GET'', ''/.well-known/assetlinks.json''), \<lambda>_ _. android_asset_links env),
     ((''GET'', ''/support''), \<lambda>_ _. static_page ''support''),
     ((''GET'', ''/privacy''), \<lambda>_ _. static_page ''privacy''),
     ((''GET'', ''/join/{token}''), \<lambda>param _. pair_invite_landing param),
     ((''GET'', ''/v1/meta''), \<lambda>_ _. meta env)]"

definition auth_routes ::
  "http_env \<Rightarrow> ('c, 's, 'o, 'r) passkeys \<Rightarrow> ((string \<times> string) \<times> ('r, 'o) handler) list" where
  "auth_routes env pk =
    [((''POST'', ''/v1/auth/register/options''), \<lambda>_. register_options env pk),
     ((''POST'', ''/v1/auth/register/finish''), \<lambda>_. register_finish env pk),
     ((''POST'', ''/v1/auth/login/options''), \<lambda>_. login_options env pk),
     ((''POST'', ''/v1/auth/login/finish''), \<lambda>_. login_finish env pk),
     ((''POST'', ''/v1/auth/recover''), \<lambda>_. recover_handler env),
     ((''POST'', ''/v1/auth/refresh''), \<lambda>_. refresh_handler env)]"

text \<open>
  The group behind \<open>authenticate\<close>. \<open>GET /v1/ws\<close> answers here up to the WebSocket upgrade.
\<close>

definition web_socket :: "auth_identity \<Rightarrow> (db, 'o http_response) tx" where
  "web_socket idn = (if id_pair idn = None
     then raise (as_error (app_new 409 ''pair_required'' ''Pair this account before opening a shared connection.''))
     else bind_tx go_now (\<lambda>now. ret \<lparr>rs_status = 101, rs_headers = [], rs_body = AMeta ''connected'' now\<rparr>))"

definition member_routes ::
  "http_env \<Rightarrow> ('c, 's, 'o, 'r) passkeys \<Rightarrow> ((string \<times> string) \<times> (auth_identity \<Rightarrow> ('r, 'o) handler)) list" where
  "member_routes env pk =
    [((''GET'', ''/v1/me''), \<lambda>idn _ _. me idn),
     ((''POST'', ''/v1/auth/logout''), \<lambda>idn _ _. logout idn),
     ((''GET'', ''/v1/auth/passkeys''), \<lambda>idn _ _. passkeys_handler idn),
     ((''POST'', ''/v1/auth/passkeys/options''), \<lambda>idn _. add_passkey_options env pk idn),
     ((''POST'', ''/v1/auth/passkeys/finish''), \<lambda>idn _. add_passkey_finish env pk idn),
     ((''DELETE'', ''/v1/auth/passkeys/{credentialID}''), \<lambda>idn param _. revoke_passkey idn param),
     ((''GET'', ''/v1/auth/sessions''), \<lambda>idn _ _. auth_sessions_handler idn),
     ((''DELETE'', ''/v1/auth/sessions/{sessionID}''), \<lambda>idn param _. revoke_auth_session env idn param),
     ((''GET'', ''/v1/auth/installations''), \<lambda>idn _ _. installations idn),
     ((''DELETE'', ''/v1/auth/installations/{installationID}''), \<lambda>idn param _. revoke_installation_handler env idn param),
     ((''POST'', ''/v1/auth/recovery-codes/regenerate''), \<lambda>idn _. regenerate_handler env idn),
     ((''GET'', ''/v1/pair''), \<lambda>idn _ _. get_pair idn),
     ((''POST'', ''/v1/pair/invites''), \<lambda>idn _. create_invite_handler env idn),
     ((''POST'', ''/v1/pair/accept''), \<lambda>idn _. accept_invite_handler env idn),
     ((''GET'', ''/v1/sessions/current''), \<lambda>idn _ _. current_session_handler idn),
     ((''GET'', ''/v1/sessions''), \<lambda>idn _. session_history_handler env idn),
     ((''POST'', ''/v1/sessions''), \<lambda>idn _. start_session_handler env idn),
     ((''POST'', ''/v1/sessions/{sessionID}/join''), transition_handler env ActionJoin),
     ((''POST'', ''/v1/sessions/{sessionID}/pause''), transition_handler env ActionPause),
     ((''POST'', ''/v1/sessions/{sessionID}/resume''), transition_handler env ActionResume),
     ((''POST'', ''/v1/sessions/{sessionID}/complete''), transition_handler env ActionComplete),
     ((''POST'', ''/v1/sessions/{sessionID}/cancel''), transition_handler env ActionCancel),
     ((''POST'', ''/v1/sessions/{sessionID}/notes''), add_note_handler env),
     ((''POST'', ''/v1/sessions/{sessionID}/cheers''), add_cheer_handler env),
     ((''PUT'', ''/v1/push/device''), \<lambda>idn _. register_push_handler env idn),
     ((''DELETE'', ''/v1/push/device''), \<lambda>idn _ _. revoke_push_handler idn),
     ((''POST'', ''/v1/sync''), \<lambda>idn _. sync_handler idn),
     ((''GET'', ''/v1/ws''), \<lambda>idn _ _. web_socket idn)]"

definition passkey_pattern :: "string \<times> string" where
  "passkey_pattern = (''POST'', ''/v1/diagnostics/passkey'')"

definition events_pattern :: "string \<times> string" where
  "events_pattern = (''POST'', ''/v1/diagnostics/events'')"

definition patterns :: "http_env \<Rightarrow> ('c, 's, 'o, 'r) passkeys \<Rightarrow> (string \<times> string) list" where
  "patterns env pk = map fst (open_routes env :: ((string \<times> string) \<times> ('r, 'o) handler) list) @
     [passkey_pattern, events_pattern] @ map fst (auth_routes env pk) @ map fst (member_routes env pk)"

section \<open>One request\<close>

definition diagnosed :: "string \<Rightarrow> diagnosis \<Rightarrow> (server, 'o http_response) tx" where
  "diagnosed request_id result w s = (case result of (logs, r) \<Rightarrow>
     (Inr (case r of Inl e \<Rightarrow> write_error request_id e
         | Inr _ \<Rightarrow> write_json [] 202 (ADiagnostic request_id)), w, s\<lparr>sv_log := sv_log s @ logs\<rparr>))"

definition member_request ::
  "http_env \<Rightarrow> string \<Rightarrow> (auth_identity \<Rightarrow> ('r, 'o) handler) \<Rightarrow> ('r, 'o) handler" where
  "member_request env request_id handler param q = answered request_id
     (bind_tx (authenticate env q) (\<lambda>idn. handler idn param q))"

definition dispatch ::
  "http_env \<Rightarrow> ('c, 's, 'o, 'r) passkeys \<Rightarrow> string \<Rightarrow> (go_error + app_report) \<Rightarrow> string \<times> string \<Rightarrow> params \<Rightarrow>
   'r http_request \<Rightarrow> (server, 'o http_response) tx" where
  "dispatch env pk request_id report pattern param q =
     (if pattern = passkey_pattern then
        limited env request_id sv_passkey (\<lambda>l s. s\<lparr>sv_passkey := l\<rparr>) q
          (diagnosed request_id (passkey_diagnostic (he_auth env) request_id q))
      else if pattern = events_pattern then
        limited env request_id sv_events (\<lambda>l s. s\<lparr>sv_events := l\<rparr>) q
          (diagnosed request_id (app_diagnostics request_id report q))
      else case map_of (open_routes env) pattern of
        Some handler \<Rightarrow> on_db (answered request_id (handler param q))
      | None \<Rightarrow> (case map_of (auth_routes env pk) pattern of
          Some handler \<Rightarrow> limited env request_id sv_auth (\<lambda>l s. s\<lparr>sv_auth := l\<rparr>) q
            (on_db (answered request_id (handler param q)))
        | None \<Rightarrow> (case map_of (member_routes env pk) pattern of
            Some handler \<Rightarrow> on_db (member_request env request_id handler param q)
          | None \<Rightarrow> ret not_found_page)))"

definition secure_headers :: "'r http_request \<Rightarrow> (string \<times> string) list" where
  "secure_headers q = [(''Cache-Control'', ''no-store''),
     (''Content-Security-Policy'', ''default-src 'none'; frame-ancestors 'none'' @ [CHR 0x27]),
     (''Permissions-Policy'', ''camera=(), microphone=(), geolocation=()''),
     (''Referrer-Policy'', ''no-referrer''), (''X-Content-Type-Options'', ''nosniff''),
     (''X-Frame-Options'', ''DENY'')] @
     (if rq_tls q then [(''Strict-Transport-Security'', ''max-age=63072000; includeSubDomains'')] else [])"

text \<open>A header that the handler has set replaces the one set before it.\<close>

definition with_headers :: "(string \<times> string) list \<Rightarrow> 'o http_response \<Rightarrow> 'o http_response" where
  "with_headers hs r = r\<lparr>rs_headers := filter (\<lambda>h. fst h \<notin> fst ` set (rs_headers r)) hs @ rs_headers r\<rparr>"

definition serve ::
  "http_env \<Rightarrow> ('c, 's, 'o, 'r) passkeys \<Rightarrow> (go_error + app_report) \<Rightarrow> 'r http_request \<Rightarrow>
   (server, 'o http_response) tx" where
  "serve env pk report q =
     bind_tx (attempt (random_bytes (he_auth env) 16)) (\<lambda>r. case r of
       Inl e \<Rightarrow> ret (write_error [] e)
     | Inr random \<Rightarrow> (let request_id = hex_encode random in
         bind_tx (limited env request_id sv_all (\<lambda>l s. s\<lparr>sv_all := l\<rparr>) q
           (case he_mux env (patterns env pk) (rq_method q) (rq_path q) of
              None \<Rightarrow> ret not_found_page
            | Some (pattern, param) \<Rightarrow> dispatch env pk request_id report pattern param q)) (\<lambda>response.
         ret (with_headers ((''X-Request-ID'', request_id) # secure_headers q) response))))"

text \<open>\<open>diagnosticRequestPath\<close>: a path as it is logged.\<close>

definition diagnostic_request_path :: "string \<Rightarrow> string" where
  "diagnostic_request_path path =
     (case List.find (\<lambda>p. take (length p) path = p) [''/join/'', ''/live/'', ''/complete/''] of
        None \<Rightarrow> path
      | Some p \<Rightarrow> p @ '':id'')"

end
