(* ===== verification/HttpProperties.thy ===== *)
theory HttpProperties
  imports Router SignInScenario
begin

text \<open>Requests from the outside: who gets to a handler, and what the ones turned away leave behind.\<close>

section \<open>Runs of the middleware\<close>

lemma serve_run:
  assumes "serve env pk report q w s = (Inr r, w', s')"
    and "he_mux env (patterns env pk) (rq_method q) (rq_path q) = Some (pattern, param)"
  obtains (broken) e where "ae_random (he_auth env) (w_step w) 16 = Inl e" and "s' = s"
  | (served) random response where "limited env (hex_encode random) sv_all (\<lambda>l s. s\<lparr>sv_all := l\<rparr>) q
        (dispatch env pk (hex_encode random) report pattern param q) (tick w) s = (Inr response, w', s')"
      and "r = with_headers ((''X-Request-ID'', hex_encode random) # secure_headers q) response"
proof (cases "ae_random (he_auth env) (w_step w) 16")
  case (Inl e)
  then have "s' = s"
    using assms(1) by (auto simp: serve_def attempt_def random_bytes_def ask_def bind_tx_def observe_def raise_def ret_def)
  with Inl show thesis by (rule broken)
next
  case (Inr random)
  have "attempt (random_bytes (he_auth env) 16) w s = (Inr (Inr random), tick w, s)"
    by (simp add: attempt_def random_bytes_def ask_def bind_tx_def observe_def ret_def Inr)
  then show thesis
    using assms served [of random] unfolding serve_def
    by (auto simp: run_bind Let_def run_ret)
qed

lemma limited_run:
  assumes "limited env request_id get put q next w s = (Inr r, w', s')"
  obtains (refused) l where "r = rate_limited request_id" and "s' = put l s" and "w' = tick w"
  | (passed) l where "next (tick w) (put l s) = (Inr r, w', s')"
  using assms unfolding limited_def
  by (auto simp: bind_tx_def go_now_def split: prod.splits bool.splits)

lemma status_rate_limited: "rs_status (rate_limited request_id) = 429"
  by (simp add: rate_limited_def write_error_def write_json_def Let_def map_error_def map_error_rest_def
      errors_is_def app_new_def as_error_def app_as_def)

lemma status_unauthorized: "rs_status (write_error request_id (as_error ErrUnauthorized)) = 401"
  by (simp add: write_error_def write_json_def Let_def map_error_def map_error_rest_def ErrUnauthorized_def
      errors_is_def app_new_def as_error_def app_as_def)

lemma pattern_lists:
  "map fst (open_routes env) = [(''GET'', ''/health/live''), (''GET'', ''/health/ready''),
     (''GET'', ''/.well-known/apple-app-site-association''), (''GET'', ''/.well-known/assetlinks.json''),
     (''GET'', ''/support''), (''GET'', ''/privacy''), (''GET'', ''/join/{token}''), (''GET'', ''/v1/meta'')]"
  "map fst (auth_routes env pk) = [(''POST'', ''/v1/auth/register/options''),
     (''POST'', ''/v1/auth/register/finish''), (''POST'', ''/v1/auth/login/options''),
     (''POST'', ''/v1/auth/login/finish''), (''POST'', ''/v1/auth/recover''), (''POST'', ''/v1/auth/refresh'')]"
  by (simp_all only: open_routes_def auth_routes_def list.map fst_conv)

lemma member_patterns_listed:
  "list_all (\<lambda>p. p \<noteq> passkey_pattern \<and> p \<noteq> events_pattern \<and> p \<notin> set (map fst (open_routes env)) \<and>
     p \<notin> set (map fst (auth_routes env' pk'))) (map fst (member_routes env'' pk))"
  unfolding pattern_lists member_routes_def list.map fst_conv passkey_pattern_def events_pattern_def
  by (simp only: list.pred_inject) (intro conjI; simp)

lemma member_patterns_apart:
  assumes "pattern \<in> fst ` set (member_routes env pk)"
  shows "pattern \<noteq> passkey_pattern" and "pattern \<noteq> events_pattern"
    and "map_of (open_routes env') pattern = None" and "map_of (auth_routes env' pk') pattern = None"
  using assms member_patterns_listed [of env' env' pk' env pk]
  by (auto simp: list_all_iff map_of_eq_None_iff)

section \<open>The group behind the access token\<close>

lemma validate_reads:
  assumes "validate_auth_session claimed w d = (x, w', d')"
  shows "d' = d"
  using assms unfolding validate_auth_session_def query_row_def
  by (auto simp: bind_tx_def ret_def raise_def dest!: sql_unchanged split: prod.splits sum.splits option.splits)

lemma parse_access_reads: "parse_access env raw w d = (x, w', d') \<Longrightarrow> d' = d"
  by (auto simp: parse_access_def bind_tx_def go_now_def raise_def ret_def split: sum.splits)

lemma or_refuse_result:
  "or_refuse e m w d = (case m w d of (x, w', d') \<Rightarrow> (map_sum (\<lambda>_. as_error e) id x, w', d'))"
  by (simp add: or_refuse_def attempt_def bind_tx_def raise_def ret_def split: prod.splits sum.splits)

text \<open>A check that succeeds names the token it accepted; one that fails answers 401.\<close>

definition signed_in :: "http_env \<Rightarrow> 'r http_request \<Rightarrow> db \<Rightarrow> auth_identity \<Rightarrow> bool" where
  "signed_in env q d idn \<longleftrightarrow> (\<exists>raw claimed w1 w2 w3. bearer_token q = Some raw \<and>
     parse_access (he_auth env) raw w1 d = (Inr claimed, w2, d) \<and>
     validate_auth_session claimed w2 d = (Inr idn, w3, d))"

lemma authenticate_run:
  assumes "authenticate env q w d = (x, w', d')"
  obtains (accepted) idn where "x = Inr idn" and "d' = d" and "signed_in env q d idn"
  | (rejected) "x = Inl (as_error ErrUnauthorized)" and "d' = d"
proof (cases "bearer_token q")
  case None
  then show thesis using assms rejected
    by (auto simp: authenticate_def or_refuse_def attempt_def bind_tx_def raise_def)
next
  case (Some raw)
  let ?m = "bind_tx (parse_access (he_auth env) raw) validate_auth_session"
  obtain y w1 d1 where m: "?m w d = (y, w1, d1)" by (cases "?m w d" rule: prod_cases3)
  have d1: "d1 = d"
    using m unfolding bind_tx_def by (auto dest: parse_access_reads validate_reads split: prod.splits sum.splits)
  have x: "x = map_sum (\<lambda>_. as_error ErrUnauthorized) id y" "d' = d"
    using assms m d1 by (auto simp: authenticate_def or_refuse_result Some)
  show thesis
  proof (cases y)
    case (Inl e)
    then show thesis using x rejected by simp
  next
    case (Inr idn)
    with m obtain claimed w2 d2 where p: "parse_access (he_auth env) raw w d = (Inr claimed, w2, d2)"
      and v: "validate_auth_session claimed w2 d2 = (Inr idn, w1, d1)" by (auto simp: run_bind)
    have "signed_in env q d idn"
      using p v parse_access_reads [OF p] d1 Some unfolding signed_in_def by blast
    then show thesis using x Inr accepted by simp
  qed
qed

lemma member_run:
  assumes "member_request env request_id handler param q w d = (Inr r, w', d')"
  obtains (rejected) "rs_status r = 401" and "d' = d"
  | (accepted) idn w1 x where "signed_in env q d idn" and "handler idn param q w1 d = (x, w', d')"
proof -
  obtain x w1 d1 where a: "authenticate env q w d = (x, w1, d1)" by (cases "authenticate env q w d" rule: prod_cases3)
  then show thesis
  proof (cases rule: authenticate_run)
    case (accepted idn)
    obtain y w2 d2 where h: "handler idn param q w1 d = (y, w2, d2)"
      by (cases "handler idn param q w1 d" rule: prod_cases3)
    have "w' = w2 \<and> d' = d2" using assms a h accepted
      by (cases y) (auto simp: member_request_def answered_def attempt_def bind_tx_def ret_def)
    with h accepted that(2) show thesis by blast
  next
    case rejected
    then have "r = write_error request_id (as_error ErrUnauthorized) \<and> d' = d"
      using assms a by (auto simp: member_request_def answered_def attempt_def bind_tx_def ret_def)
    then show thesis using status_unauthorized that(1) by blast
  qed
qed

text \<open>
  C38. Nothing behind the access token happens without one: a request that matches a route of the
  signed-in group either leaves the database as it was, answered 401 or 429 or with the failure of
  the random source, or it carries a token that parses and names a live session, and all that it
  does to the database is done by the handler of its route for the account of that session.
\<close>

theorem members_only:
  assumes "serve env pk report q w s = (Inr r, w', s')"
    and "he_mux env (patterns env pk) (rq_method q) (rq_path q) = Some (pattern, param)"
    and "map_of (member_routes env pk) pattern = Some handler"
  shows "(sv_db s' = sv_db s \<and>
      (rs_status r \<in> {401, 429} \<or> (\<exists>e. ae_random (he_auth env) (w_step w) 16 = Inl e))) \<or>
    (\<exists>idn w1 w2 x. signed_in env q (sv_db s) idn \<and> handler idn param q w1 (sv_db s) = (x, w2, sv_db s'))"
proof -
  have "pattern \<in> fst ` set (member_routes env pk)" using assms(3) by (force dest: map_of_SomeD)
  note apart = member_patterns_apart [OF this]
  from assms(1,2) show ?thesis
  proof (cases rule: serve_run)
    case (served random response)
    let ?id = "hex_encode random"
    have status: "rs_status r = rs_status response" using served(2) by (simp add: with_headers_def)
    from served(1) show ?thesis
    proof (cases rule: limited_run)
      case (refused l)
      then show ?thesis using status by (simp add: status_rate_limited)
    next
      case (passed l)
      then obtain d' where m: "member_request env ?id handler param q (tick (tick w)) (sv_db s) = (Inr response, w', d')"
        and s': "sv_db s' = d'"
        by (auto simp: dispatch_def apart assms(3) on_db_def split: prod.splits)
      from m show ?thesis by (cases rule: member_run) (use status s' in auto)
    qed
  qed simp
qed

text \<open>Cy's phone takes back its registration for notifications.\<close>

definition demo_http :: http_env where
  "demo_http = \<lparr>he_auth = demo_env\<lparr>ae_jwt_parse := (\<lambda>_ _ _ _ _. Inr \<lparr>cl_session = ''71'', cl_installation = ''61'',
       cl_issuer = [], cl_subject = ''9'', cl_audience = [], cl_expires = 0, cl_not_before = 0, cl_issued = 0,
       cl_id = []\<rparr>)\<rparr>,
     he_invite_ttl = hour, he_base_url = ''https://along'', he_topic = ''along'', he_git_commit = [], he_team_id = [], he_fingerprints = [],
     he_trust_proxy = False, he_rate_limit = 120, he_gcm = \<lparr>ad_nonce_size = 12, ad_seal = (\<lambda>_ b. b), ad_open = (\<lambda>_ b. Inr b)\<rparr>, he_lower = id,
     he_parse_time = (\<lambda>_. None), he_ping = (\<lambda>_. None), he_mux = (\<lambda>_ method path. Some ((method, path), \<lambda>_. []))\<rparr>"

definition demo_request :: "bytes http_request" where
  "demo_request = \<lparr>rq_method = ''DELETE'', rq_path = ''/v1/push/device'',
     rq_header = (\<lambda>name. if name = ''Authorization'' then ''Bearer t'' else []), rq_query = (\<lambda>_. []),
     rq_remote = ''10.0.0.1:80'', rq_tls = True, rq_media = None, rq_body = Inr (JNull, True),
     rq_sync = Inl NoRows, rq_passkey = []\<rparr>"

lemma demo_authenticated:
  "\<exists>idn. bind_tx (parse_access (he_auth demo_http) ''t'') validate_auth_session (demo_world\<lparr>w_step := 14\<rparr>) demo_tables =
    (Inr idn, demo_world\<lparr>w_step := 16\<rparr>, demo_tables)"
proof (rule demo_run)
  show "advances (bind_tx (parse_access (he_auth demo_http) ''t'') validate_auth_session)"
    unfolding parse_access_def validate_auth_session_def by (intro adv_intros)
  show "case bind_tx (parse_access (he_auth demo_http) ''t'') validate_auth_session (demo_world\<lparr>w_step := 14\<rparr>) demo_tables of
      (Inr x, w, e) \<Rightarrow> True \<and> e = demo_tables \<and> w_step w = 16 \<and> w_seq w = 0 | (Inl _, _) \<Rightarrow> False"
    by code_simp
qed blast

lemma demo_bearer: "bearer_token demo_request = Some ''t''"
  by (simp add: bearer_token_def demo_request_def equal_fold_def fold_name_def runes_of_ascii trim_ascii
      ascii_space_def is_space_def byte_of_def between_def del: runes.simps)

lemma demo_route:
  "map_of (member_routes env pk) (''DELETE'', ''/v1/push/device'') = Some (\<lambda>idn _ _. revoke_push_handler idn)"
  by (simp add: member_routes_def)

lemma demo_member_request:
  "\<exists>(r :: unit http_response) w d. member_request demo_http request_id (\<lambda>idn _ _. revoke_push_handler idn) param demo_request
     (demo_world\<lparr>w_step := 14\<rparr>) demo_tables = (Inr r, w, d) \<and> rs_status r = 204"
proof -
  obtain idn where a: "bind_tx (parse_access (he_auth demo_http) ''t'') validate_auth_session (demo_world\<lparr>w_step := 14\<rparr>) demo_tables =
      (Inr idn, demo_world\<lparr>w_step := 16\<rparr>, demo_tables)" using demo_authenticated by blast
  have auth: "authenticate demo_http demo_request (demo_world\<lparr>w_step := 14\<rparr>) demo_tables =
      (Inr idn, demo_world\<lparr>w_step := 16\<rparr>, demo_tables)"
    by (simp add: authenticate_def demo_bearer or_refuse_result a)
  have h: "\<exists>w d. revoke_push_handler idn (demo_world\<lparr>w_step := 16\<rparr>) demo_tables =
      (Inr (write_json [] 204 ANothing) :: go_error + unit http_response, w, d)"
    by (simp add: revoke_push_handler_def revoke_push_device_def tx_simps ok_json_def demo_world_def)
  then obtain w d where h: "revoke_push_handler idn (demo_world\<lparr>w_step := 16\<rparr>) demo_tables =
      (Inr (write_json [] 204 ANothing) :: go_error + unit http_response, w, d)" by blast
  show ?thesis
    by (simp add: member_request_def answered_def attempt_def bind_tx_def auth h ret_def write_json_def)
qed

lemma demo_served:
  "\<exists>r w s. serve demo_http demo_passkeys report demo_request (demo_world\<lparr>w_step := 12\<rparr>)
     (new_server demo_http demo_tables) = (Inr r, w, s) \<and> rs_status r = 204"
proof -
  let ?s = "new_server demo_http demo_tables"
  let ?pattern = "(''DELETE'', ''/v1/push/device'')"
  have "?pattern \<in> fst ` set (member_routes env pk)" for env :: http_env and pk :: "('c, 's, 'o, 'r) passkeys"
    using map_of_SomeD [OF demo_route [of env pk]] by force
  note apart = member_patterns_apart [OF this]
  have random: "random_bytes (he_auth demo_http) 16 (demo_world\<lparr>w_step := 12\<rparr>) ?s =
      (Inr (replicate 16 (CHR ''x'')), demo_world\<lparr>w_step := 13\<rparr>, ?s)"
    by (simp add: random_bytes_def ask_def bind_tx_def observe_def ret_def demo_http_def demo_env_def tick_def)
  have "fst (allow key now (sv_all ?s))" for key now
    by (simp add: allow_def new_server_def new_rate_limiter_def bucket_of_def zero_bucket_def count_call_def demo_http_def)
  then obtain l where ok: "allow (client_host demo_http demo_request) (w_now demo_world 13) (sv_all ?s) = (True, l)"
    by (metis prod.collapse)
  obtain r :: "unit http_response" and w d where m: "member_request demo_http (hex_encode (replicate 16 (CHR ''x''))) (\<lambda>idn _ _. revoke_push_handler idn)
      (\<lambda>_. []) demo_request (demo_world\<lparr>w_step := 14\<rparr>) demo_tables = (Inr r, w, d)" and r: "rs_status r = 204"
    using demo_member_request by blast
  have mux: "he_mux demo_http ps (rq_method demo_request) (rq_path demo_request) = Some (?pattern, \<lambda>_. [])" for ps
    by (simp add: demo_http_def demo_request_def)
  have go: "dispatch demo_http demo_passkeys (hex_encode (replicate 16 (CHR ''x''))) report ?pattern (\<lambda>_. []) demo_request
      (demo_world\<lparr>w_step := 14\<rparr>) (?s\<lparr>sv_all := l\<rparr>) = (Inr r, w, ?s\<lparr>sv_all := l, sv_db := d\<rparr>)"
    using m unfolding dispatch_def apart(3,4) if_not_P [OF apart(1)] if_not_P [OF apart(2)] demo_route
    by (simp add: on_db_def new_server_def)
  have "limited demo_http (hex_encode (replicate 16 (CHR ''x''))) sv_all (\<lambda>l s. s\<lparr>sv_all := l\<rparr>) demo_request
      (dispatch demo_http demo_passkeys (hex_encode (replicate 16 (CHR ''x''))) report ?pattern (\<lambda>_. []) demo_request)
      (demo_world\<lparr>w_step := 13\<rparr>) ?s = (Inr r, w, ?s\<lparr>sv_all := l, sv_db := d\<rparr>)"
    by (simp add: limited_def bind_tx_def go_now_def ok go tick_def)
  then show ?thesis using r
    by (simp add: serve_def bind_tx_def attempt_def random mux Let_def ret_def with_headers_def)
qed

lemma members_only_witness:
  "\<exists>report r w s idn. serve demo_http demo_passkeys report demo_request (demo_world\<lparr>w_step := 12\<rparr>)
     (new_server demo_http demo_tables) = (Inr r, w, s) \<and> rs_status r = 204 \<and> signed_in demo_http demo_request demo_tables idn"
proof -
  fix report :: "go_error + app_report"
  obtain r w s where r: "serve demo_http demo_passkeys report demo_request (demo_world\<lparr>w_step := 12\<rparr>)
     (new_server demo_http demo_tables) = (Inr r, w, s)" "rs_status r = 204" using demo_served by blast
  have mux: "he_mux demo_http (patterns demo_http demo_passkeys) (rq_method demo_request) (rq_path demo_request) =
      Some ((''DELETE'', ''/v1/push/device''), \<lambda>_. [])"
    by (simp add: demo_http_def demo_request_def)
  have random: "ae_random (he_auth demo_http) n k = Inr (replicate k (CHR ''x''))" for n k
    by (simp add: demo_http_def demo_env_def)
  from members_only [OF r(1) mux demo_route] r(2) have "\<exists>idn. signed_in demo_http demo_request demo_tables idn"
    by (auto simp: random new_server_def)
  with r show ?thesis by blast
qed

end
