(* ===== verification/Serving.thy ===== *)
theory Serving
  imports HttpProperties
begin

text \<open>
  The server as a whole refines the store: whatever requests it answers, the database moves by
  operations of the store only, each where its precondition holds, so everything that is proved of
  the reachable moments holds behind the HTTP API.
\<close>

section \<open>Programs that move by operations of the store\<close>

definition moves :: "(db \<Rightarrow> bool) \<Rightarrow> (db, 'a) tx \<Rightarrow> bool" where
  "moves P m \<longleftrightarrow> (\<forall>w d r w' d'. sane (w, d) \<longrightarrow> P d \<longrightarrow> m w d = (r, w', d') \<longrightarrow> along\<^sup>*\<^sup>* (w, d) (w', d'))"

abbreviation runs :: "(db, 'a) tx \<Rightarrow> bool" where
  "runs m \<equiv> moves (\<lambda>_. True) m"

definition only_reads :: "('d, 'a) tx \<Rightarrow> bool" where
  "only_reads m \<longleftrightarrow> (\<forall>w d. advance w (fst (snd (m w d))) \<and> snd (snd (m w d)) = d)"

named_theorems read_intros \<open>programs that change nothing\<close>
named_theorems run_intros \<open>programs that move by operations of the store\<close>

lemma movesI:
  "(\<And>w d r w' d'. sane (w, d) \<Longrightarrow> P d \<Longrightarrow> m w d = (r, w', d') \<Longrightarrow> along\<^sup>*\<^sup>* (w, d) (w', d')) \<Longrightarrow> moves P m"
  by (simp add: moves_def)

lemma movesD: "moves P m \<Longrightarrow> sane (w, d) \<Longrightarrow> P d \<Longrightarrow> m w d = (r, w', d') \<Longrightarrow> along\<^sup>*\<^sup>* (w, d) (w', d')"
  by (auto simp: moves_def)

lemma runs_moves: "runs m \<Longrightarrow> moves P m"
  by (auto simp: moves_def)

lemma only_readsD: "only_reads m \<Longrightarrow> m w d = (r, w', d') \<Longrightarrow> d' = d \<and> advance w w'"
  by (auto simp: only_reads_def) (metis fst_conv snd_conv)+

lemma only_readsI: "(\<And>w d r w' d'. m w d = (r, w', d') \<Longrightarrow> d' = d) \<Longrightarrow> advances m \<Longrightarrow> only_reads m"
  by (auto simp: only_reads_def advances_def) (metis prod.collapse)

lemma along_sane: "along\<^sup>*\<^sup>* (w, d) (w', d') \<Longrightarrow> sane (w, d) \<Longrightarrow> sane (w', d')"
  using along_run_sane by blast

lemma along_wait: "advance w w' \<Longrightarrow> along\<^sup>*\<^sup>* (w, d) (w', d)"
  using along.request [OF requested.shared [OF served.wait [of "(w, d)" w']]] by auto

lemma along_served: "served\<^sup>*\<^sup>* s t \<Longrightarrow> along\<^sup>*\<^sup>* s t"
  by (erule mono_rtranclp [rule_format, rotated]) (blast intro: along.request requested.shared)

lemma moves_op: "(\<And>s. along s (after_op m s)) \<Longrightarrow> moves P m"
  unfolding moves_def after_op_def by (metis fst_conv snd_conv r_into_rtranclp)

lemma moves_read: "only_reads m \<Longrightarrow> moves P m"
  by (intro movesI) (auto dest!: only_readsD intro: along_wait)

section \<open>Reading\<close>

lemma reads_basic [read_intros]:
  "only_reads (ret v)" "only_reads (raise e)" "only_reads go_now" "only_reads new_uuid"
  "only_reads (observe f)" "only_reads (select q)"
  by (auto simp: only_reads_def ret_def raise_def go_now_def new_uuid_def observe_def select_def sql_def
      split: option.split)

lemma reads_bind [read_intros]:
  assumes "only_reads m" and "\<And>v. only_reads (f v)"
  shows "only_reads (bind_tx m f)"
proof (rule only_readsI)
  show "advances (bind_tx m f)"
    using assms by (intro adv_intros) (simp_all add: only_reads_def advances_def)
  fix w d r w' d' assume "bind_tx m f w d = (r, w', d')"
  then show "d' = d" unfolding bind_tx_def
    by (auto dest: only_readsD [OF assms(1)] only_readsD [OF assms(2)] split: prod.splits sum.splits)
qed

lemma reads_attempt [read_intros]: "only_reads m \<Longrightarrow> only_reads (attempt m)"
  by (simp add: only_reads_def attempt_def split: prod.split) (metis fst_conv snd_conv)

lemma reads_wrap [read_intros]: "only_reads m \<Longrightarrow> only_reads (wrap_error msg m)"
  by (simp add: only_reads_def wrap_error_def split: prod.split sum.split) (metis fst_conv snd_conv)

lemma reads_cases [read_intros]:
  "only_reads m \<Longrightarrow> only_reads n \<Longrightarrow> only_reads (if b then m else n)"
  "only_reads m \<Longrightarrow> (\<And>v. only_reads (f v)) \<Longrightarrow> only_reads (case x of None \<Rightarrow> m | Some v \<Rightarrow> f v)"
  "(\<And>e. only_reads (g e)) \<Longrightarrow> (\<And>v. only_reads (f v)) \<Longrightarrow> only_reads (case y of Inl e \<Rightarrow> g e | Inr v \<Rightarrow> f v)"
  "(\<And>a b. only_reads (h a b)) \<Longrightarrow> only_reads (case p of (a, b) \<Rightarrow> h a b)"
  "(\<And>v. only_reads (f v)) \<Longrightarrow> only_reads (let v = t in f v)"
  by (simp_all split: option.split sum.split prod.split)

lemma reads_map_each [read_intros]: "(\<And>x. only_reads (f x)) \<Longrightarrow> only_reads (map_each xs f)"
  by (induction xs) (auto intro!: read_intros)

lemma reads_results [read_intros]:
  "only_reads (of_result r)" "only_reads (ask f)" "only_reads (random_bytes env n)" "only_reads (query_row err q)"
  unfolding of_result_def ask_def random_bytes_def query_row_def by (intro read_intros)+

lemma reads_refuse [read_intros]:
  "only_reads m \<Longrightarrow> only_reads (or_refuse e m)" "only_reads m \<Longrightarrow> only_reads (refuse_unless b e m)"
  unfolding or_refuse_def refuse_unless_def by (intro read_intros; assumption)+

lemma reads_store [read_intros]:
  "only_reads (get_account a)" "only_reads (get_webauthn_account_by_id a)"
  "only_reads (get_webauthn_account_by_handle b)" "only_reads (list_credentials a)"
  "only_reads (list_sessions a i)" "only_reads (list_installations a)" "only_reads (recovery_codes_of h)"
  "only_reads (validate_auth_session c)"
  unfolding get_account_def get_webauthn_account_by_id_def get_webauthn_account_by_handle_def
    get_webauthn_account_def list_credentials_def list_sessions_def list_installations_def
    recovery_codes_of_def validate_auth_session_def
  by (intro read_intros)+

lemma reads_shared [read_intros]:
  "only_reads (pair a)" "only_reads (pair_events idn c l)" "only_reads (session_history idn b l)"
  by (rule only_readsI, erule pair_unchanged pair_events_unchanged session_history_unchanged,
      rule advances_reads)+

lemma reads_service [read_intros]:
  "only_reads (issue_token env idn)" "only_reads (parse_access env raw)" "only_reads (new_opaque_token env)"
  "only_reads (new_grant env device)" "only_reads (new_recovery_kit env)"
  "only_reads (auth_result_of env idn raw kit)" "only_reads (recovery_handle env)"
  "only_reads (finish_passkey pk msg user data request)" "only_reads (verify_login pk session request)"
  unfolding issue_token_def parse_access_def new_opaque_token_def new_grant_def new_recovery_kit_def
    generate_recovery_codes_def hash_recovery_code_def auth_result_of_def recovery_handle_def
    finish_passkey_def verify_login_def user_of_response_def Let_def
  by (intro read_intros)+

section \<open>Composing\<close>

lemma moves_bind:
  assumes "moves P m" and "\<And>v. runs (f v)"
  shows "moves P (bind_tx m f)"
proof (rule movesI)
  fix w d r w' d' assume s: "sane (w, d)" "P d" and run: "bind_tx m f w d = (r, w', d')"
  obtain x w1 d1 where m: "m w d = (x, w1, d1)" by (cases "m w d" rule: prod_cases3)
  note first = movesD [OF assms(1) s m]
  show "along\<^sup>*\<^sup>* (w, d) (w', d')"
  proof (cases x)
    case (Inl e)
    then show ?thesis using first run m by (simp add: bind_tx_def)
  next
    case (Inr v)
    then have "f v w1 d1 = (r, w', d')" using run m by (simp add: bind_tx_def)
    then have "along\<^sup>*\<^sup>* (w1, d1) (w', d')"
      by (rule movesD [OF assms(2) along_sane [OF first s(1)] TrueI])
    with first show ?thesis by (rule rtranclp_trans)
  qed
qed

lemma moves_bind_read:
  assumes "only_reads m" and "\<And>v. moves P (f v)"
  shows "moves P (bind_tx m f)"
proof (rule movesI)
  fix w d r w' d' assume s: "sane (w, d)" "P d" and run: "bind_tx m f w d = (r, w', d')"
  obtain x w1 d1 where m: "m w d = (x, w1, d1)" by (cases "m w d" rule: prod_cases3)
  have d1: "d1 = d" and first: "along\<^sup>*\<^sup>* (w, d) (w1, d)"
    using only_readsD [OF assms(1) m] by (auto intro: along_wait)
  show "along\<^sup>*\<^sup>* (w, d) (w', d')"
  proof (cases x)
    case (Inl e)
    then show ?thesis using first run m d1 by (simp add: bind_tx_def)
  next
    case (Inr v)
    then have "f v w1 d = (r, w', d')" using run m d1 by (simp add: bind_tx_def)
    then have "along\<^sup>*\<^sup>* (w1, d) (w', d')"
      by (rule movesD [OF assms(2) along_sane [OF first s(1)] s(2)])
    with first show ?thesis by (rule rtranclp_trans)
  qed
qed

lemma moves_attempt [run_intros]: "moves P m \<Longrightarrow> moves P (attempt m)"
  unfolding moves_def attempt_def by (auto split: prod.splits)

lemma moves_wrap [run_intros]: "moves P m \<Longrightarrow> moves P (wrap_error msg m)"
  unfolding moves_def wrap_error_def by (auto split: prod.splits sum.splits)

lemma moves_cases [run_intros]:
  "moves P m \<Longrightarrow> moves P n \<Longrightarrow> moves P (if b then m else n)"
  "moves P m \<Longrightarrow> (\<And>v. moves P (f v)) \<Longrightarrow> moves P (case x of None \<Rightarrow> m | Some v \<Rightarrow> f v)"
  "(\<And>e. moves P (g e)) \<Longrightarrow> (\<And>v. moves P (f v)) \<Longrightarrow> moves P (case y of Inl e \<Rightarrow> g e | Inr v \<Rightarrow> f v)"
  "(\<And>a b. moves P (h a b)) \<Longrightarrow> moves P (case p of (a, b) \<Rightarrow> h a b)"
  "(\<And>v. moves P (f v)) \<Longrightarrow> moves P (let v = t in f v)"
  by (simp_all split: option.split sum.split prod.split)

lemma moves_refuse [run_intros]:
  "moves P m \<Longrightarrow> moves P (or_refuse e m)" "moves P m \<Longrightarrow> moves P (refuse_unless b e m)"
proof -
  assume m: "moves P m"
  show "moves P (or_refuse e m)"
    unfolding or_refuse_def by (intro moves_bind moves_attempt m moves_read read_intros)
  show "moves P (refuse_unless b e m)"
    unfolding refuse_unless_def by (simp add: m moves_read read_intros)
qed

lemma moves_shared [run_intros]:
  "moves P (create_pair_invite a i h e)" "moves P (accept_pair_invite a h)"
  "moves P (start_session idn key i)" "moves P (join_session idn i key v)"
  "moves P (transition_session idn i key v act)" "moves P (add_cheer idn i key)"
  "moves P (current_session idn)"
  by (rule moves_op, rule along.request, rule requested.shared, (rule served.intros))+

lemma moves_sign_in [run_intros]:
  "moves P (create_challenge i ao p sd e)" "moves P (consume_challenge i p)"
  "moves P (activate_account a c j l hs g)" "moves P (create_login_session a c j g)"
  "moves P (add_credential a c j l)" "moves P (use_recovery_code a n g)"
  "moves P (replace_recovery_codes a hs)" "moves P (rotate_refresh i h n nh ne)"
  "moves P (revoke_credential a c)" "moves P (revoke_session a i re)" "moves P (revoke_installation a i)"
  "moves P (register_push_device hash a i t c env tp)" "moves P (revoke_push_device a i)"
  by (rule moves_op, rule along.request, (rule requested.intros(3-)))+

lemmas run_rules = moves_bind run_intros reads_basic [THEN moves_read] reads_results [THEN moves_read]
  reads_store [THEN moves_read] reads_shared [THEN moves_read] reads_service [THEN moves_read]

section \<open>The sign-in service\<close>

text \<open>A registration that fails takes back the account it has just made, which nobody refers to yet.\<close>

definition keeps :: "(db \<Rightarrow> bool) \<Rightarrow> (db, 'a) tx \<Rightarrow> bool" where
  "keeps P m \<longleftrightarrow> (\<forall>w d r w' d'. P d \<longrightarrow> m w d = (r, w', d') \<longrightarrow> P d')"

lemma keepsD: "keeps P m \<Longrightarrow> P d \<Longrightarrow> m w d = (r, w', d') \<Longrightarrow> P d'"
  by (auto simp: keeps_def)

lemma keeps_read: "only_reads m \<Longrightarrow> keeps P m"
  by (auto simp: keeps_def dest: only_readsD)

lemma keeps_bind:
  assumes "keeps P m" and "\<And>v. keeps P (f v)"
  shows "keeps P (bind_tx m f)"
  unfolding keeps_def
proof (intro allI impI)
  fix w d r w' d' assume p: "P d" and run: "bind_tx m f w d = (r, w', d')"
  obtain x w1 d1 where m: "m w d = (x, w1, d1)" by (cases "m w d" rule: prod_cases3)
  show "P d'"
    using run m keepsD [OF assms(1) p m] keepsD [OF assms(2)] by (cases x) (auto simp: bind_tx_def)
qed

lemma keeps_challenge: "keeps (unused_account a) (create_challenge i ao p sd e)"
  unfolding keeps_def
proof (intro allI impI)
  fix w d r w' d' assume u: "unused_account a d" and run: "create_challenge i ao p sd e w d = (r, w', d')"
  have frame: "preserves (\<lambda>_. frame_ok d) (create_challenge i ao p sd e)"
    using op_create_challenge by (simp add: sign_in_op_def)
  have "frame_ok d d'" by (rule preservesD [OF frame frame_refl run])
  then show "unused_account a d'" using u by (auto simp: frame_ok_def view_ok_def shared_of_def unused_account_def)
qed

lemma moves_clean_up:
  assumes "moves P m" and "keeps P m" and "moves P clean"
  shows "moves P (or_clean_up clean m)"
proof (rule movesI)
  fix w d r w' d' assume s: "sane (w, d)" "P d" and run: "or_clean_up clean m w d = (r, w', d')"
  obtain x w1 d1 where m: "m w d = (x, w1, d1)" by (cases "m w d" rule: prod_cases3)
  note first = movesD [OF assms(1) s m]
  show "along\<^sup>*\<^sup>* (w, d) (w', d')"
  proof (cases x)
    case (Inl e)
    obtain y where "clean w1 d1 = (y, w', d')"
      using run m Inl by (auto simp: or_clean_up_def attempt_def bind_tx_def raise_def split: prod.splits)
    from movesD [OF assms(3) along_sane [OF first s(1)] keepsD [OF assms(2) s(2) m] this] first
    show ?thesis by (rule rtranclp_trans [rotated])
  next
    case (Inr v)
    then show ?thesis using first run m by (simp add: or_clean_up_def attempt_def bind_tx_def ret_def)
  qed
qed

lemma moves_delete_pending: "moves (unused_account a) (delete_pending_account a)"
proof (rule movesI)
  fix w d r w' d' assume "unused_account a d" and run: "delete_pending_account a w d = (r, w', d')"
  then have "along (w, d) (after_op (delete_pending_account a) (w, d))"
    by (intro along.request requested.delete_pending) simp
  then show "along\<^sup>*\<^sup>* (w, d) (w', d')" by (simp add: after_op_def run)
qed

lemma new_account_unused:
  assumes "sane (w, d)" and "create_pending_account i h n r w d = (Inr account, w', d')"
  shows "acc_id account = i \<and> unused_account i d'"
proof -
  have new: "\<not> account_exists d i" and d': "acc_id account = i" "members d' = members d" "invites d' = invites d"
      "idempotency d' = idempotency d"
    using assms(2) unfolding create_pending_account_def wrap_error_def
    by (auto simp: sql_def Let_def insert_account_def account_exists_def account_of_row_def require_def
        split: option.splits sum.splits if_splits prod.splits)
  have "pairs_inv d" "authors_known d" using assms(1) goodD(3) by (auto simp: sane_def)
  then have "unused_account i d" using new by (auto simp: unused_account_def pairs_inv_def authors_known_def)
  then show ?thesis by (simp add: d' unused_account_def)
qed

lemma moves_pending_account:
  assumes "\<And>account. moves (unused_account (acc_id account)) (f account)"
  shows "moves P (bind_tx (create_pending_account i h n r) f)"
proof (rule movesI)
  fix w d x w' d' assume s: "sane (w, d)" and run: "bind_tx (create_pending_account i h n r) f w d = (x, w', d')"
  obtain y w1 d1 where m: "create_pending_account i h n r w d = (y, w1, d1)"
    by (cases "create_pending_account i h n r w d" rule: prod_cases3)
  have first: "along\<^sup>*\<^sup>* (w, d) (w1, d1)"
    using along.request [OF requested.create_pending [of "(w, d)" i h n r]] m by (simp add: after_op_def r_into_rtranclp)
  show "along\<^sup>*\<^sup>* (w, d) (w', d')"
  proof (cases y)
    case (Inl e)
    then show ?thesis using first run m by (simp add: bind_tx_def)
  next
    case (Inr account)
    note new = new_account_unused [OF s m [unfolded Inr]]
    have rest: "f account w1 d1 = (x, w', d')" using run m Inr by (simp add: bind_tx_def)
    have "unused_account (acc_id account) d1" using new by simp
    from movesD [OF assms along_sane [OF first s] this rest] have "along\<^sup>*\<^sup>* (w1, d1) (w', d')" .
    with first show ?thesis by (rule rtranclp_trans)
  qed
qed

lemma moves_ceremony [run_intros]: "moves P (open_ceremony env pk a purpose begun)"
  unfolding open_ceremony_def by (intro run_rules run_intros)

lemma keeps_ceremony: "keeps (unused_account i) (open_ceremony env pk a purpose begun)"
  unfolding open_ceremony_def by (intro keeps_bind keeps_challenge keeps_read read_intros)

lemma moves_registration [run_intros]: "moves P (begin_account_registration env pk name)"
  unfolding begin_account_registration_def Let_def
  by (intro moves_cases(1) reads_basic [THEN moves_read] moves_bind_read read_intros moves_pending_account
      moves_clean_up moves_delete_pending moves_bind moves_ceremony moves_read keeps_bind keeps_ceremony keeps_read)

lemma moves_service [run_intros]:
  "moves P (finish_account_registration env pk i request device label)" "moves P (begin_login env pk)"
  "moves P (finish_login env pk i request device)" "moves P (begin_add_passkey env pk a)"
  "moves P (finish_add_passkey pk a i request label)" "moves P (recover env handle code device)"
  "moves P (refresh env raw)" "moves P (regenerate_recovery_codes env a)"
  unfolding finish_account_registration_def begin_login_def finish_login_def begin_add_passkey_def
    finish_add_passkey_def recover_def refresh_def regenerate_recovery_codes_def
  by (intro run_rules run_intros)+

section \<open>The handlers\<close>

lemma reads_http [read_intros]:
  "only_reads (ok_json status body)" "only_reads (decode_json aenv q specs)" "only_reads (uuid_or aenv err s)"
  "only_reads (ceremony_id env q)" "only_reads (device_of env q)" "only_reads (session_id_of env param)"
  "only_reads (idempotency_key env q)" "only_reads (seal_token aenv gcm b)"
  unfolding ok_json_def decode_json_def uuid_or_def ceremony_id_def device_of_def session_id_of_def
    idempotency_key_def seal_token_def Let_def refuse_unless_def
  by (intro read_intros)+

lemmas handler_rules = run_rules run_intros reads_http [THEN moves_read]

lemma runs_sign_in_handlers [run_intros]:
  "runs (register_options env pk q)" "runs (register_finish env pk q)" "runs (login_options env pk q)"
  "runs (login_finish env pk q)" "runs (recover_handler env q)" "runs (refresh_handler env q)"
  unfolding register_options_def register_finish_def login_options_def login_finish_def recover_handler_def
    refresh_handler_def
  by (intro handler_rules run_intros)+

lemma runs_account_handlers [run_intros]:
  "runs (me idn)" "runs (logout idn)" "runs (passkeys_handler idn)" "runs (add_passkey_options env pk idn q)"
  "runs (add_passkey_finish env pk idn q)" "runs (revoke_passkey idn param)" "runs (auth_sessions_handler idn)"
  "runs (revoke_auth_session env idn param)" "runs (installations idn)"
  "runs (revoke_installation_handler env idn param)" "runs (regenerate_handler env idn q)"
  unfolding me_def logout_def passkeys_handler_def add_passkey_options_def add_passkey_finish_def
    revoke_passkey_def auth_sessions_handler_def revoke_auth_session_def installations_def
    revoke_installation_handler_def regenerate_handler_def
  by (intro handler_rules run_intros)+

lemma runs_pair_handlers [run_intros]:
  "runs (get_pair idn)" "runs (create_invite_handler env idn q)" "runs (accept_invite_handler env idn q)"
  "runs (current_session_handler idn)" "runs (session_history_handler env idn q)"
  "runs (start_session_handler env idn q)" "runs (transition_handler env act idn param q)"
  "runs (add_cheer_handler env idn param q)" "runs (register_push_handler env idn q)"
  "runs (revoke_push_handler idn)" "runs (web_socket idn)"
  unfolding get_pair_def create_invite_handler_def accept_invite_handler_def current_session_handler_def
    session_history_handler_def start_session_handler_def transition_handler_def add_cheer_handler_def
    register_push_handler_def revoke_push_handler_def web_socket_def Let_def
  by (intro handler_rules run_intros)+

lemma runs_open_handlers [run_intros]:
  "runs live" "runs (ready env)" "runs (meta env)" "runs (apple_app_site_association env)"
  "runs (android_asset_links env)" "runs (pair_invite_landing param)" "runs (static_page name)"
  unfolding live_def ready_def meta_def apple_app_site_association_def android_asset_links_def
    pair_invite_landing_def static_page_def
  by (intro handler_rules run_intros)+

text \<open>Notes carry the caller's name, so these two need an identity that is registered.\<close>

lemma moves_add_note: "moves (known idn) (add_note idn i key b)"
proof (rule movesI)
  fix w d r w' d' assume "known idn d" and run: "add_note idn i key b w d = (r, w', d')"
  then have "along (w, d) (after_op (add_note idn i key b) (w, d))"
    by (intro along.request requested.shared served.add_note) simp
  then show "along\<^sup>*\<^sup>* (w, d) (w', d')" by (simp add: after_op_def run)
qed

lemma moves_sync: "moves (known idn) (sync idn body)"
proof -
  have "moves (known idn) (map_each cs (sync_one idn))" for cs
    by (intro movesI along_served) (auto intro: sync_all_served simp: sane_def)
  then show ?thesis unfolding sync_def by (intro moves_cases(1) handler_rules)
qed

lemma moves_note_handler: "moves (known idn) (add_note_handler env idn param q)"
  unfolding add_note_handler_def Let_def
  by (intro moves_bind_read reads_http moves_refuse(2) moves_bind moves_add_note handler_rules)

lemma moves_sync_handler: "moves (known idn) (sync_handler idn q)"
  unfolding sync_handler_def
  by (intro moves_bind_read reads_results moves_bind moves_sync handler_rules)

lemma list_all_intros: "list_all P []" "P x \<Longrightarrow> list_all P xs \<Longrightarrow> list_all P (x # xs)"
  by simp_all

lemma member_handlers_move:
  assumes "(pattern, handler) \<in> set (member_routes env pk)"
  shows "moves (known idn) (handler idn param q)"
proof -
  have "list_all (\<lambda>h. \<forall>idn param q. moves (known idn) (h idn param q)) (map snd (member_routes env pk))"
    unfolding member_routes_def list.map snd_conv
    by (intro list_all_intros allI; (rule moves_note_handler moves_sync_handler)?; (rule runs_moves, rule run_intros)?)
  then show ?thesis using assms by (force simp: list_all_iff)
qed

lemma open_handlers_run:
  assumes "(pattern, handler) \<in> set (open_routes env) \<or> (pattern, handler) \<in> set (auth_routes env pk)"
  shows "runs (handler param q)"
proof -
  have "list_all (\<lambda>h. \<forall>param q. runs (h param q)) (map snd (open_routes env))"
    and "list_all (\<lambda>h. \<forall>param q. runs (h param q)) (map snd (auth_routes env pk))"
    unfolding open_routes_def auth_routes_def list.map snd_conv
    by (intro list_all_intros allI run_intros)+
  then show ?thesis using assms by (force simp: list_all_iff)
qed

section \<open>Requests\<close>

lemma signed_in_known: "signed_in env q d idn \<Longrightarrow> known idn d"
  unfolding signed_in_def
  by (auto elim!: validate_InrD valid_session_row simp: known_def identity_of_def find_None_iff)

lemma runs_answered [run_intros]: "runs m \<Longrightarrow> runs (answered request_id m)"
  unfolding answered_def by (intro handler_rules)

lemma runs_member_request:
  assumes "\<And>idn. moves (known idn) (handler idn param q)"
  shows "runs (member_request env request_id handler param q)"
proof -
  have "runs (bind_tx (authenticate env q) (\<lambda>idn. handler idn param q))"
  proof (rule movesI)
    fix w d r w' d' assume s: "sane (w, d)"
      and run: "bind_tx (authenticate env q) (\<lambda>idn. handler idn param q) w d = (r, w', d')"
    obtain x w1 d1 where a: "authenticate env q w d = (x, w1, d1)"
      by (cases "authenticate env q w d" rule: prod_cases3)
    have reads: "only_reads (authenticate env q)"
      unfolding authenticate_def by (intro read_intros)
    have d1: "d1 = d" and first: "along\<^sup>*\<^sup>* (w, d) (w1, d)"
      using only_readsD [OF reads a] by (auto intro: along_wait)
    from a show "along\<^sup>*\<^sup>* (w, d) (w', d')"
    proof (cases rule: authenticate_run)
      case (accepted idn)
      then have h: "handler idn param q w1 d = (r, w', d')" using run a by (simp add: bind_tx_def)
      have "known idn d" using accepted(3) by (rule signed_in_known)
      from movesD [OF assms along_sane [OF first s] this h] first show ?thesis
        by (rule rtranclp_trans [rotated])
    next
      case rejected
      then show ?thesis using run a first by (simp add: bind_tx_def)
    qed
  qed
  then show ?thesis unfolding member_request_def by (rule runs_answered)
qed

definition serves :: "(server, 'a) tx \<Rightarrow> bool" where
  "serves m \<longleftrightarrow> (\<forall>w s r w' s'. sane (w, sv_db s) \<longrightarrow> m w s = (r, w', s') \<longrightarrow>
     along\<^sup>*\<^sup>* (w, sv_db s) (w', sv_db s'))"

lemma serves_on_db: "runs m \<Longrightarrow> serves (on_db m)"
  by (auto simp: serves_def on_db_def dest: movesD split: prod.splits)

lemma serves_ret: "serves (ret v)"
  by (simp add: serves_def ret_def)

lemma serves_diagnosed: "serves (diagnosed request_id result)"
  by (auto simp: serves_def diagnosed_def split: prod.splits)

lemma serves_limited:
  assumes "serves next" and put: "\<And>l s. sv_db (put l s) = sv_db s"
  shows "serves (limited env request_id get put q next)"
  unfolding serves_def
proof (intro allI impI)
  fix w s r w' s' assume s: "sane (w, sv_db s)" and run: "limited env request_id get put q next w s = (r, w', s')"
  have first: "along\<^sup>*\<^sup>* (w, sv_db s) (tick w, sv_db s)" by (rule along_wait) simp
  obtain ok l where a: "allow (client_host env q) (w_now w (w_step w)) (get s) = (ok, l)"
    by (cases "allow (client_host env q) (w_now w (w_step w)) (get s)")
  show "along\<^sup>*\<^sup>* (w, sv_db s) (w', sv_db s')"
  proof (cases ok)
    case True
    then have "next (tick w) (put l s) = (r, w', s')" using run a by (simp add: limited_def bind_tx_def go_now_def)
    then have "along\<^sup>*\<^sup>* (tick w, sv_db s) (w', sv_db s')"
      using assms(1) along_sane [OF first s] put [of l s] unfolding serves_def by metis
    with first show ?thesis by (rule rtranclp_trans)
  next
    case False
    then show ?thesis using run a first by (auto simp: limited_def bind_tx_def go_now_def put)
  qed
qed

lemma serves_dispatch: "serves (dispatch env pk request_id report pattern param q)"
proof -
  have opened: "runs (handler param q)" if "map_of (open_routes env) pattern = Some handler" for handler
    using open_handlers_run map_of_SomeD [OF that] by blast
  have signing: "runs (handler param q)" if "map_of (auth_routes env pk) pattern = Some handler" for handler
    using open_handlers_run map_of_SomeD [OF that] by blast
  have member: "runs (member_request env request_id handler param q)"
    if "map_of (member_routes env pk) pattern = Some handler" for handler
    by (intro runs_member_request member_handlers_move [OF map_of_SomeD [OF that]])
  show ?thesis
    unfolding dispatch_def
    by (auto intro!: serves_limited serves_diagnosed serves_on_db runs_answered serves_ret
        dest: opened signing member split: option.split)
qed

lemma serves_bind_ret: "serves m \<Longrightarrow> serves (bind_tx m (\<lambda>v. ret (f v)))"
  by (auto simp: serves_def bind_tx_def ret_def split: prod.splits sum.splits)

lemma serve_moves: "serves (serve env pk report q)"
  unfolding serves_def
proof (intro allI impI)
  fix w s r w' s' assume s: "sane (w, sv_db s)" and run: "serve env pk report q w s = (r, w', s')"
  have first: "along\<^sup>*\<^sup>* (w, sv_db s) (tick w, sv_db s)" by (rule along_wait) simp
  have random: "attempt (random_bytes (he_auth env) 16) w s = (Inr (ae_random (he_auth env) (w_step w) 16), tick w, s)"
    by (simp add: attempt_def random_bytes_def ask_def bind_tx_def observe_def raise_def ret_def split: sum.split)
  show "along\<^sup>*\<^sup>* (w, sv_db s) (w', sv_db s')"
  proof (cases "ae_random (he_auth env) (w_step w) 16")
    case (Inl e)
    then show ?thesis using run first by (simp add: serve_def bind_tx_def [of "attempt _"] random ret_def)
  next
    case (Inr bs)
    let ?id = "hex_encode bs"
    let ?go = "limited env ?id sv_all (\<lambda>l s. s\<lparr>sv_all := l\<rparr>) q
      (case he_mux env (patterns env pk) (rq_method q) (rq_path q) of None \<Rightarrow> ret not_found_page
       | Some (pattern, param) \<Rightarrow> dispatch env pk ?id report pattern param q)"
    have "serves ?go"
      by (rule serves_limited) (auto intro: serves_ret serves_dispatch split: option.split)
    then have "serves (bind_tx ?go (\<lambda>response. ret (with_headers ((''X-Request-ID'', ?id) # secure_headers q) response)))"
      by (rule serves_bind_ret)
    moreover have "bind_tx ?go (\<lambda>response. ret (with_headers ((''X-Request-ID'', ?id) # secure_headers q) response))
        (tick w) s = (r, w', s')"
      using run by (simp add: serve_def bind_tx_def [of "attempt _"] random Inr Let_def)
    ultimately have "along\<^sup>*\<^sup>* (tick w, sv_db s) (w', sv_db s')"
      using along_sane [OF first s] unfolding serves_def by blast
    with first show ?thesis by (rule rtranclp_trans)
  qed
qed

section \<open>The running server\<close>

text \<open>
  Requests of any kind in any order, the push worker beside them on the same database, and time that
  passes.
\<close>

inductive running ::
  "http_env \<Rightarrow> ('c, 's, 'o, 'r) passkeys \<Rightarrow> world \<times> server \<Rightarrow> world \<times> server \<Rightarrow> bool"
  for env :: http_env and pk :: "('c, 's, 'o, 'r) passkeys" where
  request: "serve env pk report q w s = (r, w', s') \<Longrightarrow> running env pk (w, s) (w', s')"
| claims: "on_db (claim_push_jobs n l) w s = (r, w', s') \<Longrightarrow> running env pk (w, s) (w', s')"
| settles: "on_db (settle store_queue aenv job answer) w s = (r, w', s') \<Longrightarrow> running env pk (w, s) (w', s')"
| waits: "advance w w' \<Longrightarrow> running env pk (w, s) (w', s)"

lemma runs_worker [run_intros]:
  "runs (claim_push_jobs n l)" "runs (settle store_queue aenv job answer)"
  by (rule moves_op, (rule along.claim along.settling))+

lemma running_step:
  assumes "running env pk t t'" and "sane (fst t, sv_db (snd t))"
  shows "along\<^sup>*\<^sup>* (fst t, sv_db (snd t)) (fst t', sv_db (snd t'))"
  using assms
proof (induction rule: running.induct)
  case (request report q w s r w' s')
  then show ?case using serve_moves unfolding serves_def by (metis fst_conv snd_conv)
next
  case (claims n l w s r w' s')
  then show ?case using serves_on_db [OF runs_worker(1)] unfolding serves_def by (metis fst_conv snd_conv)
next
  case (settles aenv job answer w s r w' s')
  then show ?case using serves_on_db [OF runs_worker(2)] unfolding serves_def by (metis fst_conv snd_conv)
qed (simp add: along_wait)

lemma running_run:
  "(running env pk)\<^sup>*\<^sup>* t t' \<Longrightarrow> sane (fst t, sv_db (snd t)) \<Longrightarrow>
   along\<^sup>*\<^sup>* (fst t, sv_db (snd t)) (fst t', sv_db (snd t'))"
proof (induction rule: rtranclp_induct)
  case (step t' t'')
  then show ?case using running_step [OF step(2)] along_sane by (blast intro: rtranclp_trans)
qed simp

text \<open>
  C2. The server refines the store: whatever requests arrive in whatever order, with the push worker
  beside them and any statement failing, the database only moves by operations of the store, so from
  a reachable moment every later one is reachable and all the invariants of the store hold in it.
\<close>

theorem server_refines_store:
  assumes "reachable (w, sv_db s)" and "(running env pk)\<^sup>*\<^sup>* (w, s) (w', s')"
  shows "along\<^sup>*\<^sup>* (w, sv_db s) (w', sv_db s') \<and> reachable (w', sv_db s') \<and> sane (w', sv_db s')"
proof -
  have "along\<^sup>*\<^sup>* (w, sv_db s) (w', sv_db s')"
    using running_run [OF assms(2)] reachable_sane [OF assms(1)] by simp
  moreover then have "reachable (w', sv_db s')"
    using assms(1) unfolding reachable_def by (meson rtranclp_trans)
  ultimately show ?thesis using reachable_sane by blast
qed

theorem server_refines_store_witness:
  "\<exists>report r w s. serve demo_http demo_passkeys report demo_request (demo_world\<lparr>w_step := 12\<rparr>)
      (new_server demo_http demo_tables) = (Inr r, w, s) \<and> rs_status r = 204 \<and> reachable (w, sv_db s)"
proof -
  fix report :: "go_error + app_report"
  obtain r w s where run: "serve demo_http demo_passkeys report demo_request (demo_world\<lparr>w_step := 12\<rparr>)
     (new_server demo_http demo_tables) = (Inr r, w, s)" "rs_status r = 204" using demo_served by blast
  have "reachable (demo_world\<lparr>w_step := 12\<rparr>, sv_db (new_server demo_http demo_tables))"
    using demo_ready_reachable by (simp add: demo_ready_def new_server_def)
  from server_refines_store [OF this r_into_rtranclp [where r = "running demo_http demo_passkeys", OF running.request [OF run(1)]]] run
  show ?thesis by blast
qed

end
