(* ===== verification/Hub.thy ===== *)
theory Hub
  imports Database
begin

text \<open>
  The hints for open connections: \<open>internal/realtime/hub.go\<close>. Each connection subscribes with a
  channel that holds eight hints; a hint that finds the channel full is dropped, and the phone
  catches up from the log anyway.
\<close>

record subscription =
  sb_channel :: nat
  sb_pair :: uuid
  sb_buffer :: "hint list"

type_synonym hub = "subscription list"

definition channel_capacity :: nat where
  "channel_capacity = 8"

definition subscribe :: "uuid \<Rightarrow> nat \<Rightarrow> hub \<Rightarrow> hub" where
  "subscribe pair_id channel h = \<lparr>sb_channel = channel, sb_pair = pair_id, sb_buffer = []\<rparr> # h"

definition unsubscribe :: "uuid \<Rightarrow> nat \<Rightarrow> hub \<Rightarrow> hub" where
  "unsubscribe pair_id channel h = filter (\<lambda>s. \<not> (sb_pair s = pair_id \<and> sb_channel s = channel)) h"

definition offer :: "hint \<Rightarrow> subscription \<Rightarrow> subscription" where
  "offer x s = (if length (sb_buffer s) < channel_capacity then s\<lparr>sb_buffer := sb_buffer s @ [x]\<rparr> else s)"

definition publish :: "hint \<Rightarrow> hub \<Rightarrow> hub" where
  "publish x h = map (\<lambda>s. if sb_pair s = hint_pair x then offer x s else s) h"

text \<open>The connection takes the oldest hint of its channel.\<close>

definition take_hint :: "nat \<Rightarrow> hub \<Rightarrow> hint option \<times> hub" where
  "take_hint channel h = (case List.find (\<lambda>s. sb_channel s = channel) h of
       None \<Rightarrow> (None, h)
     | Some s \<Rightarrow> (case sb_buffer s of
           [] \<Rightarrow> (None, h)
         | x # rest \<Rightarrow> (Some x, map (\<lambda>t. if sb_channel t = channel then t\<lparr>sb_buffer := rest\<rparr> else t) h)))"

text \<open>The delay of \<open>Listen\<close> before it connects again.\<close>

definition next_delay :: "duration \<Rightarrow> duration" where
  "next_delay delay = (if delay < 30 * second then delay * 2 else delay)"

text \<open>
  The loop of \<open>webSocket\<close> after the greeting, over what its \<open>select\<close> finds ready: the client is
  gone, a hint of its channel, or the heartbeat. A message that cannot be written or a ping that is
  not answered ends it; it returns the cursors it has sent.
\<close>

datatype socket_event = ClientGone | HintReady hint bool | Heartbeat bool

fun socket_loop :: "socket_event list \<Rightarrow> int list" where
  "socket_loop [] = []"
| "socket_loop (ClientGone # es) = []"
| "socket_loop (HintReady x written # es) = hint_cursor x # (if written then socket_loop es else [])"
| "socket_loop (Heartbeat answered # es) = (if answered then socket_loop es else [])"

section \<open>What a connection is told\<close>

inductive hub_step :: "hub \<Rightarrow> hub \<Rightarrow> bool" where
  subscribes: "channel \<notin> sb_channel ` set h \<Longrightarrow> hub_step h (subscribe pair_id channel h)"
| unsubscribes: "hub_step h (unsubscribe pair_id channel h)"
| publishes: "hub_step h (publish x h)"
| takes: "hub_step h (snd (take_hint channel h))"

definition hub_ok :: "hub \<Rightarrow> bool" where
  "hub_ok h \<longleftrightarrow> distinct (map sb_channel h) \<and> (\<forall>s \<in> set h. length (sb_buffer s) \<le> channel_capacity \<and>
     (\<forall>x \<in> set (sb_buffer s). hint_pair x = sb_pair s))"

lemma offer_frame [simp]: "sb_channel (offer x s) = sb_channel s" "sb_pair (offer x s) = sb_pair s"
  by (simp_all add: offer_def)

lemma hub_ok_subscribe: "hub_ok h \<Longrightarrow> channel \<notin> sb_channel ` set h \<Longrightarrow> hub_ok (subscribe p channel h)"
  by (auto simp: hub_ok_def subscribe_def)

lemma hub_ok_unsubscribe: "hub_ok h \<Longrightarrow> hub_ok (unsubscribe p channel h)"
  by (auto simp: hub_ok_def unsubscribe_def distinct_map_filter)

lemma hub_ok_publish: "hub_ok h \<Longrightarrow> hub_ok (publish x h)"
proof -
  assume h: "hub_ok h"
  have "map sb_channel (publish x h) = map sb_channel h" by (auto simp: publish_def)
  then have "distinct (map sb_channel (publish x h))" using h by (simp add: hub_ok_def)
  moreover have "\<forall>s \<in> set (publish x h). length (sb_buffer s) \<le> channel_capacity \<and>
      (\<forall>x \<in> set (sb_buffer s). hint_pair x = sb_pair s)"
    using h by (auto simp: hub_ok_def publish_def offer_def)
  ultimately show ?thesis by (simp add: hub_ok_def)
qed

lemma hub_ok_take:
  assumes h: "hub_ok h"
  shows "hub_ok (snd (take_hint channel h))"
proof (cases "List.find (\<lambda>s. sb_channel s = channel) h")
  case (Some s)
  show ?thesis
  proof (cases "sb_buffer s")
    case (Cons x rest)
    have s: "s \<in> set h" "sb_channel s = channel" using find_Some_in [OF Some] by simp_all
    have "map sb_channel (snd (take_hint channel h)) = map sb_channel h"
      by (auto simp: take_hint_def Some Cons)
    then have "distinct (map sb_channel (snd (take_hint channel h)))" using h by (simp add: hub_ok_def)
    moreover have same: "t = s" if "t \<in> set h" "sb_channel t = channel" for t
      using h that s by (auto simp: hub_ok_def distinct_map dest: inj_onD)
    have buffer: "length rest \<le> channel_capacity" "\<forall>y \<in> set rest. hint_pair y = sb_pair s"
      using h s(1) Cons by (auto simp: hub_ok_def)
    have "length (sb_buffer t') \<le> channel_capacity \<and> (\<forall>y \<in> set (sb_buffer t'). hint_pair y = sb_pair t')"
      if told: "t' \<in> set (snd (take_hint channel h))" for t'
    proof -
      obtain t where t: "t \<in> set h" "t' = (if sb_channel t = channel then t\<lparr>sb_buffer := rest\<rparr> else t)"
        using told by (auto simp: take_hint_def Some Cons)
      show ?thesis
        using same [OF t(1)] buffer h t by (cases "sb_channel t = channel") (simp_all add: hub_ok_def)
    qed
    ultimately show ?thesis by (simp add: hub_ok_def)
  qed (simp add: take_hint_def Some h)
qed (simp add: take_hint_def h)

lemma hub_step_ok: "hub_step h h' \<Longrightarrow> hub_ok h \<Longrightarrow> hub_ok h'"
  by (cases rule: hub_step.cases)
    (auto intro: hub_ok_subscribe hub_ok_unsubscribe hub_ok_publish hub_ok_take)

lemma hub_reachable_ok: "hub_step\<^sup>*\<^sup>* [] h \<Longrightarrow> hub_ok h"
proof (induction rule: rtranclp_induct)
  case base
  show ?case by (simp add: hub_ok_def)
qed (rule hub_step_ok)

text \<open>A connection with room is told of every change of its own pair.\<close>

lemma published:
  assumes "s \<in> set h" and "sb_pair s = hint_pair x" and "length (sb_buffer s) < channel_capacity"
  shows "s\<lparr>sb_buffer := sb_buffer s @ [x]\<rparr> \<in> set (publish x h)"
  using assms by (force simp: publish_def offer_def)

lemma next_delay_bounded: "0 < delay \<Longrightarrow> delay \<le> 60 * second \<Longrightarrow> delay \<le> next_delay delay \<and> next_delay delay \<le> 60 * second"
  by (simp add: next_delay_def)

text \<open>A connection that is not cut off sends on every cursor it is told, in order.\<close>

lemma socket_sends_all:
  assumes "\<forall>e \<in> set es. e \<noteq> ClientGone \<and> (\<forall>x. e \<noteq> HintReady x False) \<and> e \<noteq> Heartbeat False"
  shows "socket_loop es = concat (map (\<lambda>e. case e of HintReady x _ \<Rightarrow> [hint_cursor x] | _ \<Rightarrow> []) es)"
  using assms
proof (induction es rule: socket_loop.induct)
  case (3 x written es)
  then show ?case by (cases written) auto
next
  case (4 answered es)
  then show ?case by (cases answered) auto
qed auto

end
