(* ===== verification/Config.thy ===== *)
theory Config
  imports Tokens Ascii
begin

text \<open>
  The configuration: \<open>internal/config/config.go\<close>. The environment variables and the files are
  parameters; so are \<open>time.ParseDuration\<close> and \<open>url.Parse\<close>, of which only the scheme and the host
  are looked at. The list of problems is what \<open>errors.Join\<close> gets.
\<close>

record outside =
  os_env :: "string \<Rightarrow> string"
  os_file :: "string \<Rightarrow> go_error + string"
  os_duration :: "string \<Rightarrow> duration option"
  os_url :: "string \<Rightarrow> go_error + string \<times> string"

record config =
  cf_environment :: string
  cf_domain :: string
  cf_http_address :: string
  cf_database_url :: string
  cf_public_base_url :: string
  cf_rp_id :: string
  cf_rp_origins :: "string list"
  cf_jwt_key :: bytes
  cf_access_ttl :: duration
  cf_refresh_ttl :: duration
  cf_challenge_ttl :: duration
  cf_invite_ttl :: duration
  cf_push_key :: bytes
  cf_rate_limit :: int
  cf_shutdown_timeout :: duration
  cf_readiness_timeout :: duration
  cf_git_commit :: string
  cf_apple_team :: string
  cf_android_sha256 :: "string list"
  cf_apns_team :: string
  cf_apns_key_id :: string
  cf_apns_key_path :: string
  cf_apns_topic :: string
  cf_apns_environment :: string
  cf_apns_poll :: duration
  cf_apns_batch :: int
  cf_insecure_keys :: bool
  cf_trust_proxy :: bool

datatype config_error =
    Problem string
  | Caused string go_error
  | BadOrigin string
  | InsecureOrigin string

section \<open>Reading values\<close>

text \<open>\<open>strconv.ParseBool\<close>; the callers take an error for false.\<close>

definition parse_bool :: "string \<Rightarrow> bool" where
  "parse_bool s \<longleftrightarrow> s \<in> {''1'', ''t'', ''T'', ''true'', ''TRUE'', ''True''}"

definition env_or :: "outside \<Rightarrow> string \<Rightarrow> string \<Rightarrow> string" where
  "env_or os name fallback = (let value = trim_space (os_env os name) in if value \<noteq> [] then value else fallback)"

definition duration_or :: "outside \<Rightarrow> string \<Rightarrow> duration \<Rightarrow> duration" where
  "duration_or os name fallback = (let value = trim_space (os_env os name) in
     if value = [] then fallback else case os_duration os value of None \<Rightarrow> - 1 | Some d \<Rightarrow> d)"

definition integer_or :: "outside \<Rightarrow> string \<Rightarrow> int \<Rightarrow> int" where
  "integer_or os name fallback = (let value = trim_space (os_env os name) in
     if value = [] then fallback else case atoi value of None \<Rightarrow> - 1 | Some n \<Rightarrow> n)"

definition split_csv :: "string \<Rightarrow> string list" where
  "split_csv value = filter (\<lambda>s. s \<noteq> []) (map trim_space (split_at (CHR '','') value))"

definition env_or_file :: "outside \<Rightarrow> string \<Rightarrow> config_error + string" where
  "env_or_file os name =
     (let value = trim_space (os_env os name); file = trim_space (os_env os (name @ ''_FILE'')) in
      if value \<noteq> [] \<and> file \<noteq> [] then Inl (Problem (''set only one of '' @ name @ '' or '' @ name @ ''_FILE''))
      else if file = [] then Inr value
      else case os_file os file of
        Inl e \<Rightarrow> Inl (Caused (''read '' @ name @ ''_FILE'') e)
      | Inr content \<Rightarrow> Inr (trim_space content))"

text \<open>\<open>base64.StdEncoding\<close>, with padding.\<close>

definition padded_encode :: "bytes \<Rightarrow> string" where
  "padded_encode bs = (let s = base64_encode std_alphabet bs
     in s @ replicate ((4 - length s mod 4) mod 4) (CHR ''=''))"

definition padded_decode :: "string \<Rightarrow> bytes option" where
  "padded_decode s =
     (let t = filter (\<lambda>c. c \<notin> {CHR 0x0A, CHR 0x0D}) s;
          body = rev (dropWhile (\<lambda>c. c = CHR ''='') (rev t)) in
      if length t mod 4 \<noteq> 0 \<or> 2 < length t - length body then None
      else base64_decode std_alphabet body)"

definition secret :: "outside \<Rightarrow> string \<Rightarrow> bool \<Rightarrow> string \<Rightarrow> config_error + bytes" where
  "secret os name allow_development development_value = (case env_or_file os name of
       Inl e \<Rightarrow> Inl e
     | Inr value \<Rightarrow>
         if value = [] \<and> \<not> allow_development then Inl (Problem (name @ '' is required (base64 encoded)''))
         else case padded_decode (if value = [] then padded_encode development_value else value) of
           None \<Rightarrow> Inl (Problem (name @ '' must be valid base64''))
         | Some decoded \<Rightarrow> Inr decoded)"

section \<open>Validation\<close>

definition complain :: "bool \<Rightarrow> string \<Rightarrow> config_error list" where
  "complain wrong message = (if wrong then [Problem message] else [])"

definition check_origin :: "outside \<Rightarrow> config \<Rightarrow> string \<Rightarrow> config_error list" where
  "check_origin os c origin = (case os_url os origin of
       Inl _ \<Rightarrow> [BadOrigin origin]
     | Inr (scheme, host) \<Rightarrow>
         if scheme = [] \<or> host = [] then [BadOrigin origin]
         else if cf_environment c = ''production'' \<and> scheme \<noteq> ''https'' then [InsecureOrigin origin]
         else [])"

definition validate_api :: "outside \<Rightarrow> config \<Rightarrow> config_error list" where
  "validate_api os c =
     (if cf_database_url c = [] then [Problem ''DATABASE_URL is required'']
      else case os_url os (cf_database_url c) of Inl e \<Rightarrow> [Caused ''DATABASE_URL'' e] | Inr _ \<Rightarrow> []) @
     complain (cf_environment c = ''production'' \<and> cf_insecure_keys c)
       ''insecure development keys are forbidden in production'' @
     complain (length (cf_jwt_key c) < 32) ''JWT_SIGNING_KEY must decode to at least 32 bytes'' @
     complain (length (cf_push_key c) \<noteq> 32) ''PUSH_ENCRYPTION_KEY must decode to exactly 32 bytes'' @
     complain (cf_rp_id c = [] \<or> cf_rp_origins c = []) ''WebAuthn RP ID and at least one origin are required'' @
     complain (cf_environment c = ''production'' \<and> length (cf_apple_team c) \<noteq> 10)
       ''APPLE_TEAM_ID must be a 10-character Apple Team ID'' @
     concat (map (check_origin os c) (cf_rp_origins c)) @
     complain (cf_access_ttl c \<le> 0 \<or> 15 * minute < cf_access_ttl c)
       ''ACCESS_TOKEN_TTL must be between zero and 15 minutes'' @
     complain (cf_refresh_ttl c < 24 * hour) ''REFRESH_TOKEN_TTL must be at least 24 hours'' @
     complain (cf_rate_limit c < 10) ''RATE_LIMIT_PER_MINUTE must be at least 10''"

definition validate_apns :: "config \<Rightarrow> config_error list" where
  "validate_apns c =
     complain (cf_apns_team c = []) ''APNS_TEAM_ID is required'' @
     complain (cf_apns_key_id c = []) ''APNS_KEY_ID is required'' @
     complain (cf_apns_topic c = []) ''APNS_TOPIC is required'' @
     complain (cf_apns_environment c \<noteq> ''sandbox'' \<and> cf_apns_environment c \<noteq> ''production'')
       ''APNS_ENVIRONMENT must be sandbox or production'' @
     complain (cf_apns_batch c < 1 \<or> 500 < cf_apns_batch c) ''APNS_BATCH_SIZE must be between 1 and 500''"

section \<open>Loading\<close>

definition read_config :: "outside \<Rightarrow> string \<Rightarrow> bytes \<Rightarrow> bytes \<Rightarrow> config" where
  "read_config os database_url jwt_key push_key = (let domain = env_or os ''ALONG_DOMAIN'' ''localhost'' in
     \<lparr>cf_environment = env_or os ''ALONG_ENV'' ''development'', cf_domain = domain,
      cf_http_address = env_or os ''HTTP_ADDRESS'' '':6009'', cf_database_url = database_url,
      cf_public_base_url = env_or os ''PUBLIC_BASE_URL'' (''https://'' @ domain),
      cf_rp_id = env_or os ''WEBAUTHN_RP_ID'' domain,
      cf_rp_origins = split_csv (env_or os ''WEBAUTHN_RP_ORIGINS'' (''https://'' @ domain)),
      cf_jwt_key = jwt_key,
      cf_access_ttl = duration_or os ''ACCESS_TOKEN_TTL'' (10 * minute),
      cf_refresh_ttl = duration_or os ''REFRESH_TOKEN_TTL'' (30 * (24 * hour)),
      cf_challenge_ttl = duration_or os ''WEBAUTHN_CHALLENGE_TTL'' (5 * minute),
      cf_invite_ttl = duration_or os ''PAIR_INVITE_TTL'' (48 * hour), cf_push_key = push_key,
      cf_rate_limit = integer_or os ''RATE_LIMIT_PER_MINUTE'' 120,
      cf_shutdown_timeout = duration_or os ''SHUTDOWN_TIMEOUT'' (15 * second),
      cf_readiness_timeout = duration_or os ''READINESS_TIMEOUT'' (2 * second),
      cf_git_commit = env_or os ''GIT_COMMIT'' ''unknown'',
      cf_apple_team = env_or os ''APPLE_TEAM_ID'' ''N7C8DEK852'',
      cf_android_sha256 = split_csv (os_env os ''ANDROID_SIGNING_SHA256''),
      cf_apns_team = os_env os ''APNS_TEAM_ID'', cf_apns_key_id = os_env os ''APNS_KEY_ID'',
      cf_apns_key_path = env_or os ''APNS_KEY_PATH'' ''/run/secrets/apns_key'',
      cf_apns_topic = env_or os ''APNS_TOPIC'' ''com.joshspicer.along'',
      cf_apns_environment = env_or os ''APNS_ENVIRONMENT'' ''sandbox'',
      cf_apns_poll = duration_or os ''APNS_POLL_INTERVAL'' (2 * second),
      cf_apns_batch = integer_or os ''APNS_BATCH_SIZE'' 50,
      cf_insecure_keys = parse_bool (os_env os ''ALONG_ALLOW_INSECURE_DEV_KEYS''),
      cf_trust_proxy = parse_bool (os_env os ''TRUST_PROXY_HEADERS'')\<rparr>)"

definition load_config :: "outside \<Rightarrow> config_error list + config" where
  "load_config os =
     (let dev = parse_bool (os_env os ''ALONG_ALLOW_INSECURE_DEV_KEYS'') in
      case env_or_file os ''DATABASE_URL'' of
        Inl e \<Rightarrow> Inl [e]
      | Inr url \<Rightarrow> (case secret os ''JWT_SIGNING_KEY'' dev ''along-development-jwt-key-change-me'' of
            Inl e \<Rightarrow> Inl [e]
          | Inr jwt \<Rightarrow> (case secret os ''PUSH_ENCRYPTION_KEY'' dev ''along-dev-push-key-32-bytes-long'' of
                Inl e \<Rightarrow> Inl [e]
              | Inr push \<Rightarrow> (let c = read_config os url jwt push in
                  if validate_api os c = [] then Inr c else Inl (validate_api os c)))))"

section \<open>What a server that started can rely on\<close>

lemma complain_Nil [simp]: "complain wrong message = [] \<longleftrightarrow> \<not> wrong"
  by (simp add: complain_def)

lemma padding_fits:
  fixes n :: nat
  assumes "n mod 4 \<noteq> 1"
  shows "(4 - n mod 4) mod 4 \<le> 2" "(n + (4 - n mod 4) mod 4) mod 4 = 0"
proof -
  have "n mod 4 < 4" by simp
  then have three: "n mod 4 = 0 \<or> n mod 4 = 2 \<or> n mod 4 = 3" using assms by linarith
  then show "(4 - n mod 4) mod 4 \<le> 2" by auto
  have "(n + (4 - n mod 4) mod 4) mod 4 = (n mod 4 + (4 - n mod 4) mod 4) mod 4"
    by (rule mod_add_left_eq [symmetric])
  also have "\<dots> = 0" using three by (elim disjE) (simp_all only:, simp_all)
  finally show "(n + (4 - n mod 4) mod 4) mod 4 = 0" .
qed

lemma padded_round_trip: "padded_decode (padded_encode bs) = Some bs"
proof -
  let ?s = "base64_encode std_alphabet bs"
  have alpha: "CHR ''='' \<notin> set ?s" "CHR 0x0A \<notin> set ?s" "CHR 0x0D \<notin> set ?s"
    using base64_encode_set [OF alphabets(1), of bs] by (auto simp: std_alphabet_def letters_def)
  have len: "length (sextets ns) mod 4 \<noteq> 1" for ns
    by (induction ns rule: sextets.induct) auto
  have "hd (rev ?s) \<noteq> CHR ''=''" if "rev ?s \<noteq> []"
    using alpha(1) that hd_in_set [OF that] by auto
  then have drop: "dropWhile (\<lambda>c. c = CHR ''='') (replicate k (CHR ''='') @ rev ?s) = rev ?s" for k
    by (induction k) (auto simp: dropWhile_eq_self_iff)
  define k where "k = (4 - length ?s mod 4) mod 4"
  have "length ?s mod 4 \<noteq> 1" using len by (simp add: base64_encode_def)
  then have k: "k \<le> 2" "(length ?s + k) mod 4 = 0" unfolding k_def by (rule padding_fits)+
  have body: "padded_encode bs = ?s @ replicate k (CHR ''='')"
    unfolding padded_encode_def Let_def k_def by (rule refl)
  have kept: "filter (\<lambda>c. c \<notin> {CHR 0x0A, CHR 0x0D}) (padded_encode bs) = padded_encode bs"
    using alpha unfolding body by (intro filter_True) auto
  have "rev (dropWhile (\<lambda>c. c = CHR ''='') (rev (padded_encode bs))) = ?s"
    by (simp add: body drop)
  moreover have "length (padded_encode bs) = length ?s + k" by (simp add: body)
  ultimately have "padded_decode (padded_encode bs) = base64_decode std_alphabet ?s"
    unfolding padded_decode_def kept Let_def by (simp only: k if_False add_diff_cancel_left') (use k in simp)
  then show ?thesis by (simp add: base64_decode_encode alphabets)
qed

lemma loaded_valid: "load_config os = Inr c \<Longrightarrow> validate_api os c = []"
  by (auto simp: load_config_def Let_def split: sum.splits if_splits)

lemma loaded_safe:
  assumes "load_config os = Inr c"
  shows "32 \<le> length (cf_jwt_key c) \<and> length (cf_push_key c) = 32 \<and> 0 < cf_access_ttl c \<and>
    cf_access_ttl c \<le> 15 * minute \<and> 24 * hour \<le> cf_refresh_ttl c \<and> 10 \<le> cf_rate_limit c \<and>
    (cf_environment c = ''production'' \<longrightarrow> \<not> cf_insecure_keys c)"
  using loaded_valid [OF assms] by (auto simp: validate_api_def)

text \<open>A production server signs and seals with keys that were configured, never with the ones for development.\<close>

lemma secret_configured:
  assumes "secret os name False fallback = Inr key"
  shows "\<exists>value. env_or_file os name = Inr value \<and> value \<noteq> [] \<and> padded_decode value = Some key"
  using assms by (auto simp: secret_def split: sum.splits if_splits option.splits)

lemma production_keys:
  assumes loaded: "load_config os = Inr c" and "cf_environment c = ''production''"
  shows "\<exists>jwt push. env_or_file os ''JWT_SIGNING_KEY'' = Inr jwt \<and> jwt \<noteq> [] \<and> padded_decode jwt = Some (cf_jwt_key c) \<and>
    env_or_file os ''PUSH_ENCRYPTION_KEY'' = Inr push \<and> push \<noteq> [] \<and> padded_decode push = Some (cf_push_key c)"
proof -
  let ?dev = "parse_bool (os_env os ''ALONG_ALLOW_INSECURE_DEV_KEYS'')"
  from loaded obtain url jwt push
    where keys: "secret os ''JWT_SIGNING_KEY'' ?dev ''along-development-jwt-key-change-me'' = Inr jwt"
        "secret os ''PUSH_ENCRYPTION_KEY'' ?dev ''along-dev-push-key-32-bytes-long'' = Inr push"
      and c: "c = read_config os url jwt push"
    by (auto simp: load_config_def Let_def split: sum.splits if_splits)
  have "\<not> cf_insecure_keys c" using loaded_safe [OF loaded] assms(2) by blast
  then have "\<not> ?dev" by (simp add: c read_config_def Let_def)
  with keys have "secret os ''JWT_SIGNING_KEY'' False ''along-development-jwt-key-change-me'' = Inr jwt"
    "secret os ''PUSH_ENCRYPTION_KEY'' False ''along-dev-push-key-32-bytes-long'' = Inr push" by simp_all
  moreover have "cf_jwt_key c = jwt" "cf_push_key c = push" by (simp_all add: c read_config_def Let_def)
  ultimately show ?thesis using secret_configured by metis
qed

text \<open>
  Durations that cannot be read come out as \<open>-1\<close>, and only two of them are validated: with this
  environment the server starts, and every invitation it makes has expired.
\<close>

definition demo_outside :: outside where
  "demo_outside = \<lparr>os_env = (\<lambda>name. if name = ''DATABASE_URL'' then ''x'' else
       if name = ''ALONG_ALLOW_INSECURE_DEV_KEYS'' then ''1'' else
       if name = ''PAIR_INVITE_TTL'' then ''2d'' else []),
     os_file = (\<lambda>_. Inl NoRows), os_duration = (\<lambda>_. None), os_url = (\<lambda>_. Inr (''https'', ''localhost''))\<rparr>"

lemma demo_unset: "trim_space [] = []"
  by (simp add: trim_ascii)

lemma demo_env_or: "name \<notin> {''DATABASE_URL'', ''ALONG_ALLOW_INSECURE_DEV_KEYS'', ''PAIR_INVITE_TTL''} \<Longrightarrow>
    env_or demo_outside name fallback = fallback"
  by (simp add: env_or_def demo_outside_def demo_unset)

lemma unparsed_ttl_accepted: "\<exists>c. load_config demo_outside = Inr c \<and> cf_invite_ttl c = - 1"
proof -
  have url: "env_or_file demo_outside ''DATABASE_URL'' = Inr ''x''"
    by (simp add: env_or_file_def demo_outside_def demo_unset trim_ascii ascii_space_def is_space_def byte_of_def between_def)
  have keys: "secret demo_outside name True key = Inr key"
    if "name \<in> {''JWT_SIGNING_KEY'', ''PUSH_ENCRYPTION_KEY''}" for name key
    using that by (auto simp: secret_def env_or_file_def demo_outside_def demo_unset padded_round_trip)
  have dev: "parse_bool (os_env demo_outside ''ALONG_ALLOW_INSECURE_DEV_KEYS'')"
    by (simp add: parse_bool_def demo_outside_def)
  define c where "c = read_config demo_outside ''x'' ''along-development-jwt-key-change-me'' ''along-dev-push-key-32-bytes-long''"
  have ttl: "duration_or demo_outside ''PAIR_INVITE_TTL'' d = - 1" for d
    by (simp add: duration_or_def demo_outside_def trim_ascii ascii_space_def is_space_def byte_of_def between_def)
  have unset: "duration_or demo_outside name d = d" "integer_or demo_outside name n = n"
    if "name \<notin> {''DATABASE_URL'', ''ALONG_ALLOW_INSECURE_DEV_KEYS'', ''PAIR_INVITE_TTL''}" for name d n
    using that by (simp_all add: duration_or_def integer_or_def demo_outside_def demo_unset)
  have origins: "split_csv ''https://localhost'' = [''https://localhost'']"
    by (simp add: split_csv_def trim_ascii ascii_space_def is_space_def byte_of_def between_def)
  have "validate_api demo_outside c = []"
    by (simp add: validate_api_def c_def read_config_def Let_def demo_env_or unset origins check_origin_def)
      (simp add: demo_outside_def)
  moreover have "cf_invite_ttl c = - 1" by (simp add: c_def read_config_def Let_def ttl)
  ultimately show ?thesis using dev by (simp add: load_config_def url keys c_def Let_def)
qed

end
