(* ===== verification/Migrations.thy ===== *)
theory Migrations
  imports Transactions GoNumbers "HOL-Library.List_Lexorder" "HOL-Library.Char_ord"
begin

text \<open>
  Migrations of the database: \<open>internal/migrate/migrate.go\<close>. What a migration does to the schema is
  PostgreSQL's part: \<open>ddl\<close> is a parameter that runs a script and fails or gives the schema after it.
  The advisory lock keeps two runs apart, so a run is a program on its own here; the statements that
  take and give it back can fail like any other.
\<close>

record ledger_row =
  lg_version :: int
  lg_name :: string
  lg_applied_at :: time

record 's migrated =
  mg_ledger :: "ledger_row list option"
  mg_schema :: 's

type_synonym migration_file = "string \<times> string"

definition migration_version :: "string \<Rightarrow> go_error + int" where
  "migration_version name = (case cut_at (CHR ''_'') name of
       None \<Rightarrow> Inl (Plain ''migration has no numeric prefix'')
     | Some (digits, _) \<Rightarrow> (case atoi digits of
           None \<Rightarrow> Inl (Plain ''migration has invalid version'')
         | Some version \<Rightarrow> Inr version))"

text \<open>\<open>strings.SplitN(s, sep, 2)[0]\<close> and \<open>strings.TrimPrefix\<close>.\<close>

fun before_first :: "string \<Rightarrow> string \<Rightarrow> string" where
  "before_first sep [] = []"
| "before_first sep (c # s) = (if take (length sep) (c # s) = sep then [] else c # before_first sep s)"

definition trim_prefix :: "string \<Rightarrow> string \<Rightarrow> string" where
  "trim_prefix prefix s = (if take (length prefix) s = prefix then drop (length prefix) s else s)"

definition up_script :: "string \<Rightarrow> string" where
  "up_script content = trim_prefix ''-- +along Up'' (before_first ''-- +along Down'' content)"

section \<open>Running them\<close>

definition labelled :: "string \<Rightarrow> ('d, 'a) tx \<Rightarrow> ('d, 'a) tx" where
  "labelled what m w d = (case m w d of
       (Inl e, w', d') \<Rightarrow> (Inl (Wrapped what e), w', d')
     | (Inr v, w', d') \<Rightarrow> (Inr v, w', d'))"

definition create_ledger :: "('s migrated, unit) tx" where
  "create_ledger = exec (\<lambda>_ d. Inr (d\<lparr>mg_ledger := Some (case mg_ledger d of None \<Rightarrow> [] | Some rows \<Rightarrow> rows)\<rparr>))"

definition is_applied :: "int \<Rightarrow> ('s migrated, bool) tx" where
  "is_applied version = sql (\<lambda>_ d. case mg_ledger d of
       None \<Rightarrow> Inl (PgError ''42P01'')
     | Some rows \<Rightarrow> Inr (version \<in> lg_version ` set rows, d))"

definition insert_ledger :: "int \<Rightarrow> string \<Rightarrow> ('s migrated, unit) tx" where
  "insert_ledger version name = exec (\<lambda>e d. case mg_ledger d of
       None \<Rightarrow> Inl (PgError ''42P01'')
     | Some rows \<Rightarrow> require (version \<notin> lg_version ` set rows) ''23505''
         (Inr (d\<lparr>mg_ledger := Some (rows @
           [\<lparr>lg_version = version, lg_name = name, lg_applied_at = e_clock e\<rparr>])\<rparr>)))"

definition migration_body ::
  "(string \<Rightarrow> 's \<Rightarrow> go_error + 's) \<Rightarrow> int \<Rightarrow> string \<Rightarrow> string \<Rightarrow> ('s migrated, unit) tx" where
  "migration_body ddl version name up =
     bind_tx (exec (\<lambda>_ d. case ddl up (mg_schema d) of Inl e \<Rightarrow> Inl e | Inr s \<Rightarrow> Inr (d\<lparr>mg_schema := s\<rparr>)))
       (\<lambda>_. insert_ledger version name)"

text \<open>\<open>Begin\<close>, the script and the row of the ledger, then \<open>Commit\<close> or \<open>Rollback\<close>.\<close>

definition apply_migration ::
  "(string \<Rightarrow> 's \<Rightarrow> go_error + 's) \<Rightarrow> int \<Rightarrow> string \<Rightarrow> string \<Rightarrow> ('s migrated, unit) tx" where
  "apply_migration ddl version name up =
     bind_tx (labelled (''begin migration '' @ name) (select (\<lambda>_ _. ()))) (\<lambda>_ w d.
       case labelled (''apply migration '' @ name)
           (migration_body ddl version name up) w d of
         (Inl e, w', d') \<Rightarrow> (Inl e, w', d)
       | (Inr _, w', d') \<Rightarrow> (case labelled (''commit migration '' @ name) (select (\<lambda>_ _. ())) w' d' of
             (Inl e, w'', _) \<Rightarrow> (Inl e, w'', d)
           | (Inr _, w'', _) \<Rightarrow> (Inr (), w'', d')))"

definition migrate_file ::
  "(string \<Rightarrow> 's \<Rightarrow> go_error + 's) \<Rightarrow> migration_file \<Rightarrow> ('s migrated, unit) tx" where
  "migrate_file ddl file = (case migration_version (fst file) of
       Inl e \<Rightarrow> raise e
     | Inr version \<Rightarrow>
         bind_tx (labelled (''check migration '' @ fst file) (is_applied version)) (\<lambda>applied.
         if applied then ret () else apply_migration ddl version (fst file) (up_script (snd file))))"

text \<open>The deferred unlock, whose error is only logged.\<close>

definition unlock_after :: "('d, 'a) tx \<Rightarrow> ('d, 'a) tx" where
  "unlock_after m w d = (case m w d of (r, w', d') \<Rightarrow> (r, fst (snd (select (\<lambda>_ _. ()) w' d')), d'))"

definition migrate_up ::
  "(string \<Rightarrow> 's \<Rightarrow> go_error + 's) \<Rightarrow> migration_file list \<Rightarrow> ('s migrated, unit) tx" where
  "migrate_up ddl files =
     bind_tx (labelled ''acquire migration lock'' (select (\<lambda>_ _. ()))) (\<lambda>_.
     unlock_after (bind_tx (labelled ''create migration ledger'' create_ledger) (\<lambda>_.
       for_each (sort_key fst files) (migrate_file ddl))))"

section \<open>A schema is always at a whole number of migrations\<close>

text \<open>What is to happen: the files in the order of their names, each once, in the ledger and the schema alike.\<close>

fun installed ::
  "(string \<Rightarrow> 's \<Rightarrow> go_error + 's) \<Rightarrow> migration_file list \<Rightarrow> int list \<times> 's \<Rightarrow> (int list \<times> 's) option" where
  "installed ddl [] state = Some state"
| "installed ddl (file # files) (versions, s) = (case migration_version (fst file) of
       Inl _ \<Rightarrow> None
     | Inr v \<Rightarrow> if v \<in> set versions then installed ddl files (versions, s)
         else case ddl (up_script (snd file)) s of
           Inl _ \<Rightarrow> None
         | Inr s' \<Rightarrow> installed ddl files (versions @ [v], s'))"

definition schema_state :: "'s migrated \<Rightarrow> int list \<times> 's" where
  "schema_state d = (map lg_version (case mg_ledger d of None \<Rightarrow> [] | Some rows \<Rightarrow> rows), mg_schema d)"

lemma installed_append:
  "installed ddl fs s = Some t \<Longrightarrow> installed ddl (fs @ gs) s = installed ddl gs t"
  by (induction fs arbitrary: s) (auto split: sum.splits if_splits)

lemma select_same: "select q w d = (r, w', d') \<Longrightarrow> d' = d"
  by (auto simp: select_def sql_def split: option.splits)

lemma exec_run: "exec q w d = (r, w', d') \<Longrightarrow> (case r of Inl _ \<Rightarrow> d' = d | Inr _ \<Rightarrow> q (env_of w) d = Inr d')"
  by (auto simp: exec_def sql_def split: option.splits sum.splits)

lemma migration_body_run:
  assumes "migration_body ddl v name up w d = (Inr u, w', d')"
  shows "\<exists>rows s t. mg_ledger d = Some rows \<and> v \<notin> lg_version ` set rows \<and> ddl up (mg_schema d) = Inr s \<and>
    d' = d\<lparr>mg_schema := s, mg_ledger := Some (rows @ [\<lparr>lg_version = v, lg_name = name, lg_applied_at = t\<rparr>])\<rparr>"
proof -
  let ?ddl = "exec (\<lambda>_ d. case ddl up (mg_schema d) of Inl e \<Rightarrow> Inl e | Inr s \<Rightarrow> Inr (d\<lparr>mg_schema := s\<rparr>))"
  from assms obtain u1 w1 d1 where e: "?ddl w d = (Inr u1, w1, d1)" and i: "insert_ledger v name w1 d1 = (Inr u, w', d')"
    by (auto simp: migration_body_def bind_tx_def split: prod.splits sum.splits)
  from exec_run [OF e] obtain s where "ddl up (mg_schema d) = Inr s" "d1 = d\<lparr>mg_schema := s\<rparr>"
    by (auto split: sum.splits)
  with exec_run [OF i [unfolded insert_ledger_def]] show ?thesis by (auto split: option.splits)
qed

lemma apply_migration_run:
  assumes "apply_migration ddl v name up w d = (r, w', d')"
  shows "(case r of Inl _ \<Rightarrow> d' = d
     | Inr _ \<Rightarrow> \<exists>rows s t. mg_ledger d = Some rows \<and> v \<notin> lg_version ` set rows \<and> ddl up (mg_schema d) = Inr s \<and>
         d' = d\<lparr>mg_schema := s, mg_ledger := Some (rows @ [\<lparr>lg_version = v, lg_name = name, lg_applied_at = t\<rparr>])\<rparr>)"
proof -
  let ?body = "migration_body ddl v name up"
  obtain x w1 d1 where b: "select (\<lambda>_ _. ()) w d = (x, w1, d1)" by (cases "select (\<lambda>_ _. ()) w d" rule: prod_cases3)
  note same = select_same [OF b]
  obtain y w2 d2 where m: "?body w1 d = (y, w2, d2)" by (cases "?body w1 d" rule: prod_cases3)
  obtain z w3 d3 where c: "select (\<lambda>_ _. ()) w2 d2 = (z, w3, d3)" by (cases "select (\<lambda>_ _. ()) w2 d2" rule: prod_cases3)
  note run = assms [unfolded apply_migration_def bind_tx_def [of "labelled _ _"] labelled_def]
  show ?thesis
  proof (cases x)
    case (Inl e)
    then show ?thesis using run by (auto simp: b same)
  next
    case began: (Inr u)
    show ?thesis
    proof (cases y)
      case (Inl e)
      then show ?thesis using run by (auto simp: b same began m)
    next
      case (Inr u')
      note whole = migration_body_run [OF m [unfolded Inr]]
      show ?thesis using run Inr whole by (cases z) (auto simp: b same began m c)
    qed
  qed
qed

lemma migrate_file_run:
  assumes "migrate_file ddl file w d = (r, w', d')"
  shows "(case r of Inl _ \<Rightarrow> d' = d
     | Inr _ \<Rightarrow> installed ddl [file] (schema_state d) = Some (schema_state d'))"
proof (cases "migration_version (fst file)")
  case (Inl e)
  then show ?thesis using assms by (auto simp: migrate_file_def raise_def)
next
  case (Inr v)
  obtain x w1 d1 where a: "is_applied v w d = (x, w1, d1)" by (cases "is_applied v w d" rule: prod_cases3)
  then have d1: "d1 = d" by (auto simp: is_applied_def sql_def split: option.splits sum.splits)
  show ?thesis
  proof (cases x)
    case (Inl e)
    then show ?thesis using assms Inr a d1 by (auto simp: migrate_file_def bind_tx_def labelled_def)
  next
    case applied: (Inr b)
    then obtain rows where rows: "mg_ledger d = Some rows" "b \<longleftrightarrow> v \<in> lg_version ` set rows"
      using a by (auto simp: is_applied_def sql_def split: option.splits sum.splits)
    show ?thesis
    proof (cases b)
      case True
      then show ?thesis using assms Inr a d1 applied rows
        by (auto simp: migrate_file_def bind_tx_def labelled_def ret_def schema_state_def)
    next
      case False
      then have "apply_migration ddl v (fst file) (up_script (snd file)) w1 d = (r, w', d')"
        using assms Inr a d1 applied by (simp add: migrate_file_def bind_tx_def labelled_def)
      from apply_migration_run [OF this] show ?thesis using Inr rows False
        by (auto simp: schema_state_def split: sum.splits)
    qed
  qed
qed

lemma migrate_files_run:
  "for_each files (migrate_file ddl) w d = (r, w', d') \<Longrightarrow>
    \<exists>n \<le> length files. installed ddl (take n files) (schema_state d) = Some (schema_state d') \<and>
      (r = Inr () \<longrightarrow> n = length files)"
proof (induction files arbitrary: w d)
  case Nil
  then show ?case by (auto simp: ret_def)
next
  case (Cons f files)
  obtain x w1 d1 where m: "migrate_file ddl f w d = (x, w1, d1)"
    by (cases "migrate_file ddl f w d" rule: prod_cases3)
  note run = migrate_file_run [OF m]
  show ?case
  proof (cases x)
    case (Inl e)
    then have "d' = d" "r = Inl e" using Cons.prems m run by (auto simp: bind_tx_def)
    then show ?thesis by (intro exI [of _ 0]) simp
  next
    case (Inr u)
    then have "for_each files (migrate_file ddl) w1 d1 = (r, w', d')" using Cons.prems m by (simp add: bind_tx_def)
    from Cons.IH [OF this] obtain n where n: "n \<le> length files"
        "installed ddl (take n files) (schema_state d1) = Some (schema_state d')" "r = Inr () \<longrightarrow> n = length files"
      by blast
    have "installed ddl (f # take n files) (schema_state d) = Some (schema_state d')"
      using installed_append [of ddl "[f]" "schema_state d" "schema_state d1" "take n files"] run n(2) Inr by simp
    then show ?thesis using n by (intro exI [of _ "Suc n"]) simp
  qed
qed

text \<open>
  Wherever a run stops, the ledger and the schema are those of the first migrations in the order of
  their names, each applied whole and once; a run that succeeds has applied all of them.
\<close>

theorem migrations_whole:
  assumes "migrate_up ddl files w d = (r, w', d')"
  shows "\<exists>n \<le> length files. installed ddl (take n (sort_key fst files)) (schema_state d) = Some (schema_state d') \<and>
    (r = Inr () \<longrightarrow> n = length files)"
proof -
  have none: "\<exists>n \<le> length files. installed ddl (take n (sort_key fst files)) (schema_state d) = Some (schema_state d)"
    by (intro exI [of _ 0]) simp
  obtain x w1 d1 where l: "labelled ''acquire migration lock'' (select (\<lambda>_ _. ())) w d = (x, w1, d1)"
    by (cases "labelled ''acquire migration lock'' (select (\<lambda>_ _. ())) w d" rule: prod_cases3) 
  then have d1: "d1 = d" by (auto simp: labelled_def select_def sql_def split: option.splits)
  show ?thesis
  proof (cases x)
    case (Inl e)
    then have "r = Inl e" "d' = d" using assms l d1 by (auto simp: migrate_up_def bind_tx_def)
    then show ?thesis using none by simp
  next
    case (Inr u)
    obtain y w2 d2 where c: "labelled ''create migration ledger'' create_ledger w1 d = (y, w2, d2)"
      by (cases "labelled ''create migration ledger'' create_ledger w1 d" rule: prod_cases3)
    then have s: "schema_state d2 = schema_state d"
      by (auto simp: labelled_def create_ledger_def exec_def sql_def schema_state_def split: option.splits)
    show ?thesis
    proof (cases y)
      case (Inl e)
      then have "r = Inl e" "d' = d2" using assms l d1 c Inr by (auto simp: migrate_up_def bind_tx_def unlock_after_def)
      then show ?thesis using none s by simp
    next
      case (Inr u')
      then obtain w3 where "for_each (sort_key fst files) (migrate_file ddl) w2 d2 = (r, w3, d')"
        using assms l d1 c \<open>x = Inr u\<close>
        by (auto simp: migrate_up_def bind_tx_def unlock_after_def split: prod.splits)
      from migrate_files_run [OF this] show ?thesis by (simp add: s)
    qed
  qed
qed

text \<open>A second run over files that are all in the ledger changes neither.\<close>

lemma installed_again:
  assumes "\<forall>file \<in> set files. \<exists>v \<in> set (fst state). migration_version (fst file) = Inr v"
  shows "installed ddl files state = Some state"
  using assms by (induction files) (cases state; auto)+

lemma installed_versions:
  "installed ddl files state = Some state' \<Longrightarrow> set (fst state) \<subseteq> set (fst state') \<and>
    (\<forall>file \<in> set files. \<exists>v \<in> set (fst state'). migration_version (fst file) = Inr v)"
proof (induction files arbitrary: state)
  case (Cons f files)
  then show ?case by (cases state) (fastforce split: sum.splits if_splits)
qed simp

theorem migrations_idempotent:
  assumes first: "migrate_up ddl files w d = (Inr (), w', d')"
    and again: "migrate_up ddl files v d' = (r, v', d'')"
  shows "schema_state d'' = schema_state d'"
proof -
  let ?files = "sort_key fst files"
  have "installed ddl ?files (schema_state d) = Some (schema_state d')"
    using migrations_whole [OF first] by fastforce
  then have all: "\<forall>file \<in> set ?files. \<exists>v \<in> set (fst (schema_state d')). migration_version (fst file) = Inr v"
    using installed_versions by blast
  obtain n where "installed ddl (take n ?files) (schema_state d') = Some (schema_state d'')"
    using migrations_whole [OF again] by blast
  moreover have "installed ddl (take n ?files) (schema_state d') = Some (schema_state d')"
    using all by (intro installed_again) (meson in_set_takeD)
  ultimately show ?thesis by simp
qed

end
